(* ===== verification/Prelude.thy ===== *)
theory Prelude
  imports Complex_Main
begin

text \<open>
  Shared vocabulary of the snake-game development: the model of the JavaScript
  random source, the collections of rewrite rules the component theories
  extend, and generic lemmas on lists, floors and iterated functions that
  several components use.
\<close>

section \<open>Types and rule collections\<close>

text \<open>
  \<open>Math.random()\<close> is modelled as an oracle: the \<open>i\<close>-th call returns \<open>rnd i\<close>.
  The game state counts the calls made so far, so successive calls read
  successive values, as one global generator does.
\<close>

type_synonym rng = "nat \<Rightarrow> rat"

named_theorems game_simps "unfolding rules of the game operations"
named_theorems wf_simps "unfolding rules of the well-formedness predicates"

section \<open>Generic lemmas\<close>

text \<open>Floors of numeral fractions, for evaluating random draws in witnesses.\<close>

lemma floor_numeral_divide [simp]:
  "\<lfloor>(numeral a / numeral b :: 'a::floor_ceiling)\<rfloor> = numeral a div numeral b"
  using floor_divide_of_int_eq [of "numeral a" "numeral b", where 'a = 'a] by simp

text \<open>A floor of a value in \<open>[0, 1)\<close> scaled by a positive \<open>n\<close> lies in \<open>[0, n)\<close>.\<close>

lemma floor_scaled_unit_bounds:
  fixes r :: rat and n :: int
  assumes "0 \<le> r" "r < 1" "0 < n"
  shows "0 \<le> \<lfloor>r * of_int n\<rfloor> \<and> \<lfloor>r * of_int n\<rfloor> < n"
proof
  show "0 \<le> \<lfloor>r * of_int n\<rfloor>"
    using assms by simp
next
  have "r * of_int n < 1 * of_int n"
    using assms by (intro mult_strict_right_mono) simp_all
  then show "\<lfloor>r * of_int n\<rfloor> < n"
    by (simp add: floor_less_iff)
qed

text \<open>Dropping the last element keeps a list duplicate-free and adds no elements.\<close>

lemma set_butlast_subset [simp]: "set (butlast xs) \<subseteq> set xs"
  by (meson in_set_butlastD subsetI)

end
