(* ===== verification/Grid.thy ===== *)
theory Grid
  imports Prelude
begin

text \<open>
  The board of \<open>src/hooks/useSnakeGame.ts\<close>: the \<open>Point\<close> type, the constant
  \<open>GRID_SIZE\<close>, the wall test of \<open>moveSnake\<close> and the \<open>some\<close> scan that both
  \<open>generateFood\<close> and the self-collision test use to ask whether a cell is
  occupied by a segment.  The record fields \<open>px\<close>, \<open>py\<close> are the source's
  \<open>x\<close>, \<open>y\<close> (one-letter constants would shadow variables in every proof).
\<close>

section \<open>Definitions\<close>

record Point =
  px :: int
  py :: int

definition GRID_SIZE :: int where
  "GRID_SIZE = 20"

text \<open>The wall-collision condition of \<open>moveSnake\<close>.\<close>

definition wallCollision :: "Point \<Rightarrow> bool" where
  "wallCollision newHead \<longleftrightarrow>
     px newHead < 0 \<or> px newHead \<ge> GRID_SIZE \<or> py newHead < 0 \<or> py newHead \<ge> GRID_SIZE"

text \<open>\<open>currentSnake.some(segment => segment.x === p.x && segment.y === p.y)\<close>.\<close>

definition onSnake :: "Point list \<Rightarrow> Point \<Rightarrow> bool" where
  "onSnake segs p \<longleftrightarrow> list_ex (\<lambda>segment. px segment = px p \<and> py segment = py p) segs"

text \<open>The abstract grid of the specification: the cells \<open>0 \<le> x, y < N\<close>.\<close>

definition inBounds :: "Point \<Rightarrow> bool" where
  "inBounds p \<longleftrightarrow> 0 \<le> px p \<and> px p < GRID_SIZE \<and> 0 \<le> py p \<and> py p < GRID_SIZE"

definition allCells :: "Point list" where
  "allCells = map (\<lambda>(i, j). \<lparr>px = int i, py = int j\<rparr>) (List.product [0..<20] [0..<20])"

section \<open>Lemmas\<close>

text \<open>Comparing both coordinates is record equality.\<close>

lemma onSnake_iff [simp]: "onSnake segs p \<longleftrightarrow> p \<in> set segs"
  by (induction segs) (auto simp: onSnake_def)

lemma wallCollision_iff: "wallCollision p \<longleftrightarrow> \<not> inBounds p"
  by (auto simp: wallCollision_def inBounds_def)

lemma inBounds_allCells: "inBounds p \<longleftrightarrow> p \<in> set allCells"
proof
  assume b: "inBounds p"
  have p: "p = \<lparr>px = int (nat (px p)), py = int (nat (py p))\<rparr>"
    using b by (simp add: inBounds_def)
  have "(nat (px p), nat (py p)) \<in> set (List.product [0..<20] [0..<20])"
    using b by (auto simp: inBounds_def GRID_SIZE_def)
  then have "(\<lambda>(i, j). \<lparr>px = int i, py = int j\<rparr>) (nat (px p), nat (py p)) \<in> set allCells"
    unfolding allCells_def set_map by (rule imageI)
  then show "p \<in> set allCells"
    using p by simp
next
  assume "p \<in> set allCells"
  then show "inBounds p"
    by (auto simp: allCells_def inBounds_def GRID_SIZE_def)
qed

lemma distinct_allCells: "distinct allCells"
  unfolding allCells_def
  by (rule distinct_map [THEN iffD2]) (auto simp: distinct_product inj_on_def)

lemma length_allCells: "length allCells = 400"
  by (simp add: allCells_def length_product)

end
