(* ===== verification/Food.thy ===== *)
theory Food
  imports Grid "HOL-Library.While_Combinator"
begin

text \<open>
  The food generator \<open>generateFood\<close> of \<open>src/hooks/useSnakeGame.ts\<close>: rejection
  sampling that draws two calls of \<open>Math.random()\<close> per attempt (x first, then
  y), scales them to grid coordinates with \<open>Math.floor\<close>, and retries while the
  cell is on the snake.  The \<open>while (true)\<close> loop has no bound, so it is a
  \<^theory_text>\<open>partial_function (option)\<close>: \<open>None\<close> is the loop that never exits.
  The second component of the result is the index of the next unread random
  value.  The lemmas show that a returned cell is free and inside the grid,
  which attempt is returned (the first free one, so the loop returns exactly
  when some attempt is free), and that on a full grid the loop never returns.
\<close>

section \<open>Definitions\<close>

text \<open>\<open>Math.floor(Math.random() * GRID_SIZE)\<close>.\<close>

definition randomCoord :: "rat \<Rightarrow> int" where
  "randomCoord r = \<lfloor>r * of_int GRID_SIZE\<rfloor>"

text \<open>One candidate cell: the object literal \<open>{x: ..., y: ...}\<close>, read from
  the random values \<open>i\<close> and \<open>i + 1\<close>.\<close>

definition drawPoint :: "rng \<Rightarrow> nat \<Rightarrow> Point" where
  "drawPoint rnd i = \<lparr>px = randomCoord (rnd i), py = randomCoord (rnd (Suc i))\<rparr>"

partial_function (option) generateFood :: "rng \<Rightarrow> Point list \<Rightarrow> nat \<Rightarrow> (Point \<times> nat) option"
where
  "generateFood rnd currentSnake i =
     (let newFood = drawPoint rnd i
      in if \<not> onSnake currentSnake newFood then Some (newFood, i + 2)
         else generateFood rnd currentSnake (i + 2))"

text \<open>The contract of \<open>Math.random()\<close>: every value lies in \<open>[0, 1)\<close>.\<close>

definition validRng :: "rng \<Rightarrow> bool" where
  "validRng rnd \<longleftrightarrow> (\<forall>i. 0 \<le> rnd i \<and> rnd i < 1)"

text \<open>A reference formulation of the same loop with the library's
  \<open>while_option\<close>: skip attempts while the drawn cell is occupied, then take
  the cell of the attempt reached.\<close>

definition generateFoodWhile :: "rng \<Rightarrow> Point list \<Rightarrow> nat \<Rightarrow> (Point \<times> nat) option" where
  "generateFoodWhile rnd segs i =
     map_option (\<lambda>j. (drawPoint rnd j, j + 2))
       (while_option (\<lambda>j. drawPoint rnd j \<in> set segs) (\<lambda>j. j + 2) i)"

section \<open>Lemmas\<close>

lemma randomCoord_bounds:
  "0 \<le> r \<Longrightarrow> r < 1 \<Longrightarrow> 0 \<le> randomCoord r \<and> randomCoord r < GRID_SIZE"
  unfolding randomCoord_def GRID_SIZE_def
  using floor_scaled_unit_bounds [of r 20] by simp

lemma drawPoint_inBounds: "validRng rnd \<Longrightarrow> inBounds (drawPoint rnd i)"
  using randomCoord_bounds
  by (simp add: validRng_def drawPoint_def inBounds_def)

text \<open>One unfolding of the loop, with the occupancy scan read as membership.\<close>

lemma generateFood_unfold:
  "generateFood rnd s i =
     (if drawPoint rnd i \<notin> set s then Some (drawPoint rnd i, i + 2)
      else generateFood rnd s (i + 2))"
  by (subst generateFood.simps) simp

text \<open>Partial correctness: a returned cell is one of the draws and is free.\<close>

lemma generateFood_sound:
  assumes "generateFood rnd s i = Some r"
  shows "fst r \<notin> set s \<and> (\<exists>k. fst r = drawPoint rnd (i + 2 * k) \<and> snd r = i + 2 * k + 2)"
proof (rule generateFood.raw_induct
    [where P = "\<lambda>rnd s i r. fst r \<notin> set s \<and>
        (\<exists>k. fst r = drawPoint rnd (i + 2 * k) \<and> snd r = i + 2 * k + 2)", OF _ assms])
  fix f rnd s i r
  assume IH: "\<And>rnd s i r. f rnd s i = Some r \<Longrightarrow> fst r \<notin> set s \<and>
        (\<exists>k. fst r = drawPoint rnd (i + 2 * k) \<and> snd r = i + 2 * k + 2)"
    and step: "(let newFood = drawPoint rnd i
      in if \<not> onSnake s newFood then Some (newFood, i + 2) else f rnd s (i + 2)) = Some r"
  show "fst r \<notin> set s \<and> (\<exists>k. fst r = drawPoint rnd (i + 2 * k) \<and> snd r = i + 2 * k + 2)"
  proof (cases "drawPoint rnd i \<in> set s")
    case False
    with step have "r = (drawPoint rnd i, i + 2)" by simp
    with False show ?thesis by (metis add_0_right fst_conv mult_0_right snd_conv)
  next
    case True
    with step have "f rnd s (i + 2) = Some r" by simp
    then obtain k where "fst r \<notin> set s" "fst r = drawPoint rnd (i + 2 + 2 * k)"
        "snd r = i + 2 + 2 * k + 2"
      using IH by blast
    then show ?thesis
      by (metis add.assoc mult_Suc_right)
  qed
qed

text \<open>The loop returns the first free attempt: from attempt \<open>k\<close> on, if the
  attempts before it are occupied and it is free, it is the result.\<close>

lemma generateFood_first:
  "(\<forall>k' < k. drawPoint rnd (i + 2 * k') \<in> set s) \<Longrightarrow> drawPoint rnd (i + 2 * k) \<notin> set s \<Longrightarrow>
   generateFood rnd s i = Some (drawPoint rnd (i + 2 * k), i + 2 * k + 2)"
proof (induction k arbitrary: i)
  case 0
  then show ?case by (simp add: generateFood_unfold)
next
  case (Suc k)
  from Suc.prems(1) have occ: "drawPoint rnd i \<in> set s" by auto
  have "\<forall>k' < k. drawPoint rnd (i + 2 + 2 * k') \<in> set s"
    using Suc.prems(1) by (metis Suc_mono add.assoc mult_Suc_right)
  moreover have "drawPoint rnd (i + 2 + 2 * k) \<notin> set s"
    using Suc.prems(2) by (simp add: add.assoc)
  ultimately have "generateFood rnd s (i + 2) =
      Some (drawPoint rnd (i + 2 + 2 * k), i + 2 + 2 * k + 2)"
    by (rule Suc.IH)
  with occ show ?case by (simp add: generateFood_unfold add.assoc)
qed

text \<open>Some free attempt is enough for the loop to return.\<close>

lemma generateFood_Some_ex:
  "drawPoint rnd (i + 2 * k) \<notin> set segs \<Longrightarrow> \<exists>p j. generateFood rnd segs i = Some (p, j)"
proof (induction k arbitrary: i)
  case 0
  then show ?case by (simp add: generateFood_unfold)
next
  case (Suc k)
  then have "\<exists>p j. generateFood rnd segs (i + 2) = Some (p, j)"
    by (simp add: add.assoc)
  then show ?case by (simp add: generateFood_unfold)
qed

text \<open>C6: a cell returned by \<open>generateFood\<close> is never on the snake it was drawn
  against, and lies inside the grid.\<close>

theorem generateFood_free:
  assumes "validRng rnd" and "generateFood rnd segs i = Some (p, j)"
  shows "p \<notin> set segs \<and> inBounds p"
  using generateFood_sound [OF assms(2)] drawPoint_inBounds [OF assms(1)] by auto

theorem generateFood_free_witness:
  "validRng (\<lambda>_. 1 / 2) \<and> generateFood (\<lambda>_. 1 / 2) [] 0 = Some (\<lparr>px = 10, py = 10\<rparr>, 2) \<and>
   \<lparr>px = 10, py = 10\<rparr> \<notin> set [] \<and> inBounds \<lparr>px = 10, py = 10\<rparr>"
proof -
  have v: "validRng (\<lambda>_. 1 / 2)" by (simp add: validRng_def)
  have g: "generateFood (\<lambda>_. 1 / 2) [] 0 = Some (\<lparr>px = 10, py = 10\<rparr>, 2)"
    by (simp add: generateFood_unfold drawPoint_def randomCoord_def GRID_SIZE_def)
  show ?thesis using v g generateFood_free [OF v g] by simp
qed

text \<open>C7: the rejection loop returns as soon as one attempt is free, and returns
  the first free attempt together with the index of the next random value.\<close>

theorem generateFood_returns:
  assumes "drawPoint rnd (i + 2 * k) \<notin> set segs"
  shows "generateFood rnd segs i =
           Some (drawPoint rnd (i + 2 * (LEAST k. drawPoint rnd (i + 2 * k) \<notin> set segs)),
                 i + 2 * (LEAST k. drawPoint rnd (i + 2 * k) \<notin> set segs) + 2)"
proof -
  define k0 where "k0 = (LEAST k. drawPoint rnd (i + 2 * k) \<notin> set segs)"
  have "drawPoint rnd (i + 2 * k0) \<notin> set segs"
    unfolding k0_def by (rule LeastI [of _ k]) (rule assms)
  moreover have "\<forall>k' < k0. drawPoint rnd (i + 2 * k') \<in> set segs"
    unfolding k0_def using not_less_Least by blast
  ultimately show ?thesis
    unfolding k0_def [symmetric] by (intro generateFood_first)
qed

theorem generateFood_returns_witness:
  "drawPoint (\<lambda>n. if n < 2 then 1 / 2 else 1 / 4) (0 + 2 * 1) \<notin> set [\<lparr>px = 10, py = 10\<rparr>] \<and>
   generateFood (\<lambda>n. if n < 2 then 1 / 2 else 1 / 4) [\<lparr>px = 10, py = 10\<rparr>] 0 =
     Some (\<lparr>px = 5, py = 5\<rparr>, 4)"
proof -
  let ?r = "\<lambda>n::nat. if n < 2 then 1 / 2 else (1 / 4 :: rat)"
  have d: "\<And>n. drawPoint ?r n = (if n < 1 then \<lparr>px = 10, py = 10\<rparr>
                                  else if n < 2 then \<lparr>px = 10, py = 5\<rparr> else \<lparr>px = 5, py = 5\<rparr>)"
    by (simp add: drawPoint_def randomCoord_def GRID_SIZE_def)
  have free: "drawPoint ?r (0 + 2 * 1) \<notin> set [\<lparr>px = 10, py = 10\<rparr>]"
    by (simp add: d)
  have least: "(LEAST k. drawPoint ?r (0 + 2 * k) \<notin> set [\<lparr>px = 10, py = 10\<rparr>]) = 1"
  proof (rule Least_equality)
    show "drawPoint ?r (0 + 2 * 1) \<notin> set [\<lparr>px = 10, py = 10\<rparr>]" by (rule free)
  next
    fix y :: nat
    assume "drawPoint ?r (0 + 2 * y) \<notin> set [\<lparr>px = 10, py = 10\<rparr>]"
    then show "1 \<le> y" by (cases y) (simp_all add: d)
  qed
  show ?thesis
    using free generateFood_returns [OF free] least by (simp add: d)
qed

text \<open>C8: on a full grid the loop never returns (the hook has no fallback).\<close>

theorem generateFood_full_grid:
  assumes "validRng rnd" and "set allCells \<subseteq> set segs"
  shows "generateFood rnd segs i = None"
proof (rule ccontr)
  assume "generateFood rnd segs i \<noteq> None"
  then obtain r where r: "generateFood rnd segs i = Some r" by blast
  from generateFood_sound [OF r] obtain k where "fst r \<notin> set segs" "fst r = drawPoint rnd (i + 2 * k)"
    by blast
  with drawPoint_inBounds [OF assms(1)] assms(2) show False
    by (metis inBounds_allCells subsetD)
qed

theorem generateFood_full_grid_witness:
  "validRng (\<lambda>_. 0) \<and> set allCells \<subseteq> set allCells \<and> generateFood (\<lambda>_. 0) allCells 0 = None"
proof -
  have v: "validRng (\<lambda>_. 0)" by (simp add: validRng_def)
  show ?thesis using v generateFood_full_grid [OF v, of allCells] by simp
qed

text \<open>C21: a random value in \<open>[0, 1)\<close> becomes a coordinate in
  \<open>[0, GRID_SIZE)\<close>, and every coordinate of the grid is produced by some
  random value.\<close>

theorem randomCoord_range:
  "(0 \<le> r \<and> r < 1 \<longrightarrow> 0 \<le> randomCoord r \<and> randomCoord r < GRID_SIZE) \<and>
   (0 \<le> c \<and> c < GRID_SIZE \<longrightarrow> randomCoord (of_int c / of_int GRID_SIZE) = c)"
  using randomCoord_bounds [of r] by (simp add: randomCoord_def GRID_SIZE_def)

theorem randomCoord_range_witness:
  "0 \<le> (1 / 2 :: rat) \<and> (1 / 2 :: rat) < 1 \<and> 0 \<le> randomCoord (1 / 2) \<and>
   randomCoord (1 / 2) < GRID_SIZE \<and> 0 \<le> (7 :: int) \<and> 7 < GRID_SIZE \<and>
   randomCoord (of_int 7 / of_int GRID_SIZE) = 7"
proof -
  have "(7 :: int) < GRID_SIZE" by (simp add: GRID_SIZE_def)
  then show ?thesis using randomCoord_range [of "1 / 2" 7] by simp
qed

lemma funpow_add_two: "((\<lambda>j::nat. j + 2) ^^ k) i = i + 2 * k"
  by (induction k) simp_all

text \<open>The rejection loop \<open>generateFood\<close> equals the same loop written with
  the library's \<open>while_option\<close>, \<open>generateFoodWhile\<close>
  \<open>generateFoodWhile\<close> on every input, both where it returns and where it never
  returns.\<close>

lemma generateFood_eq_while: "generateFood rnd segs i = generateFoodWhile rnd segs i"
proof (cases "\<exists>k. drawPoint rnd (i + 2 * k) \<notin> set segs")
  case True
  define k0 where "k0 = (LEAST k. drawPoint rnd (i + 2 * k) \<notin> set segs)"
  have free: "drawPoint rnd (i + 2 * k0) \<notin> set segs"
    unfolding k0_def using True by (metis LeastI)
  have before: "\<forall>k' < k0. drawPoint rnd (i + 2 * k') \<in> set segs"
    unfolding k0_def using not_less_Least by blast
  have "while_option (\<lambda>j. drawPoint rnd j \<in> set segs) (\<lambda>j. j + 2) i = Some (i + 2 * k0)"
    unfolding while_option_def funpow_add_two using True by (simp add: k0_def)
  moreover have "generateFood rnd segs i = Some (drawPoint rnd (i + 2 * k0), i + 2 * k0 + 2)"
    using before free by (rule generateFood_first)
  ultimately show ?thesis by (simp add: generateFoodWhile_def)
next
  case False
  have "generateFood rnd segs i = None"
  proof (rule ccontr)
    assume "generateFood rnd segs i \<noteq> None"
    then obtain r where "generateFood rnd segs i = Some r" by blast
    from generateFood_sound [OF this] False show False by auto
  qed
  moreover have "while_option (\<lambda>j. drawPoint rnd j \<in> set segs) (\<lambda>j. j + 2) i = None"
    unfolding while_option_def funpow_add_two using False by simp
  ultimately show ?thesis by (simp add: generateFoodWhile_def)
qed

end
