(* ===== verification/Snake.thy ===== *)
theory Snake
  imports Grid
begin

text \<open>
  The snake body of \<open>moveSnake\<close> in \<open>src/hooks/useSnakeGame.ts\<close>: the new head
  \<open>head + direction\<close>, growth by \<open>[newHead, ...prevSnake]\<close>, and the move that
  also runs \<open>newSnake.pop()\<close>.  Its well-formedness \<open>snakeOk\<close> (non-empty, no
  repeated cell, inside the grid, consecutive segments one step apart) is
  kept by both operations under the guards \<open>moveSnake\<close> checks first.
\<close>

section \<open>Definitions\<close>

text \<open>\<open>newHead = {x: head.x + dir.x, y: head.y + dir.y}\<close>.\<close>

definition advance :: "Point \<Rightarrow> Point \<Rightarrow> Point" where
  "advance head dir = \<lparr>px = px head + px dir, py = py head + py dir\<rparr>"

text \<open>\<open>const newSnake = [newHead, ...prevSnake]\<close>.\<close>

definition growTo :: "Point \<Rightarrow> Point list \<Rightarrow> Point list" where
  "growTo newHead prevSnake = newHead # prevSnake"

text \<open>\<open>newSnake.pop()\<close> on the grown snake: the last segment is dropped.\<close>

definition moveTo :: "Point \<Rightarrow> Point list \<Rightarrow> Point list" where
  "moveTo newHead prevSnake = butlast (growTo newHead prevSnake)"

text \<open>A step of one cell along one axis.\<close>

definition unitStep :: "Point \<Rightarrow> Point \<Rightarrow> bool" where
  "unitStep a b \<longleftrightarrow> \<bar>px a - px b\<bar> + \<bar>py a - py b\<bar> = 1"

fun connected :: "Point list \<Rightarrow> bool" where
  "connected (a # b # rest) \<longleftrightarrow> unitStep a b \<and> connected (b # rest)"
| "connected _ \<longleftrightarrow> True"

definition snakeOk :: "Point list \<Rightarrow> bool" where
  "snakeOk segs \<longleftrightarrow> segs \<noteq> [] \<and> distinct segs \<and> list_all inBounds segs \<and> connected segs"

section \<open>Lemmas\<close>

lemma length_growTo [simp]: "length (growTo h segs) = Suc (length segs)"
  by (simp add: growTo_def)

lemma length_moveTo [simp]: "length (moveTo h segs) = length segs"
  by (simp add: moveTo_def growTo_def)

lemma hd_moveTo [simp]: "segs \<noteq> [] \<Longrightarrow> moveTo h segs = h # butlast segs"
  by (simp add: moveTo_def growTo_def)

lemma set_moveTo: "set (moveTo h segs) \<subseteq> insert h (set segs)"
  by (auto simp: moveTo_def growTo_def dest: in_set_butlastD)

lemma connected_butlast: "connected segs \<Longrightarrow> connected (butlast segs)"
  by (induction segs rule: connected.induct) (auto split: list.splits)

lemma unitStep_advance: "\<bar>px d\<bar> + \<bar>py d\<bar> = 1 \<Longrightarrow> unitStep (advance h d) h"
  by (simp add: unitStep_def advance_def)

text \<open>Growing by a free, in-grid cell next to the head keeps the body well formed.\<close>

lemma snakeOk_growTo:
  assumes "snakeOk segs" "inBounds h" "h \<notin> set segs" "unitStep h (hd segs)"
  shows "snakeOk (growTo h segs)"
proof -
  obtain a rest where "segs = a # rest"
    using assms(1) by (cases segs) (auto simp: snakeOk_def)
  with assms show ?thesis
    by (simp add: snakeOk_def growTo_def)
qed

text \<open>Moving keeps it too: the dropped tail cannot break any of the four parts.\<close>

lemma snakeOk_moveTo:
  assumes "snakeOk segs" "inBounds h" "h \<notin> set segs" "unitStep h (hd segs)"
  shows "snakeOk (moveTo h segs)"
proof -
  have g: "snakeOk (growTo h segs)"
    using assms by (rule snakeOk_growTo)
  have "moveTo h segs \<noteq> []"
    using assms(1) by (simp add: snakeOk_def)
  moreover have "distinct (moveTo h segs)" "list_all inBounds (moveTo h segs)"
    using g by (auto simp: snakeOk_def moveTo_def list_all_iff distinct_butlast
        dest: in_set_butlastD)
  moreover have "connected (moveTo h segs)"
    using g by (simp add: snakeOk_def moveTo_def connected_butlast)
  ultimately show ?thesis by (simp add: snakeOk_def)
qed

end
