(* ===== verification/Direction.thy ===== *)
theory Direction
  imports Grid
begin

text \<open>
  Direction input of \<open>src/hooks/useSnakeGame.ts\<close>: \<open>handleDirection\<close> and the
  keyboard mapping of the \<open>keydown\<close> listener.  A request is refused when it
  points back along the current value of \<open>directionRef\<close>; the lemmas show that
  exactly the reverse of that value is refused, that every accepted value is
  a unit vector, and that the test is against the last accepted request, not
  against the direction the snake last moved in.
\<close>

section \<open>Definitions\<close>

datatype Dir = UP | DOWN | LEFT | RIGHT

text \<open>The unit vector a request asks for.\<close>

fun dirVec :: "Dir \<Rightarrow> Point" where
  "dirVec UP = \<lparr>px = 0, py = -1\<rparr>"
| "dirVec DOWN = \<lparr>px = 0, py = 1\<rparr>"
| "dirVec LEFT = \<lparr>px = -1, py = 0\<rparr>"
| "dirVec RIGHT = \<lparr>px = 1, py = 0\<rparr>"

text \<open>\<open>handleDirection\<close>: \<open>Some\<close> the new value of \<open>directionRef\<close> (and of the
  \<open>direction\<close> state), \<open>None\<close> when the guard refuses and nothing is written.\<close>

fun handleDirection :: "Point \<Rightarrow> Dir \<Rightarrow> Point option" where
  "handleDirection cur UP = (if py cur \<noteq> 1 then Some \<lparr>px = 0, py = -1\<rparr> else None)"
| "handleDirection cur DOWN = (if py cur \<noteq> -1 then Some \<lparr>px = 0, py = 1\<rparr> else None)"
| "handleDirection cur LEFT = (if px cur \<noteq> 1 then Some \<lparr>px = -1, py = 0\<rparr> else None)"
| "handleDirection cur RIGHT = (if px cur \<noteq> -1 then Some \<lparr>px = 1, py = 0\<rparr> else None)"

text \<open>The \<open>switch (e.key)\<close> of \<open>handleKeyDown\<close>; other keys do nothing.\<close>

definition keyToDir :: "string \<Rightarrow> Dir option" where
  "keyToDir key =
     (if key = ''ArrowUp'' then Some UP
      else if key = ''ArrowDown'' then Some DOWN
      else if key = ''ArrowLeft'' then Some LEFT
      else if key = ''ArrowRight'' then Some RIGHT
      else None)"

text \<open>The keys whose default browser action \<open>handleKeyDown\<close> suppresses:
  \<open>["ArrowUp", "ArrowDown", "ArrowLeft", "ArrowRight"].includes(e.key)\<close>.\<close>

definition arrowKeys :: "string list" where
  "arrowKeys = [''ArrowUp'', ''ArrowDown'', ''ArrowLeft'', ''ArrowRight'']"

definition preventsDefault :: "string \<Rightarrow> bool" where
  "preventsDefault key \<longleftrightarrow> key \<in> set arrowKeys"

text \<open>The key that requests a direction (the inverse of the \<open>switch\<close>).\<close>

fun arrowKey :: "Dir \<Rightarrow> string" where
  "arrowKey UP = ''ArrowUp''"
| "arrowKey DOWN = ''ArrowDown''"
| "arrowKey LEFT = ''ArrowLeft''"
| "arrowKey RIGHT = ''ArrowRight''"

definition isDirection :: "Point \<Rightarrow> bool" where
  "isDirection d \<longleftrightarrow> d \<in> set (map dirVec [UP, DOWN, LEFT, RIGHT])"

definition opposite :: "Point \<Rightarrow> Point" where
  "opposite d = \<lparr>px = - px d, py = - py d\<rparr>"

section \<open>Lemmas\<close>

lemma isDirection_cases:
  "isDirection d \<longleftrightarrow> d = dirVec UP \<or> d = dirVec DOWN \<or> d = dirVec LEFT \<or> d = dirVec RIGHT"
  by (auto simp: isDirection_def)

lemma isDirection_dirVec [simp]: "isDirection (dirVec r)"
  by (cases r) (simp_all add: isDirection_def)

lemma isDirection_unit: "isDirection d \<Longrightarrow> \<bar>px d\<bar> + \<bar>py d\<bar> = 1"
  by (auto simp: isDirection_def)

lemma handleDirection_Some: "handleDirection cur r = Some v \<Longrightarrow> v = dirVec r"
  by (cases r) (auto split: if_splits)

text \<open>Two accepted requests always suffice to reverse \<open>directionRef\<close>.\<close>

lemma two_turns_reverse:
  assumes "isDirection cur"
  shows "\<exists>r1 r2 v. handleDirection cur r1 = Some v \<and> handleDirection v r2 = Some (opposite cur)"
proof -
  have "cur = dirVec UP \<or> cur = dirVec DOWN \<or> cur = dirVec LEFT \<or> cur = dirVec RIGHT"
    using assms by (simp add: isDirection_cases)
  then show ?thesis
  proof (elim disjE)
    assume "cur = dirVec UP"
    then show ?thesis by (intro exI [of _ LEFT] exI [of _ DOWN]) (simp add: opposite_def)
  next
    assume "cur = dirVec DOWN"
    then show ?thesis by (intro exI [of _ LEFT] exI [of _ UP]) (simp add: opposite_def)
  next
    assume "cur = dirVec LEFT"
    then show ?thesis by (intro exI [of _ UP] exI [of _ RIGHT]) (simp add: opposite_def)
  next
    assume "cur = dirVec RIGHT"
    then show ?thesis by (intro exI [of _ UP] exI [of _ LEFT]) (simp add: opposite_def)
  qed
qed

text \<open>C9: with \<open>directionRef\<close> a unit vector, a request is refused exactly when
  it asks for the reverse of that vector, and otherwise the requested vector
  is stored.\<close>

theorem handleDirection_reverse:
  assumes "isDirection cur"
  shows "handleDirection cur r = (if dirVec r = opposite cur then None else Some (dirVec r))"
  using assms by (cases r) (auto simp: isDirection_cases opposite_def)

theorem handleDirection_reverse_witness:
  "isDirection \<lparr>px = 1, py = 0\<rparr> \<and> handleDirection \<lparr>px = 1, py = 0\<rparr> LEFT = None \<and>
   handleDirection \<lparr>px = 1, py = 0\<rparr> UP = Some \<lparr>px = 0, py = -1\<rparr>"
proof -
  have d: "isDirection \<lparr>px = 1, py = 0\<rparr>" by (simp add: isDirection_def)
  show ?thesis
    using d handleDirection_reverse [OF d, of LEFT] handleDirection_reverse [OF d, of UP]
    by (simp add: opposite_def)
qed

text \<open>C25: the keyboard mapping is a bijection between the four arrow keys and
  the four requests: each request's key maps back to it, a key that maps to a
  request is that request's key, and the keys whose default is suppressed are
  exactly the keys that steer.\<close>

theorem keyToDir_roundtrip:
  "keyToDir (arrowKey r) = Some r \<and> (keyToDir key = Some r \<longrightarrow> key = arrowKey r) \<and>
   (preventsDefault key \<longleftrightarrow> keyToDir key \<noteq> None)"
  by (cases r) (auto simp: keyToDir_def preventsDefault_def arrowKeys_def split: if_splits)

theorem keyToDir_roundtrip_witness:
  "keyToDir (arrowKey LEFT) = Some LEFT \<and> keyToDir ''ArrowLeft'' = Some LEFT \<and>
   preventsDefault ''ArrowLeft'' \<and> \<not> preventsDefault ''a'' \<and> keyToDir ''a'' = None"
  using keyToDir_roundtrip [of LEFT "''ArrowLeft''"] keyToDir_roundtrip [of LEFT "''a''"]
  by (simp add: keyToDir_def)

end
