(* ===== verification/Engine.thy ===== *)
theory Engine
  imports Food Snake Direction
begin

text \<open>
  The state and the handlers of the hook \<open>useSnakeGame\<close>
  (\<open>src/hooks/useSnakeGame.ts\<close>).  Every \<open>useState\<close> and \<open>useRef\<close> of the hook
  is a field of the record \<open>Game\<close>; the timer handle \<open>gameLoopRef\<close> is not,
  since which callbacks may fire is decided by the effects (theory
  \<open>Clock\<close>).  The field \<open>randCalls\<close> counts the calls of \<open>Math.random()\<close> made so
  far.  Each handler takes the state it closes over and returns the state
  after React has applied the updates it queued, in the order it queued them.
  \<open>moveSnake\<close> can fail: reading \<open>prevSnake[0].x\<close> of an empty snake throws
  (\<open>Inl TypeError\<close>), and \<open>generateFood\<close> may never return (\<open>None\<close>).
\<close>

section \<open>Definitions\<close>

datatype GameState = MENU | PLAYING | GAME_OVER
datatype GameMode = UNLIMITED | TIMED
datatype Difficulty = EASY | MEDIUM | HARD

datatype js_error = TypeError

definition TIMED_DURATION :: int where
  "TIMED_DURATION = 60"

fun SPEEDS :: "Difficulty \<Rightarrow> int" where
  "SPEEDS EASY = 200"
| "SPEEDS MEDIUM = 140"
| "SPEEDS HARD = 90"

record Game =
  gameState :: GameState
  gameMode :: GameMode
  difficulty :: Difficulty
  snake :: "Point list"
  food :: Point
  direction :: Point
  score :: int
  highScore :: int
  timeLeft :: int
  isPaused :: bool
  directionRef :: Point
  speedRef :: int
  bonusFood :: "Point option"
  randCalls :: nat

text \<open>The initial values of the hook's \<open>useState\<close> and \<open>useRef\<close> calls.\<close>

definition initialGame :: Game where
  "initialGame =
     \<lparr>gameState = MENU, gameMode = UNLIMITED, difficulty = MEDIUM,
      snake = [\<lparr>px = 10, py = 10\<rparr>], food = \<lparr>px = 15, py = 10\<rparr>,
      direction = \<lparr>px = 1, py = 0\<rparr>, score = 0, highScore = 0,
      timeLeft = TIMED_DURATION, isPaused = False,
      directionRef = \<lparr>px = 1, py = 0\<rparr>, speedRef = SPEEDS MEDIUM,
      bonusFood = None, randCalls = 0\<rparr>"

definition handleGameOver :: "Game \<Rightarrow> Game" where
  "handleGameOver g =
     g\<lparr>gameState := GAME_OVER,
       highScore := (if score g > highScore g then score g else highScore g)\<rparr>"

definition togglePause :: "Game \<Rightarrow> Game" where
  "togglePause g = g\<lparr>isPaused := \<not> isPaused g\<rparr>"

text \<open>\<open>resetGame(mode)\<close>: the food is drawn against the one-cell snake; the speed
  is read from the current difficulty.\<close>

definition resetGame :: "rng \<Rightarrow> GameMode \<Rightarrow> Game \<Rightarrow> Game option" where
  "resetGame rnd mode g =
     (case generateFood rnd [\<lparr>px = 10, py = 10\<rparr>] (randCalls g) of
        None \<Rightarrow> None
      | Some (newFood, calls) \<Rightarrow>
          Some (g\<lparr>gameState := PLAYING, gameMode := mode, isPaused := False,
                  snake := [\<lparr>px = 10, py = 10\<rparr>], food := newFood, bonusFood := None,
                  direction := \<lparr>px = 1, py = 0\<rparr>, directionRef := \<lparr>px = 1, py = 0\<rparr>,
                  score := 0, timeLeft := TIMED_DURATION,
                  speedRef := SPEEDS (difficulty g), randCalls := calls\<rparr>))"

text \<open>\<open>bonusFood && newHead.x === bonusFood.x && newHead.y === bonusFood.y\<close>.\<close>

definition hitsBonus :: "Point option \<Rightarrow> Point \<Rightarrow> bool" where
  "hitsBonus bonus newHead \<longleftrightarrow>
     (case bonus of None \<Rightarrow> False | Some b \<Rightarrow> px newHead = px b \<and> py newHead = py b)"

text \<open>The 20\% bonus spawn: the random value is read only when no bonus existed
  when the tick began (\<open>!bonusFood && Math.random() > 0.8\<close>).\<close>

definition spawnBonus :: "rng \<Rightarrow> Point list \<Rightarrow> Point option \<Rightarrow> Game \<Rightarrow> Game option" where
  "spawnBonus rnd newSnake oldBonus g =
     (if oldBonus = None then
        (if rnd (randCalls g) > 4 / 5 then
           (case generateFood rnd newSnake (Suc (randCalls g)) of
              None \<Rightarrow> None
            | Some (b, calls) \<Rightarrow> Some (g\<lparr>bonusFood := Some b, randCalls := calls\<rparr>))
         else Some (g\<lparr>randCalls := Suc (randCalls g)\<rparr>))
      else Some g)"

text \<open>The speed ramp of unlimited mode: \<open>Math.max(minSpeed, speedRef.current - 2)\<close>.\<close>

definition rampSpeed :: "GameMode \<Rightarrow> int \<Rightarrow> int" where
  "rampSpeed mode speed = (if mode = UNLIMITED then max 50 (speed - 2) else speed)"

text \<open>The food branch of \<open>moveSnake\<close>: \<open>old\<close> is the state the callback closes
  over, \<open>g\<close> the state after the bonus branch.\<close>

definition eatFood :: "rng \<Rightarrow> Point list \<Rightarrow> Game \<Rightarrow> Game \<Rightarrow> Game option" where
  "eatFood rnd newSnake old g =
     (case generateFood rnd newSnake (randCalls g) of
        None \<Rightarrow> None
      | Some (newFood, calls) \<Rightarrow>
          map_option (\<lambda>g'. g'\<lparr>speedRef := rampSpeed (gameMode old) (speedRef g')\<rparr>)
            (spawnBonus rnd newSnake (bonusFood old)
               (g\<lparr>score := score g + 1, food := newFood, randCalls := calls\<rparr>)))"

text \<open>One tick of the game loop.\<close>

definition moveSnake :: "rng \<Rightarrow> Game \<Rightarrow> (js_error + Game) option" where
  "moveSnake rnd g =
     (case snake g of
        [] \<Rightarrow> Some (Inl TypeError)
      | head # _ \<Rightarrow>
          (let newHead = advance head (directionRef g)
           in if wallCollision newHead then Some (Inr (handleGameOver g))
              else if onSnake (snake g) newHead then Some (Inr (handleGameOver g))
              else
                (let newSnake = growTo newHead (snake g);
                     ateBonus = hitsBonus (bonusFood g) newHead;
                     g1 = (if ateBonus then g\<lparr>score := score g + 10, bonusFood := None\<rparr> else g)
                 in if px newHead = px (food g) \<and> py newHead = py (food g) then
                      map_option (\<lambda>g2. Inr (g2\<lparr>snake := newSnake\<rparr>)) (eatFood rnd newSnake g g1)
                    else if \<not> ateBonus then Some (Inr (g1\<lparr>snake := moveTo newHead (snake g)\<rparr>))
                    else Some (Inr (g1\<lparr>snake := newSnake\<rparr>)))))"

text \<open>\<open>handleDirection\<close> applied to the hook's state: both \<open>directionRef\<close> and the
  \<open>direction\<close> state receive the accepted vector.\<close>

definition changeDirection :: "Dir \<Rightarrow> Game \<Rightarrow> Game" where
  "changeDirection r g =
     (case handleDirection (directionRef g) r of
        None \<Rightarrow> g
      | Some v \<Rightarrow> g\<lparr>directionRef := v, direction := v\<rparr>)"

text \<open>A bonus cell, when there is one, is inside the grid and off the snake.\<close>

definition bonusOk :: "Point option \<Rightarrow> Point list \<Rightarrow> bool" where
  "bonusOk bonus segs \<longleftrightarrow> (case bonus of None \<Rightarrow> True | Some b \<Rightarrow> inBounds b \<and> b \<notin> set segs)"

text \<open>The invariant of the hook's state.\<close>

definition wfGame :: "Game \<Rightarrow> bool" where
  "wfGame g \<longleftrightarrow>
     snakeOk (snake g) \<and> inBounds (food g) \<and> food g \<notin> set (snake g) \<and>
     bonusOk (bonusFood g) (snake g) \<and>
     isDirection (directionRef g) \<and> direction g = directionRef g \<and>
     50 \<le> speedRef g \<and> speedRef g \<le> 200 \<and>
     0 \<le> timeLeft g \<and> timeLeft g \<le> TIMED_DURATION \<and>
     0 \<le> highScore g \<and> int (length (snake g)) - 1 \<le> score g \<and>
     (gameState g = GAME_OVER \<longrightarrow> score g \<le> highScore g)"

section \<open>Lemmas\<close>

lemma hitsBonus_iff [simp]: "hitsBonus bonus p \<longleftrightarrow> bonus = Some p"
  by (auto simp: hitsBonus_def split: option.splits)

lemma point_eq_coords [simp]: "(px a = px b \<and> py a = py b) \<longleftrightarrow> a = (b :: Point)"
  by (cases a, cases b) auto

lemma SPEEDS_bounds: "50 \<le> SPEEDS d \<and> SPEEDS d \<le> 200"
  by (cases d) simp_all

lemma rampSpeed_bounds: "50 \<le> s \<Longrightarrow> s \<le> 200 \<Longrightarrow> 50 \<le> rampSpeed m s \<and> rampSpeed m s \<le> 200"
  by (simp add: rampSpeed_def)

subsection \<open>The branches of a tick\<close>

lemma moveSnake_wall:
  "snake g = h # t \<Longrightarrow> wallCollision (advance h (directionRef g)) \<Longrightarrow>
   moveSnake rnd g = Some (Inr (handleGameOver g))"
  by (simp add: moveSnake_def)

lemma moveSnake_self:
  "snake g = h # t \<Longrightarrow> \<not> wallCollision (advance h (directionRef g)) \<Longrightarrow>
   advance h (directionRef g) \<in> set (snake g) \<Longrightarrow>
   moveSnake rnd g = Some (Inr (handleGameOver g))"
  by (simp add: moveSnake_def)

lemma moveSnake_move:
  "snake g = h # t \<Longrightarrow> nh = advance h (directionRef g) \<Longrightarrow> \<not> wallCollision nh \<Longrightarrow>
   nh \<notin> set (snake g) \<Longrightarrow> nh \<noteq> food g \<Longrightarrow> bonusFood g \<noteq> Some nh \<Longrightarrow>
   moveSnake rnd g = Some (Inr (g\<lparr>snake := moveTo nh (snake g)\<rparr>))"
  by (simp add: moveSnake_def Let_def)

lemma moveSnake_bonus:
  "snake g = h # t \<Longrightarrow> nh = advance h (directionRef g) \<Longrightarrow> \<not> wallCollision nh \<Longrightarrow>
   nh \<notin> set (snake g) \<Longrightarrow> nh \<noteq> food g \<Longrightarrow> bonusFood g = Some nh \<Longrightarrow>
   moveSnake rnd g =
     Some (Inr (g\<lparr>score := score g + 10, bonusFood := None, snake := growTo nh (snake g)\<rparr>))"
  by (simp add: moveSnake_def Let_def)

lemma moveSnake_food:
  "snake g = h # t \<Longrightarrow> nh = advance h (directionRef g) \<Longrightarrow> \<not> wallCollision nh \<Longrightarrow>
   nh \<notin> set (snake g) \<Longrightarrow> nh = food g \<Longrightarrow>
   moveSnake rnd g =
     map_option (\<lambda>g2. Inr (g2\<lparr>snake := growTo nh (snake g)\<rparr>))
       (eatFood rnd (growTo nh (snake g)) g
          (if bonusFood g = Some nh then g\<lparr>score := score g + 10, bonusFood := None\<rparr> else g))"
  by (simp add: moveSnake_def Let_def)

lemma moveSnake_empty: "snake g = [] \<Longrightarrow> moveSnake rnd g = Some (Inl TypeError)"
  by (simp add: moveSnake_def)

subsection \<open>The food and bonus branches\<close>

lemma spawnBonus_Some:
  assumes "spawnBonus rnd ns ob g = Some g'"
  shows "\<exists>b c. g' = g\<lparr>bonusFood := b, randCalls := c\<rparr> \<and>
           (validRng rnd \<longrightarrow> bonusOk (bonusFood g) ns \<longrightarrow> bonusOk b ns)"
proof (cases "ob = None \<and> rnd (randCalls g) > 4 / 5")
  case True
  then obtain b c where gen: "generateFood rnd ns (Suc (randCalls g)) = Some (b, c)"
    and g': "g' = g\<lparr>bonusFood := Some b, randCalls := c\<rparr>"
    using assms by (auto simp: spawnBonus_def split: option.splits)
  have "b \<notin> set ns" "validRng rnd \<longrightarrow> inBounds b"
    using generateFood_sound [OF gen] drawPoint_inBounds by auto
  with g' show ?thesis by (auto simp: bonusOk_def)
next
  case False
  then have "g' = g\<lparr>bonusFood := bonusFood g,
      randCalls := (if ob = None then Suc (randCalls g) else randCalls g)\<rparr>"
    using assms by (auto simp: spawnBonus_def split: if_splits)
  then show ?thesis by blast
qed

lemma eatFood_Some:
  assumes "eatFood rnd ns old g = Some g'"
  shows "\<exists>f b c. g' = g\<lparr>score := score g + 1, food := f, randCalls := c, bonusFood := b,
             speedRef := rampSpeed (gameMode old) (speedRef g)\<rparr> \<and>
           f \<notin> set ns \<and> (validRng rnd \<longrightarrow> inBounds f) \<and>
           (validRng rnd \<longrightarrow> bonusOk (bonusFood g) ns \<longrightarrow> bonusOk b ns)"
proof -
  obtain f c z where gen: "generateFood rnd ns (randCalls g) = Some (f, c)"
    and sp: "spawnBonus rnd ns (bonusFood old) (g\<lparr>score := score g + 1, food := f, randCalls := c\<rparr>)
               = Some z"
    and g': "g' = z\<lparr>speedRef := rampSpeed (gameMode old) (speedRef z)\<rparr>"
    using assms by (auto simp: eatFood_def split: option.splits)
  have free: "f \<notin> set ns" "validRng rnd \<longrightarrow> inBounds f"
    using generateFood_sound [OF gen] drawPoint_inBounds by auto
  from spawnBonus_Some [OF sp] obtain b c' where
    z: "z = g\<lparr>score := score g + 1, food := f, randCalls := c, bonusFood := b, randCalls := c'\<rparr>"
    and ok: "validRng rnd \<longrightarrow> bonusOk (bonusFood g) ns \<longrightarrow> bonusOk b ns"
    by auto
  have "g' = g\<lparr>score := score g + 1, food := f, randCalls := c', bonusFood := b,
      speedRef := rampSpeed (gameMode old) (speedRef g)\<rparr>"
    using g' z by simp
  with free ok show ?thesis by blast
qed

subsection \<open>The invariant is kept by every handler\<close>

lemma bonusOk_growTo: "bonusOk bo segs \<Longrightarrow> bo \<noteq> Some h \<Longrightarrow> bonusOk bo (growTo h segs)"
  by (auto simp: bonusOk_def growTo_def split: option.splits)

lemma bonusOk_moveTo: "bonusOk bo segs \<Longrightarrow> bo \<noteq> Some h \<Longrightarrow> bonusOk bo (moveTo h segs)"
  using set_moveTo by (fastforce simp: bonusOk_def split: option.splits)

lemma wfGame_handleGameOver: "wfGame g \<Longrightarrow> wfGame (handleGameOver g)"
  by (simp add: wfGame_def handleGameOver_def)

lemma wfGame_togglePause: "wfGame g \<Longrightarrow> wfGame (togglePause g)"
  by (simp add: wfGame_def togglePause_def)

lemma wfGame_changeDirection: "wfGame g \<Longrightarrow> wfGame (changeDirection r g)"
  by (auto simp: wfGame_def changeDirection_def dest: handleDirection_Some split: option.splits)

lemma wfGame_resetGame:
  assumes "validRng rnd" "wfGame g" "resetGame rnd mode g = Some g'"
  shows "wfGame g'"
proof -
  obtain f c where gen: "generateFood rnd [\<lparr>px = 10, py = 10\<rparr>] (randCalls g) = Some (f, c)"
    and g': "g' = g\<lparr>gameState := PLAYING, gameMode := mode, isPaused := False,
                  snake := [\<lparr>px = 10, py = 10\<rparr>], food := f, bonusFood := None,
                  direction := \<lparr>px = 1, py = 0\<rparr>, directionRef := \<lparr>px = 1, py = 0\<rparr>,
                  score := 0, timeLeft := TIMED_DURATION,
                  speedRef := SPEEDS (difficulty g), randCalls := c\<rparr>"
    using assms(3) by (auto simp: resetGame_def split: option.splits)
  have "f \<notin> set [\<lparr>px = 10, py = 10\<rparr>]" "inBounds f"
    using generateFood_sound [OF gen] drawPoint_inBounds [OF assms(1)] by auto
  moreover have "isDirection \<lparr>px = 1, py = 0\<rparr>"
    using isDirection_dirVec [of RIGHT] by simp
  ultimately show ?thesis
    using assms(2) SPEEDS_bounds [of "difficulty g"] unfolding g'
    by (simp add: wfGame_def snakeOk_def inBounds_def GRID_SIZE_def bonusOk_def TIMED_DURATION_def)
qed

text \<open>The facts about the new head that every growing branch of a tick needs.\<close>

lemma wfGame_newHead:
  assumes "wfGame g" "snake g = h # t" "\<not> wallCollision (advance h (directionRef g))"
  shows "inBounds (advance h (directionRef g)) \<and> unitStep (advance h (directionRef g)) (hd (snake g))"
  using assms isDirection_unit unitStep_advance
  by (simp add: wfGame_def wallCollision_iff)

lemma wfGame_moveSnake:
  assumes rng: "validRng rnd" and wf: "wfGame g" and pl: "gameState g = PLAYING"
    and step: "moveSnake rnd g = Some (Inr g')"
  shows "wfGame g'"
proof -
  obtain h t where sn: "snake g = h # t"
    using wf by (cases "snake g") (auto simp: wfGame_def snakeOk_def)
  define nh where "nh = advance h (directionRef g)"
  consider (wall) "wallCollision nh" | (self) "\<not> wallCollision nh" "nh \<in> set (snake g)"
    | (food) "\<not> wallCollision nh" "nh \<notin> set (snake g)" "nh = food g"
    | (bonus) "\<not> wallCollision nh" "nh \<notin> set (snake g)" "nh \<noteq> food g" "bonusFood g = Some nh"
    | (move) "\<not> wallCollision nh" "nh \<notin> set (snake g)" "nh \<noteq> food g" "bonusFood g \<noteq> Some nh"
    by blast
  then show ?thesis
  proof cases
    case wall
    with step moveSnake_wall [OF sn] have "g' = handleGameOver g" by (simp add: nh_def)
    with wf show ?thesis by (simp add: wfGame_handleGameOver)
  next
    case self
    with step moveSnake_self [OF sn] have "g' = handleGameOver g" by (simp add: nh_def)
    with wf show ?thesis by (simp add: wfGame_handleGameOver)
  next
    case move
    with step moveSnake_move [OF sn nh_def] have g': "g' = g\<lparr>snake := moveTo nh (snake g)\<rparr>"
      by simp
    have "snakeOk (moveTo nh (snake g))" "bonusOk (bonusFood g) (moveTo nh (snake g))"
      "food g \<notin> set (moveTo nh (snake g))"
      using wf move wfGame_newHead [OF wf sn] set_moveTo [of nh "snake g"]
      by (auto simp: wfGame_def nh_def intro: snakeOk_moveTo bonusOk_moveTo)
    with wf sn show ?thesis by (simp add: g' wfGame_def)
  next
    case bonus
    with step moveSnake_bonus [OF sn nh_def]
    have g': "g' = g\<lparr>score := score g + 10, bonusFood := None, snake := growTo nh (snake g)\<rparr>"
      by simp
    have "snakeOk (growTo nh (snake g))"
      using wf bonus wfGame_newHead [OF wf sn]
      by (intro snakeOk_growTo) (simp_all add: wfGame_def nh_def)
    moreover have "food g \<notin> set (growTo nh (snake g))"
      using wf bonus by (simp add: wfGame_def growTo_def)
    ultimately show ?thesis
      using wf pl by (simp add: g' wfGame_def bonusOk_def)
  next
    case food
    define g1 where "g1 = (if bonusFood g = Some nh then g\<lparr>score := score g + 10, bonusFood := None\<rparr> else g)"
    from step moveSnake_food [OF sn nh_def food] obtain g2 where
      g2: "eatFood rnd (growTo nh (snake g)) g g1 = Some g2" and g': "g' = g2\<lparr>snake := growTo nh (snake g)\<rparr>"
      by (auto simp: g1_def)
    have b1: "bonusOk (bonusFood g1) (growTo nh (snake g))"
      using wf food by (auto simp: g1_def wfGame_def bonusOk_def growTo_def split: option.splits)
    from eatFood_Some [OF g2] rng b1 obtain f b c where
      g2e: "g2 = g1\<lparr>score := score g1 + 1, food := f, randCalls := c, bonusFood := b,
             speedRef := rampSpeed (gameMode g) (speedRef g1)\<rparr>"
      and "f \<notin> set (growTo nh (snake g))" "inBounds f" "bonusOk b (growTo nh (snake g))"
      by blast
    moreover have "snakeOk (growTo nh (snake g))"
      using wf food wfGame_newHead [OF wf sn] by (auto simp: wfGame_def nh_def intro: snakeOk_growTo)
    moreover have "score g \<le> score g1" "speedRef g1 = speedRef g" "50 \<le> speedRef g" "speedRef g \<le> 200"
      using wf by (auto simp: g1_def wfGame_def)
    ultimately show ?thesis
      using wf pl rampSpeed_bounds [of "speedRef g" "gameMode g"]
      by (simp add: g' wfGame_def g1_def)
  qed
qed

text \<open>The frame of a tick: it either ends the game, or writes only the snake, the
  score (never lowering it), the food, the bonus, the random-call count and the
  speed, and it changes the speed (by the ramp) only when the score changes.\<close>

lemma moveSnake_Inr_cases:
  assumes "moveSnake rnd g = Some (Inr g')"
  shows "g' = handleGameOver g \<or>
         (gameState g' = gameState g \<and> gameMode g' = gameMode g \<and> difficulty g' = difficulty g \<and>
          direction g' = direction g \<and> highScore g' = highScore g \<and> timeLeft g' = timeLeft g \<and>
          isPaused g' = isPaused g \<and> directionRef g' = directionRef g \<and>
          score g \<le> score g' \<and> (score g' = score g \<longrightarrow> speedRef g' = speedRef g) \<and>
          (speedRef g' = speedRef g \<or> speedRef g' = rampSpeed (gameMode g) (speedRef g)) \<and>
          snake g \<noteq> [] \<and>
          (snake g' = growTo (advance (hd (snake g)) (directionRef g)) (snake g) \<or>
           snake g' = moveTo (advance (hd (snake g)) (directionRef g)) (snake g)))"
proof -
  obtain h t where sn: "snake g = h # t"
    using assms by (cases "snake g") (auto simp: moveSnake_def)
  define nh where "nh = advance h (directionRef g)"
  consider (stop) "wallCollision nh \<or> nh \<in> set (snake g)"
    | (food) "\<not> wallCollision nh" "nh \<notin> set (snake g)" "nh = food g"
    | (bonus) "\<not> wallCollision nh" "nh \<notin> set (snake g)" "nh \<noteq> food g" "bonusFood g = Some nh"
    | (move) "\<not> wallCollision nh" "nh \<notin> set (snake g)" "nh \<noteq> food g" "bonusFood g \<noteq> Some nh"
    by blast
  then show ?thesis
  proof cases
    case stop
    then have "moveSnake rnd g = Some (Inr (handleGameOver g))"
      using moveSnake_wall [OF sn] moveSnake_self [OF sn] unfolding nh_def by blast
    with assms show ?thesis by simp
  next
    case move
    with assms moveSnake_move [OF sn nh_def] show ?thesis by (auto simp: sn nh_def)
  next
    case bonus
    with assms moveSnake_bonus [OF sn nh_def] show ?thesis by (auto simp: sn nh_def)
  next
    case food
    define g1 where "g1 = (if bonusFood g = Some nh then g\<lparr>score := score g + 10, bonusFood := None\<rparr> else g)"
    from assms moveSnake_food [OF sn nh_def food] obtain g2 where
      g2: "eatFood rnd (growTo nh (snake g)) g g1 = Some g2" and g': "g' = g2\<lparr>snake := growTo nh (snake g)\<rparr>"
      by (auto simp: g1_def)
    from eatFood_Some [OF g2] obtain f b c where
      "g2 = g1\<lparr>score := score g1 + 1, food := f, randCalls := c, bonusFood := b,
             speedRef := rampSpeed (gameMode g) (speedRef g1)\<rparr>"
      by blast
    with g' show ?thesis by (auto simp: g1_def sn nh_def)
  qed
qed

text \<open>When a bonus existed at the start of the tick, eating food draws no bonus.\<close>

lemma eatFood_with_bonus:
  "bonusFood old \<noteq> None \<Longrightarrow>
   eatFood rnd ns old g =
     map_option (\<lambda>(f, c). g\<lparr>score := score g + 1, food := f, randCalls := c,
                           speedRef := rampSpeed (gameMode old) (speedRef g)\<rparr>)
       (generateFood rnd ns (randCalls g))"
  by (auto simp: eatFood_def spawnBonus_def split: option.splits)

text \<open>C12: in unlimited mode each eaten food lowers the tick interval by 2 ms down
  to the floor of 50 ms, so \<open>n\<close> meals from \<open>s \<ge> 50\<close> give \<open>max 50 (s - 2n)\<close>; in
  timed mode the interval never changes.\<close>

theorem rampSpeed_iterate:
  assumes "50 \<le> s"
  shows "(rampSpeed UNLIMITED ^^ n) s = max 50 (s - 2 * int n) \<and> (rampSpeed TIMED ^^ n) s = s"
proof (induction n)
  case 0
  then show ?case using assms by simp
next
  case (Suc n)
  then show ?case by (simp add: rampSpeed_def)
qed

theorem rampSpeed_iterate_witness:
  "50 \<le> (90::int) \<and> (rampSpeed UNLIMITED ^^ 20) 90 = 50 \<and> (rampSpeed UNLIMITED ^^ 25) 90 = 50 \<and>
   (rampSpeed TIMED ^^ 20) 90 = 90"
  using rampSpeed_iterate [of 90 20] rampSpeed_iterate [of 90 25] by simp

end
