(* ===== verification/Clock.thy ===== *)
theory Clock
  imports Engine
begin

text \<open>
  The effects of \<open>useSnakeGame\<close> that arm the timers: the game loop
  (\<open>setInterval(moveSnake, speedRef.current)\<close>, armed while playing and not
  paused), the one-second countdown of timed mode, and the five-second bonus
  timer (armed whenever a bonus exists).  Time itself is not modelled: a
  timer is a callback that may fire while its effect is armed, and the
  callback of the countdown is \<open>countdownTick\<close>.  The lemmas show that the
  countdown ends the game on its \<open>t\<close>-th firing from \<open>t\<close> seconds and not
  before, that pausing disarms both game timers and resuming restores the
  state unchanged, and that the bonus timer ignores the pause.
\<close>

section \<open>Definitions\<close>

text \<open>The updater passed to \<open>setTimeLeft\<close> by the countdown interval.\<close>

definition countdownTick :: "Game \<Rightarrow> Game" where
  "countdownTick g =
     (if timeLeft g \<le> 1 then (handleGameOver g)\<lparr>timeLeft := 0\<rparr>
      else g\<lparr>timeLeft := timeLeft g - 1\<rparr>)"

text \<open>The callback of the bonus timer: \<open>setBonusFood(null)\<close>.\<close>

definition bonusTimeout :: "Game \<Rightarrow> Game" where
  "bonusTimeout g = g\<lparr>bonusFood := None\<rparr>"

text \<open>The guards of the three effects.\<close>

definition gameLoopActive :: "Game \<Rightarrow> bool" where
  "gameLoopActive g \<longleftrightarrow> \<not> (gameState g \<noteq> PLAYING \<or> isPaused g)"

definition timerActive :: "Game \<Rightarrow> bool" where
  "timerActive g \<longleftrightarrow> gameState g = PLAYING \<and> gameMode g = TIMED \<and> \<not> isPaused g"

definition bonusTimerActive :: "Game \<Rightarrow> bool" where
  "bonusTimerActive g \<longleftrightarrow> bonusFood g \<noteq> None"

section \<open>Lemmas\<close>

lemma wfGame_countdownTick: "wfGame g \<Longrightarrow> wfGame (countdownTick g)"
  by (auto simp: wfGame_def countdownTick_def handleGameOver_def)

lemma wfGame_bonusTimeout: "wfGame g \<Longrightarrow> wfGame (bonusTimeout g)"
  by (simp add: wfGame_def bonusTimeout_def bonusOk_def)

text \<open>Before the last second, a firing only decrements the counter.\<close>

lemma countdownTick_iterate:
  "k < t \<Longrightarrow> timeLeft g = t \<Longrightarrow> (countdownTick ^^ k) g = g\<lparr>timeLeft := t - int k\<rparr>"
proof (induction k)
  case 0
  then show ?case by simp
next
  case (Suc k)
  then have ih: "(countdownTick ^^ k) g = g\<lparr>timeLeft := t - int k\<rparr>" by simp
  have "(countdownTick ^^ Suc k) g = countdownTick ((countdownTick ^^ k) g)" by simp
  also have "\<dots> = countdownTick (g\<lparr>timeLeft := t - int k\<rparr>)" by (simp only: ih)
  also have "\<dots> = g\<lparr>timeLeft := t - int (Suc k)\<rparr>"
    using Suc.prems by (simp add: countdownTick_def)
  finally show ?case .
qed

lemma togglePause_twice [simp]: "togglePause (togglePause g) = g"
  by (simp add: togglePause_def)

lemma handleGameOver_timeLeft [simp]:
  "handleGameOver (g\<lparr>timeLeft := t\<rparr>) = (handleGameOver g)\<lparr>timeLeft := t\<rparr>"
  by (simp add: handleGameOver_def)

text \<open>C11: from \<open>t \<ge> 1\<close> seconds left, the countdown keeps its timer armed for
  \<open>t - 1\<close> firings, and the \<open>t\<close>-th firing ends the game with no time left and
  the score recorded in the high score.\<close>

theorem countdown_ends_game:
  assumes "timerActive g" and "timeLeft g = t" and "1 \<le> t"
  shows "(\<forall>k < nat t. timerActive ((countdownTick ^^ k) g)) \<and>
         (countdownTick ^^ nat t) g = (handleGameOver g)\<lparr>timeLeft := 0\<rparr>"
proof
  show "\<forall>k < nat t. timerActive ((countdownTick ^^ k) g)"
  proof (intro allI impI)
    fix k
    assume "k < nat t"
    then have "(countdownTick ^^ k) g = g\<lparr>timeLeft := t - int k\<rparr>"
      using assms(2) by (intro countdownTick_iterate) simp_all
    with assms(1) show "timerActive ((countdownTick ^^ k) g)"
      by (simp add: timerActive_def)
  qed
next
  obtain m where m: "nat t = Suc m" using assms(3) by (cases "nat t") auto
  then have "(countdownTick ^^ m) g = g\<lparr>timeLeft := t - int m\<rparr>"
    using assms(2) by (intro countdownTick_iterate) simp_all
  moreover have "t - int m = 1" using m assms(3) by simp
  ultimately show "(countdownTick ^^ nat t) g = (handleGameOver g)\<lparr>timeLeft := 0\<rparr>"
    by (simp add: m countdownTick_def)
qed

theorem countdown_ends_game_witness:
  "timerActive (initialGame\<lparr>gameState := PLAYING, gameMode := TIMED, score := 7\<rparr>) \<and>
   (countdownTick ^^ 60) (initialGame\<lparr>gameState := PLAYING, gameMode := TIMED, score := 7\<rparr>) =
     initialGame\<lparr>gameState := GAME_OVER, gameMode := TIMED, score := 7, highScore := 7,
                 timeLeft := 0\<rparr>"
proof -
  let ?g = "initialGame\<lparr>gameState := PLAYING, gameMode := TIMED, score := 7\<rparr>"
  have a: "timerActive ?g" by (simp add: timerActive_def initialGame_def)
  have t: "timeLeft ?g = 60" by (simp add: initialGame_def TIMED_DURATION_def)
  show ?thesis
    using a countdown_ends_game [OF a t] by (simp add: handleGameOver_def initialGame_def)
qed

text \<open>C13: pausing a running game disarms the game loop and the countdown, and
  resuming gives back exactly the paused state: no field is reset, so the
  countdown and the tick interval continue from their values.\<close>

theorem pause_resume:
  assumes "gameLoopActive g"
  shows "\<not> gameLoopActive (togglePause g) \<and> \<not> timerActive (togglePause g) \<and>
         togglePause (togglePause g) = g \<and> gameLoopActive (togglePause (togglePause g))"
  using assms by (simp add: gameLoopActive_def timerActive_def togglePause_def)

theorem pause_resume_witness:
  "gameLoopActive (initialGame\<lparr>gameState := PLAYING\<rparr>) \<and>
   \<not> gameLoopActive (togglePause (initialGame\<lparr>gameState := PLAYING\<rparr>))"
proof -
  have a: "gameLoopActive (initialGame\<lparr>gameState := PLAYING\<rparr>)"
    by (simp add: gameLoopActive_def initialGame_def)
  show ?thesis using a pause_resume [OF a] by simp
qed

text \<open>C19: the bonus timer is armed by the bonus alone: it stays armed while the
  game is paused (and after it ends), so a bonus can expire during a pause.\<close>

theorem bonus_timer_ignores_pause:
  assumes "bonusTimerActive g"
  shows "bonusTimerActive (togglePause g) \<and> bonusTimerActive (handleGameOver g)"
  using assms by (simp add: bonusTimerActive_def togglePause_def handleGameOver_def)

theorem bonus_timer_ignores_pause_witness:
  "bonusTimerActive (initialGame\<lparr>bonusFood := Some \<lparr>px = 3, py = 4\<rparr>\<rparr>) \<and>
   isPaused (togglePause (initialGame\<lparr>bonusFood := Some \<lparr>px = 3, py = 4\<rparr>\<rparr>)) \<and>
   bonusTimerActive (togglePause (initialGame\<lparr>bonusFood := Some \<lparr>px = 3, py = 4\<rparr>\<rparr>))"
proof -
  have a: "bonusTimerActive (initialGame\<lparr>bonusFood := Some \<lparr>px = 3, py = 4\<rparr>\<rparr>)"
    by (simp add: bonusTimerActive_def)
  show ?thesis
    using a bonus_timer_ignores_pause [OF a] by (simp add: togglePause_def initialGame_def)
qed

end
