(* ===== verification/Ui.thy ===== *)
theory Ui
  imports Clock
begin

text \<open>
  The component \<open>src/components/SnakeGame.tsx\<close> and the listeners of the hook
  as one event-driven machine.  An \<open>Event\<close> is a callback that can run: a timer
  firing, a key press, or a click on a button the component renders.  The
  buttons are rendered only in some game states (difficulty and mode buttons in
  the menu, \<open>Try Again\<close> and \<open>Change Mode\<close> on the game-over screen, the pause
  button and the touch arrows while playing), and the timers only while their
  effects are armed; \<open>enabled\<close> collects these guards.  \<open>step\<close> runs the
  handler of an event.  \<open>reachable rnd\<close> is the set of states a session can
  reach from the hook's initial state with the random values \<open>rnd\<close>.
\<close>

section \<open>Definitions\<close>

datatype Event =
    Tick
  | Second
  | BonusTimeout
  | KeyDown string
  | TouchDir Dir
  | PickDifficulty Difficulty
  | ChooseMode GameMode
  | TryAgain
  | ChangeMode
  | PauseButton

fun enabled :: "Game \<Rightarrow> Event \<Rightarrow> bool" where
  "enabled g Tick = gameLoopActive g"
| "enabled g Second = timerActive g"
| "enabled g BonusTimeout = bonusTimerActive g"
| "enabled g (KeyDown key) = True"
| "enabled g (TouchDir r) = (gameState g = PLAYING)"
| "enabled g (PickDifficulty d) = (gameState g = MENU)"
| "enabled g (ChooseMode m) = (gameState g = MENU)"
| "enabled g TryAgain = (gameState g = GAME_OVER)"
| "enabled g ChangeMode = (gameState g = GAME_OVER)"
| "enabled g PauseButton = (gameState g = PLAYING)"

fun step :: "rng \<Rightarrow> Game \<Rightarrow> Event \<Rightarrow> (js_error + Game) option" where
  "step rnd g Tick = moveSnake rnd g"
| "step rnd g Second = Some (Inr (countdownTick g))"
| "step rnd g BonusTimeout = Some (Inr (bonusTimeout g))"
| "step rnd g (KeyDown key) =
     Some (Inr (case keyToDir key of None \<Rightarrow> g | Some r \<Rightarrow> changeDirection r g))"
| "step rnd g (TouchDir r) = Some (Inr (changeDirection r g))"
| "step rnd g (PickDifficulty d) = Some (Inr (g\<lparr>difficulty := d\<rparr>))"
| "step rnd g (ChooseMode m) = map_option Inr (resetGame rnd m g)"
| "step rnd g TryAgain = map_option Inr (resetGame rnd (gameMode g) g)"
| "step rnd g ChangeMode = Some (Inr (g\<lparr>gameState := MENU\<rparr>))"
| "step rnd g PauseButton = Some (Inr (togglePause g))"

inductive reachable :: "rng \<Rightarrow> Game \<Rightarrow> bool" for rnd where
  init: "reachable rnd initialGame"
| run: "reachable rnd g \<Longrightarrow> enabled g e \<Longrightarrow> step rnd g e = Some (Inr g') \<Longrightarrow> reachable rnd g'"

text \<open>Timed mode keeps the interval \<open>resetGame\<close> read from \<open>SPEEDS\<close>.\<close>

definition timedSpeedOk :: "Game \<Rightarrow> bool" where
  "timedSpeedOk g \<longleftrightarrow> (gameMode g = TIMED \<longrightarrow> speedRef g \<in> set (map SPEEDS [EASY, MEDIUM, HARD]))"

section \<open>Lemmas\<close>

lemma wfGame_initialGame: "wfGame initialGame"
  by (simp add: wfGame_def initialGame_def snakeOk_def inBounds_def GRID_SIZE_def
      bonusOk_def isDirection_def TIMED_DURATION_def)

text \<open>One enabled event keeps the invariant.\<close>

lemma wfGame_step:
  assumes "validRng rnd" "wfGame g" "enabled g e" "step rnd g e = Some (Inr g')"
  shows "wfGame g'"
  using assms
proof (cases e)
  case Tick
  with assms show ?thesis
    by (auto intro: wfGame_moveSnake simp: gameLoopActive_def)
next
  case (ChooseMode m)
  with assms show ?thesis by (auto intro: wfGame_resetGame)
next
  case TryAgain
  with assms show ?thesis by (auto intro: wfGame_resetGame)
next
  case (KeyDown key)
  with assms show ?thesis by (auto simp: wfGame_changeDirection split: option.splits)
next
  case (PickDifficulty d)
  with assms show ?thesis by (auto simp: wfGame_def)
next
  case ChangeMode
  with assms show ?thesis by (auto simp: wfGame_def)
qed (auto intro: wfGame_countdownTick wfGame_bonusTimeout wfGame_changeDirection
       wfGame_togglePause)

text \<open>The invariant holds in every reachable state, by rule induction.\<close>

lemma wfGame_reachable:
  assumes "validRng rnd" and "reachable rnd g"
  shows "wfGame g"
  using assms(2)
proof (induction rule: reachable.induct)
  case init
  show ?case by (rule wfGame_initialGame)
next
  case (run g e g')
  then show ?case using assms(1) by (blast intro: wfGame_step)
qed

text \<open>Reading the head of the snake never fails in a reachable state.\<close>

lemma step_not_error:
  assumes "snake g \<noteq> []"
  shows "step rnd g e \<noteq> Some (Inl err)"
proof (cases e)
  case Tick
  with assms obtain h t where "snake g = h # t" by (cases "snake g") auto
  with Tick show ?thesis
    by (auto simp: moveSnake_def Let_def map_option_case split: option.splits)
qed (auto simp: map_option_case split: option.splits)

text \<open>The high score never decreases: the only handler that writes it is
  \<open>handleGameOver\<close>, which keeps the larger value.\<close>

lemma highScore_handleGameOver: "highScore g \<le> highScore (handleGameOver g)"
  by (simp add: handleGameOver_def)

lemma highScore_moveSnake:
  assumes "moveSnake rnd g = Some (Inr g')"
  shows "highScore g \<le> highScore g'"
  using moveSnake_Inr_cases [OF assms] by (auto simp: highScore_handleGameOver)

lemma highScore_resetGame: "resetGame rnd m g = Some g' \<Longrightarrow> highScore g' = highScore g"
  by (auto simp: resetGame_def split: option.splits)

lemma highScore_step: "step rnd g e = Some (Inr g') \<Longrightarrow> highScore g \<le> highScore g'"
  by (cases e)
    (auto simp: highScore_moveSnake countdownTick_def bonusTimeout_def changeDirection_def
       togglePause_def handleGameOver_def dest: highScore_resetGame split: option.splits)

text \<open>A short session used by the witnesses below: start an unlimited game, then
  one tick.  With every random value \<open>1/4\<close> the food is drawn at \<open>(5, 5)\<close>.\<close>

lemma session_reset:
  "step (\<lambda>_. 1 / 4) initialGame (ChooseMode UNLIMITED) =
     Some (Inr (initialGame\<lparr>gameState := PLAYING, food := \<lparr>px = 5, py = 5\<rparr>, randCalls := 2\<rparr>))"
  by (simp add: resetGame_def generateFood_unfold drawPoint_def randomCoord_def GRID_SIZE_def
      initialGame_def TIMED_DURATION_def)

lemma session_tick:
  "step (\<lambda>_. 1 / 4) (initialGame\<lparr>gameState := PLAYING, food := \<lparr>px = 5, py = 5\<rparr>, randCalls := 2\<rparr>) Tick =
     Some (Inr (initialGame\<lparr>gameState := PLAYING, food := \<lparr>px = 5, py = 5\<rparr>, randCalls := 2,
                             snake := [\<lparr>px = 11, py = 10\<rparr>]\<rparr>))"
  by (simp add: moveSnake_def initialGame_def advance_def wallCollision_def GRID_SIZE_def
      moveTo_def growTo_def)

lemma session_reachable:
  "reachable (\<lambda>_. 1 / 4) (initialGame\<lparr>gameState := PLAYING, food := \<lparr>px = 5, py = 5\<rparr>, randCalls := 2,
                                        snake := [\<lparr>px = 11, py = 10\<rparr>]\<rparr>)"
proof -
  have r1: "reachable (\<lambda>_. 1 / 4)
      (initialGame\<lparr>gameState := PLAYING, food := \<lparr>px = 5, py = 5\<rparr>, randCalls := 2\<rparr>)"
    by (rule reachable.run [OF reachable.init _ session_reset]) (simp add: initialGame_def)
  show ?thesis
    by (rule reachable.run [OF r1 _ session_tick]) (simp add: gameLoopActive_def initialGame_def)
qed

lemma validRng_quarter: "validRng (\<lambda>_. 1 / 4)"
  by (simp add: validRng_def)

text \<open>C1: every state a session reaches satisfies the invariant \<open>wfGame\<close>: the
  snake is a non-empty, duplicate-free chain of adjacent cells inside the grid,
  the food and the bonus are inside the grid and off the snake, the direction is
  a unit vector, the tick interval stays in \<open>[50, 200]\<close>, the countdown in
  \<open>[0, 60]\<close>, the score is at least the length of the snake minus one, and a
  finished game's score is recorded in the high score.\<close>

theorem reachable_wfGame:
  assumes "validRng rnd" and "reachable rnd g"
  shows "wfGame g"
  using assms by (rule wfGame_reachable)

theorem reachable_wfGame_witness:
  "validRng (\<lambda>_. 1 / 4) \<and>
   reachable (\<lambda>_. 1 / 4) (initialGame\<lparr>gameState := PLAYING, food := \<lparr>px = 5, py = 5\<rparr>,
                                      randCalls := 2, snake := [\<lparr>px = 11, py = 10\<rparr>]\<rparr>) \<and>
   wfGame (initialGame\<lparr>gameState := PLAYING, food := \<lparr>px = 5, py = 5\<rparr>, randCalls := 2,
                       snake := [\<lparr>px = 11, py = 10\<rparr>]\<rparr>)"
  using validRng_quarter session_reachable reachable_wfGame [OF validRng_quarter session_reachable]
  by simp

text \<open>C14: no event lowers the high score.\<close>

theorem step_highScore_mono:
  assumes "step rnd g e = Some (Inr g')"
  shows "highScore g \<le> highScore g'"
  using assms by (rule highScore_step)

theorem step_highScore_mono_witness:
  "step (\<lambda>_. 1 / 4) initialGame (ChooseMode UNLIMITED) =
     Some (Inr (initialGame\<lparr>gameState := PLAYING, food := \<lparr>px = 5, py = 5\<rparr>, randCalls := 2\<rparr>)) \<and>
   highScore initialGame \<le>
     highScore (initialGame\<lparr>gameState := PLAYING, food := \<lparr>px = 5, py = 5\<rparr>, randCalls := 2\<rparr>)"
  using session_reset step_highScore_mono [OF session_reset] by simp

text \<open>C15: in a reachable state no event makes the hook throw: the read of
  \<open>prevSnake[0]\<close> always finds a head.\<close>

theorem reachable_no_type_error:
  assumes "validRng rnd" and "reachable rnd g"
  shows "step rnd g e \<noteq> Some (Inl err)"
proof -
  have "wfGame g" using assms by (rule wfGame_reachable)
  then have "snake g \<noteq> []" by (simp add: wfGame_def snakeOk_def)
  then show ?thesis by (rule step_not_error)
qed

theorem reachable_no_type_error_witness:
  "validRng (\<lambda>_. 1 / 4) \<and>
   reachable (\<lambda>_. 1 / 4) (initialGame\<lparr>gameState := PLAYING, food := \<lparr>px = 5, py = 5\<rparr>,
                                      randCalls := 2, snake := [\<lparr>px = 11, py = 10\<rparr>]\<rparr>) \<and>
   step (\<lambda>_. 1 / 4) (initialGame\<lparr>gameState := PLAYING, food := \<lparr>px = 5, py = 5\<rparr>,
                                randCalls := 2, snake := [\<lparr>px = 11, py = 10\<rparr>]\<rparr>) Tick
     \<noteq> Some (Inl TypeError)"
  using validRng_quarter session_reachable
    reachable_no_type_error [OF validRng_quarter session_reachable, of Tick TypeError]
  by simp

text \<open>A tick keeps the mode and either keeps the interval or ramps it.\<close>

lemma moveSnake_speed:
  assumes "moveSnake rnd g = Some (Inr g')"
  shows "gameMode g' = gameMode g \<and>
         (speedRef g' = speedRef g \<or> speedRef g' = rampSpeed (gameMode g) (speedRef g))"
  using moveSnake_Inr_cases [OF assms] by (auto simp: handleGameOver_def)

lemma timedSpeedOk_step:
  assumes "timedSpeedOk g" and "step rnd g e = Some (Inr g')"
  shows "timedSpeedOk g'"
proof (cases e)
  case Tick
  with assms moveSnake_speed [of rnd g g'] show ?thesis
    by (auto simp: timedSpeedOk_def rampSpeed_def)
next
  case (ChooseMode m)
  with assms show ?thesis
    by (cases "difficulty g") (auto simp: timedSpeedOk_def resetGame_def split: option.splits)
next
  case TryAgain
  with assms show ?thesis
    by (cases "difficulty g") (auto simp: timedSpeedOk_def resetGame_def split: option.splits)
qed (use assms in \<open>auto simp: timedSpeedOk_def countdownTick_def handleGameOver_def bonusTimeout_def
       changeDirection_def togglePause_def split: option.splits if_splits\<close>)

text \<open>C24: in every reachable state of timed mode the tick interval is the
  one of a difficulty, 200, 140 or 90 ms: timed mode never ramps the speed.\<close>

theorem reachable_timed_speed:
  assumes "reachable rnd g" and "gameMode g = TIMED"
  shows "speedRef g \<in> {200, 140, 90}"
proof -
  have "timedSpeedOk g"
    using assms(1)
  proof (induction rule: reachable.induct)
    case init
    show ?case by (simp add: timedSpeedOk_def initialGame_def)
  next
    case (run g e g')
    then show ?case by (blast intro: timedSpeedOk_step)
  qed
  with assms(2) show ?thesis by (auto simp: timedSpeedOk_def)
qed

theorem reachable_timed_speed_witness:
  "reachable (\<lambda>_. 1 / 4) (initialGame\<lparr>gameState := PLAYING, gameMode := TIMED,
      food := \<lparr>px = 5, py = 5\<rparr>, randCalls := 2\<rparr>) \<and>
   speedRef (initialGame\<lparr>gameState := PLAYING, gameMode := TIMED,
      food := \<lparr>px = 5, py = 5\<rparr>, randCalls := 2\<rparr>) \<in> {200, 140, 90}"
proof -
  let ?g = "initialGame\<lparr>gameState := PLAYING, gameMode := TIMED, food := \<lparr>px = 5, py = 5\<rparr>,
      randCalls := 2\<rparr>"
  have s: "step (\<lambda>_. 1 / 4) initialGame (ChooseMode TIMED) = Some (Inr ?g)"
    by (simp add: resetGame_def generateFood_unfold drawPoint_def randomCoord_def GRID_SIZE_def
        initialGame_def TIMED_DURATION_def)
  have r: "reachable (\<lambda>_. 1 / 4) ?g"
    by (rule reachable.run [OF reachable.init _ s]) (simp add: initialGame_def)
  have "gameMode ?g = TIMED" by simp
  with r show ?thesis using reachable_timed_speed [OF r] by simp
qed

text \<open>C26: the direction fields keep their type under every event: when
  \<open>directionRef\<close> is one of the four unit vectors and the \<open>direction\<close> state
  mirrors it, the same holds after any handler.\<close>

theorem step_keeps_direction_type:
  assumes "isDirection (directionRef g)" and "direction g = directionRef g"
    and "step rnd g e = Some (Inr g')"
  shows "isDirection (directionRef g') \<and> direction g' = directionRef g'"
proof (cases e)
  case Tick
  with assms moveSnake_Inr_cases [of rnd g g'] show ?thesis
    by (auto simp: handleGameOver_def)
next
  case (ChooseMode m)
  with assms show ?thesis
    by (auto simp: resetGame_def isDirection_def split: option.splits)
next
  case TryAgain
  with assms show ?thesis
    by (auto simp: resetGame_def isDirection_def split: option.splits)
qed (use assms in \<open>auto simp: countdownTick_def handleGameOver_def bonusTimeout_def
       changeDirection_def togglePause_def dest: handleDirection_Some split: option.splits if_splits\<close>)

theorem step_keeps_direction_type_witness:
  "isDirection (directionRef initialGame) \<and> direction initialGame = directionRef initialGame \<and>
   step (\<lambda>_. 1 / 4) initialGame (KeyDown ''ArrowUp'') =
     Some (Inr (initialGame\<lparr>directionRef := \<lparr>px = 0, py = -1\<rparr>, direction := \<lparr>px = 0, py = -1\<rparr>\<rparr>)) \<and>
   isDirection \<lparr>px = 0, py = -1\<rparr>"
proof -
  have d: "isDirection (directionRef initialGame)" "direction initialGame = directionRef initialGame"
    by (simp_all add: initialGame_def isDirection_def)
  have s: "step (\<lambda>_. 1 / 4) initialGame (KeyDown ''ArrowUp'') =
     Some (Inr (initialGame\<lparr>directionRef := \<lparr>px = 0, py = -1\<rparr>, direction := \<lparr>px = 0, py = -1\<rparr>\<rparr>))"
    by (simp add: keyToDir_def changeDirection_def initialGame_def)
  show ?thesis using d s step_keeps_direction_type [OF d s] by simp
qed

end
