(* ===== verification/AbstractGame.thy ===== *)
theory AbstractGame
  imports Engine
begin

text \<open>
  The per-tick algorithm of the specification as an abstract, nondeterministic
  step on the part of the state a tick is about: the snake, the food, the bonus,
  the score, the high score and whether the game is over.  Food and bonus
  placement are left open (any free cell in the grid), the 20\% chance is a
  choice between two rules, and when the head reaches the bonus the bonus rule
  applies whether or not the food is on the same cell, as the specification
  resolves that case.  \<open>absGame\<close> reads this abstract state off the hook's
  state; the refinement lemma shows that a tick of \<open>moveSnake\<close> is a step of
  \<open>specTick\<close> except when food and bonus share the new head's cell.
\<close>

section \<open>Definitions\<close>

record AbsGame =
  aSnake :: "Point list"
  aFood :: Point
  aBonus :: "Point option"
  aScore :: int
  aHigh :: int
  aOver :: bool

definition absGame :: "Game \<Rightarrow> AbsGame" where
  "absGame g =
     \<lparr>aSnake = snake g, aFood = food g, aBonus = bonusFood g, aScore = score g,
      aHigh = highScore g, aOver = (gameState g = GAME_OVER)\<rparr>"

inductive specTick :: "Point \<Rightarrow> AbsGame \<Rightarrow> AbsGame \<Rightarrow> bool" for d where
  wall: "aSnake s = h # t \<Longrightarrow> \<not> inBounds (advance h d) \<Longrightarrow>
     specTick d s (s\<lparr>aOver := True, aHigh := max (aHigh s) (aScore s)\<rparr>)"
| self: "aSnake s = h # t \<Longrightarrow> inBounds (advance h d) \<Longrightarrow> advance h d \<in> set (aSnake s) \<Longrightarrow>
     specTick d s (s\<lparr>aOver := True, aHigh := max (aHigh s) (aScore s)\<rparr>)"
| bonus: "aSnake s = h # t \<Longrightarrow> nh = advance h d \<Longrightarrow> inBounds nh \<Longrightarrow> nh \<notin> set (aSnake s) \<Longrightarrow>
     aBonus s = Some nh \<Longrightarrow>
     specTick d s (s\<lparr>aScore := aScore s + 10, aBonus := None, aSnake := nh # aSnake s\<rparr>)"
| food: "aSnake s = h # t \<Longrightarrow> nh = advance h d \<Longrightarrow> inBounds nh \<Longrightarrow> nh \<notin> set (aSnake s) \<Longrightarrow>
     aBonus s \<noteq> Some nh \<Longrightarrow> nh = aFood s \<Longrightarrow> f \<notin> set (nh # aSnake s) \<Longrightarrow> inBounds f \<Longrightarrow>
     specTick d s (s\<lparr>aScore := aScore s + 1, aFood := f, aSnake := nh # aSnake s\<rparr>)"
| food_spawn: "aSnake s = h # t \<Longrightarrow> nh = advance h d \<Longrightarrow> inBounds nh \<Longrightarrow> nh \<notin> set (aSnake s) \<Longrightarrow>
     aBonus s = None \<Longrightarrow> nh = aFood s \<Longrightarrow> f \<notin> set (nh # aSnake s) \<Longrightarrow> inBounds f \<Longrightarrow>
     b \<notin> set (nh # aSnake s) \<Longrightarrow> inBounds b \<Longrightarrow>
     specTick d s (s\<lparr>aScore := aScore s + 1, aFood := f, aBonus := Some b, aSnake := nh # aSnake s\<rparr>)"
| move: "aSnake s = h # t \<Longrightarrow> nh = advance h d \<Longrightarrow> inBounds nh \<Longrightarrow> nh \<notin> set (aSnake s) \<Longrightarrow>
     aBonus s \<noteq> Some nh \<Longrightarrow> nh \<noteq> aFood s \<Longrightarrow>
     specTick d s (s\<lparr>aSnake := nh # butlast (aSnake s)\<rparr>)"

section \<open>Lemmas\<close>

text \<open>What the bonus spawn leaves behind: the bonus it found, or a fresh one
  drawn off the snake when there was none.\<close>

lemma spawnBonus_result:
  assumes "spawnBonus rnd ns ob g = Some g'"
  shows "\<exists>c. g' = g\<lparr>randCalls := c\<rparr> \<or>
           (ob = None \<and> (\<exists>b. g' = g\<lparr>bonusFood := Some b, randCalls := c\<rparr> \<and> b \<notin> set ns \<and>
              (validRng rnd \<longrightarrow> inBounds b)))"
proof (cases "ob = None \<and> rnd (randCalls g) > 4 / 5")
  case True
  then obtain b c where gen: "generateFood rnd ns (Suc (randCalls g)) = Some (b, c)"
    and g': "g' = g\<lparr>bonusFood := Some b, randCalls := c\<rparr>"
    using assms by (auto simp: spawnBonus_def split: option.splits)
  have "b \<notin> set ns" "validRng rnd \<longrightarrow> inBounds b"
    using generateFood_sound [OF gen] drawPoint_inBounds by auto
  with g' True show ?thesis by blast
next
  case False
  then have "g' = g\<lparr>randCalls := (if ob = None then Suc (randCalls g) else randCalls g)\<rparr>"
    using assms by (auto simp: spawnBonus_def split: if_splits)
  then show ?thesis by blast
qed

lemma absGame_sel [simp]:
  "aSnake (absGame g) = snake g" "aFood (absGame g) = food g" "aBonus (absGame g) = bonusFood g"
  "aScore (absGame g) = score g" "aHigh (absGame g) = highScore g"
  "aOver (absGame g) \<longleftrightarrow> gameState g = GAME_OVER"
  by (simp_all add: absGame_def)

text \<open>A tick that ends the game is the abstract game-over step.\<close>

lemma absGame_handleGameOver:
  "absGame (handleGameOver g) = (absGame g)\<lparr>aOver := True, aHigh := max (highScore g) (score g)\<rparr>"
  by (simp add: absGame_def handleGameOver_def max_def)

text \<open>What the food branch leaves behind: new free food, the score plus one,
  the speed ramp, and the old bonus or, when there was none, possibly a fresh one.\<close>

lemma eatFood_result:
  assumes "eatFood rnd ns old g = Some g'"
  shows "\<exists>f c. f \<notin> set ns \<and> (validRng rnd \<longrightarrow> inBounds f) \<and>
           (g' = g\<lparr>score := score g + 1, food := f, randCalls := c,
                   speedRef := rampSpeed (gameMode old) (speedRef g)\<rparr> \<or>
            (bonusFood old = None \<and>
             (\<exists>b. b \<notin> set ns \<and> (validRng rnd \<longrightarrow> inBounds b) \<and>
                  g' = g\<lparr>score := score g + 1, food := f, randCalls := c, bonusFood := Some b,
                         speedRef := rampSpeed (gameMode old) (speedRef g)\<rparr>)))"
proof -
  obtain f c z where gen: "generateFood rnd ns (randCalls g) = Some (f, c)"
    and sp: "spawnBonus rnd ns (bonusFood old) (g\<lparr>score := score g + 1, food := f, randCalls := c\<rparr>)
               = Some z"
    and g': "g' = z\<lparr>speedRef := rampSpeed (gameMode old) (speedRef z)\<rparr>"
    using assms by (auto simp: eatFood_def split: option.splits)
  have free: "f \<notin> set ns" "validRng rnd \<longrightarrow> inBounds f"
    using generateFood_sound [OF gen] drawPoint_inBounds by auto
  let ?z0 = "g\<lparr>score := score g + 1, food := f, randCalls := c\<rparr>"
  from spawnBonus_result [OF sp] obtain c' where
    "z = ?z0\<lparr>randCalls := c'\<rparr> \<or>
     (bonusFood old = None \<and> (\<exists>b. z = ?z0\<lparr>bonusFood := Some b, randCalls := c'\<rparr> \<and> b \<notin> set ns \<and>
        (validRng rnd \<longrightarrow> inBounds b)))"
    by blast
  then show ?thesis
  proof (elim disjE conjE exE)
    assume "z = ?z0\<lparr>randCalls := c'\<rparr>"
    then have "g' = g\<lparr>score := score g + 1, food := f, randCalls := c',
                   speedRef := rampSpeed (gameMode old) (speedRef g)\<rparr>"
      using g' by simp
    with free show ?thesis by blast
  next
    fix b
    assume "bonusFood old = None" and "z = ?z0\<lparr>bonusFood := Some b, randCalls := c'\<rparr>"
      and "b \<notin> set ns" and "validRng rnd \<longrightarrow> inBounds b"
    moreover from this(2) have "g' = g\<lparr>score := score g + 1, food := f, randCalls := c',
        bonusFood := Some b, speedRef := rampSpeed (gameMode old) (speedRef g)\<rparr>"
      using g' by simp
    ultimately show ?thesis using free by blast
  qed
qed

text \<open>The refinement: away from the one case where the specification and the
  code disagree (food and bonus on the new head's cell), every tick of
  \<open>moveSnake\<close> that returns is a step of \<open>specTick\<close> on the abstract state.\<close>

lemma moveSnake_refines:
  assumes rng: "validRng rnd" and step: "moveSnake rnd g = Some (Inr g')"
    and notboth: "\<not> (advance (hd (snake g)) (directionRef g) = food g \<and> bonusFood g = Some (food g))"
  shows "specTick (directionRef g) (absGame g) (absGame g')"
proof -
  obtain h t where sn: "snake g = h # t"
    using step by (cases "snake g") (auto simp: moveSnake_def)
  define nh where "nh = advance h (directionRef g)"
  have asn: "aSnake (absGame g) = h # t" using sn by (simp add: absGame_def)
  consider (wall) "wallCollision nh" | (self) "\<not> wallCollision nh" "nh \<in> set (snake g)"
    | (food) "\<not> wallCollision nh" "nh \<notin> set (snake g)" "nh = food g"
    | (bonus) "\<not> wallCollision nh" "nh \<notin> set (snake g)" "nh \<noteq> food g" "bonusFood g = Some nh"
    | (move) "\<not> wallCollision nh" "nh \<notin> set (snake g)" "nh \<noteq> food g" "bonusFood g \<noteq> Some nh"
    by blast
  then show ?thesis
  proof cases
    case wall
    with step moveSnake_wall [OF sn] have "g' = handleGameOver g" by (simp add: nh_def)
    moreover have "specTick (directionRef g) (absGame g)
        ((absGame g)\<lparr>aOver := True, aHigh := max (aHigh (absGame g)) (aScore (absGame g))\<rparr>)"
      using asn wall by (intro specTick.wall) (simp_all add: nh_def wallCollision_iff)
    ultimately show ?thesis by (simp add: absGame_handleGameOver)
  next
    case self
    with step moveSnake_self [OF sn] have "g' = handleGameOver g" by (simp add: nh_def)
    moreover have "specTick (directionRef g) (absGame g)
        ((absGame g)\<lparr>aOver := True, aHigh := max (aHigh (absGame g)) (aScore (absGame g))\<rparr>)"
      using asn self by (intro specTick.self) (simp_all add: nh_def wallCollision_iff absGame_def)
    ultimately show ?thesis by (simp add: absGame_handleGameOver)
  next
    case move
    with step moveSnake_move [OF sn nh_def] have "g' = g\<lparr>snake := moveTo nh (snake g)\<rparr>" by simp
    then have "absGame g' = (absGame g)\<lparr>aSnake := nh # butlast (aSnake (absGame g))\<rparr>"
      using sn by (simp add: absGame_def)
    moreover have "specTick (directionRef g) (absGame g)
        ((absGame g)\<lparr>aSnake := nh # butlast (aSnake (absGame g))\<rparr>)"
      using asn move by (intro specTick.move [OF asn nh_def]) (simp_all add: wallCollision_iff absGame_def)
    ultimately show ?thesis by simp
  next
    case bonus
    with step moveSnake_bonus [OF sn nh_def]
    have "g' = g\<lparr>score := score g + 10, bonusFood := None, snake := growTo nh (snake g)\<rparr>" by simp
    then have "absGame g' = (absGame g)\<lparr>aScore := aScore (absGame g) + 10, aBonus := None,
        aSnake := nh # aSnake (absGame g)\<rparr>"
      by (simp add: absGame_def growTo_def)
    moreover have "specTick (directionRef g) (absGame g) ((absGame g)\<lparr>aScore := aScore (absGame g) + 10,
        aBonus := None, aSnake := nh # aSnake (absGame g)\<rparr>)"
      using bonus by (intro specTick.bonus [OF asn nh_def]) (simp_all add: wallCollision_iff absGame_def)
    ultimately show ?thesis by simp
  next
    case food
    have nb: "bonusFood g \<noteq> Some nh" using notboth food sn by (auto simp: nh_def)
    from step moveSnake_food [OF sn nh_def food] nb obtain g2 where
      g2: "eatFood rnd (growTo nh (snake g)) g g = Some g2" and g': "g' = g2\<lparr>snake := growTo nh (snake g)\<rparr>"
      by auto
    have pre: "inBounds nh" "nh \<notin> set (aSnake (absGame g))" "aBonus (absGame g) \<noteq> Some nh"
        "nh = aFood (absGame g)"
      using food nb by (simp_all add: wallCollision_iff absGame_def)
    from eatFood_result [OF g2] rng obtain f c where
      f: "f \<notin> set (nh # aSnake (absGame g))" "inBounds f" and
      cases: "g2 = g\<lparr>score := score g + 1, food := f, randCalls := c,
                   speedRef := rampSpeed (gameMode g) (speedRef g)\<rparr> \<or>
            (bonusFood g = None \<and>
             (\<exists>b. b \<notin> set (growTo nh (snake g)) \<and> inBounds b \<and>
                  g2 = g\<lparr>score := score g + 1, food := f, randCalls := c, bonusFood := Some b,
                         speedRef := rampSpeed (gameMode g) (speedRef g)\<rparr>))"
      by (auto simp: absGame_def growTo_def)
    from cases show ?thesis
    proof (elim disjE conjE exE)
      assume "g2 = g\<lparr>score := score g + 1, food := f, randCalls := c,
                   speedRef := rampSpeed (gameMode g) (speedRef g)\<rparr>"
      with g' have "absGame g' = (absGame g)\<lparr>aScore := aScore (absGame g) + 1, aFood := f,
          aSnake := nh # aSnake (absGame g)\<rparr>"
        by (simp add: absGame_def growTo_def)
      moreover have "specTick (directionRef g) (absGame g) ((absGame g)\<lparr>aScore := aScore (absGame g) + 1,
          aFood := f, aSnake := nh # aSnake (absGame g)\<rparr>)"
        by (rule specTick.food [OF asn nh_def pre f])
      ultimately show ?thesis by simp
    next
      fix b
      assume none: "bonusFood g = None" and b: "b \<notin> set (growTo nh (snake g))" "inBounds b"
        and g2e: "g2 = g\<lparr>score := score g + 1, food := f, randCalls := c, bonusFood := Some b,
                         speedRef := rampSpeed (gameMode g) (speedRef g)\<rparr>"
      from g' g2e have "absGame g' = (absGame g)\<lparr>aScore := aScore (absGame g) + 1, aFood := f,
          aBonus := Some b, aSnake := nh # aSnake (absGame g)\<rparr>"
        by (simp add: absGame_def growTo_def)
      moreover have "specTick (directionRef g) (absGame g) ((absGame g)\<lparr>aScore := aScore (absGame g) + 1,
          aFood := f, aBonus := Some b, aSnake := nh # aSnake (absGame g)\<rparr>)"
        using none b by (intro specTick.food_spawn [OF asn nh_def pre(1,2) _ pre(4) f])
          (simp_all add: absGame_def growTo_def)
      ultimately show ?thesis by simp
    qed
  qed
qed

text \<open>The tick when food and bonus share the new head's cell: both are scored.\<close>

lemma moveSnake_food_and_bonus:
  assumes "snake g = h # t" and "nh = advance h (directionRef g)" and "\<not> wallCollision nh"
    and "nh \<notin> set (snake g)" and "nh = food g" and "bonusFood g = Some nh"
    and "moveSnake rnd g = Some (Inr g')"
  shows "\<exists>f c. f \<notin> set (nh # snake g) \<and>
           g' = g\<lparr>score := score g + 11, bonusFood := None, food := f, randCalls := c,
                  speedRef := rampSpeed (gameMode g) (speedRef g), snake := nh # snake g\<rparr>"
proof -
  from assms(7) moveSnake_food [OF assms(1-5)] assms(6) obtain g2 where
    g2: "eatFood rnd (growTo nh (snake g)) g (g\<lparr>score := score g + 10, bonusFood := None\<rparr>) = Some g2"
    and g': "g' = g2\<lparr>snake := growTo nh (snake g)\<rparr>"
    by auto
  from g2 eatFood_with_bonus [of g] assms(6) obtain f c where
    gen: "generateFood rnd (growTo nh (snake g)) (randCalls g) = Some (f, c)"
    and "g2 = g\<lparr>score := score g + 10 + 1, bonusFood := None, food := f, randCalls := c,
               speedRef := rampSpeed (gameMode g) (speedRef g)\<rparr>"
    by auto
  moreover have "f \<notin> set (nh # snake g)"
    using generateFood_sound [OF gen] by (simp add: growTo_def)
  ultimately show ?thesis
    using g' by (intro exI [of _ f] exI [of _ c]) (simp add: growTo_def add.commute)
qed

text \<open>Eleven points is a step of no rule of the specification.\<close>

lemma specTick_not_both:
  assumes "specTick d s s'" and "aSnake s = h # t" and "advance h d = aFood s"
    and "aBonus s = Some (aFood s)" and "aScore s' = aScore s + 11"
  shows False
  using assms(1)
proof cases
  case (bonus h' t' nh)
  with assms(2,5) show False by simp
next
  case (food h' t' nh f)
  with assms(2-4) show False by simp
next
  case (food_spawn h' t' nh f b)
  with assms(2-4) show False by simp
next
  case (move h' t' nh)
  with assms(2-3) show False by simp
qed (use assms(2,5) in simp_all)

text \<open>Each part of a tick returns when every run of attempts from any point on
  eventually draws a cell off the grown snake.\<close>

lemma spawnBonus_returns:
  assumes "\<forall>i. \<exists>k. drawPoint rnd (i + 2 * k) \<notin> set ns"
  shows "\<exists>g'. spawnBonus rnd ns ob g = Some g'"
proof -
  obtain k where "drawPoint rnd (Suc (randCalls g) + 2 * k) \<notin> set ns" using assms by blast
  then obtain b c where "generateFood rnd ns (Suc (randCalls g)) = Some (b, c)"
    using generateFood_Some_ex by blast
  then show ?thesis by (auto simp: spawnBonus_def)
qed

lemma eatFood_returns:
  assumes "\<forall>i. \<exists>k. drawPoint rnd (i + 2 * k) \<notin> set ns"
  shows "\<exists>g'. eatFood rnd ns old g = Some g'"
proof -
  obtain k where "drawPoint rnd (randCalls g + 2 * k) \<notin> set ns" using assms by blast
  then obtain f c where "generateFood rnd ns (randCalls g) = Some (f, c)"
    using generateFood_Some_ex by blast
  with spawnBonus_returns [OF assms] show ?thesis by (fastforce simp: eatFood_def)
qed

end
