(* ===== verification/Scheduler.thy ===== *)
theory Scheduler
  imports Ui
begin

text \<open>
  The timers of \<open>useSnakeGame\<close> in time.  Each of the three effects owns one
  timer: the game loop \<open>setInterval(moveSnake, speedRef.current)\<close>, the
  countdown \<open>setInterval(..., 1000)\<close> and the bonus \<open>setTimeout(..., 5000)\<close>.  React
  runs an effect again, clearing its old timer and arming a new one, whenever a
  value in its dependency list changes; through \<open>useCallback\<close> the game loop
  depends on \<open>gameState\<close>, \<open>score\<close>, \<open>isPaused\<close> and on what \<open>moveSnake\<close> closes
  over (\<open>food\<close>, \<open>bonusFood\<close>, \<open>gameMode\<close>, \<open>difficulty\<close>, and \<open>score\<close> through
  \<open>handleGameOver\<close>), the countdown on \<open>gameState\<close>, \<open>gameMode\<close>, \<open>isPaused\<close>
  and \<open>score\<close> (again through \<open>handleGameOver\<close>), the bonus timer on
  \<open>bonusFood\<close>.  \<open>Sched\<close> adds to the hook's state the armed timers with the
  milliseconds elapsed since they were armed or last fired, and the clock
  \<open>now\<close>.  An event lets time pass (never past a due timer), fires a due timer,
  or is a user input; after every state change \<open>rearm\<close> re-runs the effects
  whose dependencies changed.  Timers due at the same instant may fire in any
  order.
\<close>

section \<open>Definitions\<close>

record Sched =
  sgame :: Game
  loopTimer :: "(int \<times> int) option"
  countTimer :: "int option"
  bonusTimer :: "int option"
  now :: int

datatype SEvent = Elapse int | FireLoop | FireCount | FireBonus | Input Event

text \<open>The dependency lists of the game-loop and countdown effects, with the
  callbacks unfolded to the state they close over.\<close>

definition loopDeps :: "Game \<Rightarrow> GameState \<times> Point \<times> Point option \<times> GameMode \<times> Difficulty \<times> int \<times> bool"
where
  "loopDeps g = (gameState g, food g, bonusFood g, gameMode g, difficulty g, score g, isPaused g)"

definition timerDeps :: "Game \<Rightarrow> GameState \<times> GameMode \<times> int \<times> bool" where
  "timerDeps g = (gameState g, gameMode g, score g, isPaused g)"

text \<open>Re-running the effects after the state changed from \<open>g\<close> to \<open>g'\<close>: an
  effect whose dependencies changed clears its timer and, if its guard holds,
  arms a fresh one (the game loop with the current \<open>speedRef\<close>).\<close>

definition rearm :: "Game \<Rightarrow> Game \<Rightarrow> Sched \<Rightarrow> Sched" where
  "rearm g g' S =
     S\<lparr>sgame := g',
       loopTimer := (if loopDeps g' = loopDeps g then loopTimer S
                     else if gameLoopActive g' then Some (speedRef g', 0) else None),
       countTimer := (if timerDeps g' = timerDeps g then countTimer S
                      else if timerActive g' then Some 0 else None),
       bonusTimer := (if bonusFood g' = bonusFood g then bonusTimer S
                      else if bonusTimerActive g' then Some 0 else None)\<rparr>"

definition initSched :: Sched where
  "initSched = \<lparr>sgame = initialGame, loopTimer = None, countTimer = None, bonusTimer = None, now = 0\<rparr>"

text \<open>Time may pass by \<open>n\<close> ms when no armed timer would overshoot its period.\<close>

definition canElapse :: "int \<Rightarrow> Sched \<Rightarrow> bool" where
  "canElapse n S \<longleftrightarrow> 0 < n \<and>
     (case loopTimer S of None \<Rightarrow> True | Some (p, e) \<Rightarrow> e + n \<le> p) \<and>
     (case countTimer S of None \<Rightarrow> True | Some e \<Rightarrow> e + n \<le> 1000) \<and>
     (case bonusTimer S of None \<Rightarrow> True | Some e \<Rightarrow> e + n \<le> 5000)"

fun uiEvent :: "Event \<Rightarrow> bool" where
  "uiEvent Tick = False"
| "uiEvent Second = False"
| "uiEvent BonusTimeout = False"
| "uiEvent _ = True"

fun sstep :: "rng \<Rightarrow> Sched \<Rightarrow> SEvent \<Rightarrow> Sched option" where
  "sstep rnd S (Elapse n) =
     (if canElapse n S then
        Some (S\<lparr>now := now S + n,
                loopTimer := map_option (\<lambda>(p, e). (p, e + n)) (loopTimer S),
                countTimer := map_option (\<lambda>e. e + n) (countTimer S),
                bonusTimer := map_option (\<lambda>e. e + n) (bonusTimer S)\<rparr>)
      else None)"
| "sstep rnd S FireLoop =
     (case loopTimer S of
        Some (p, e) \<Rightarrow>
          (if e = p then
             (case moveSnake rnd (sgame S) of
                Some (Inr g') \<Rightarrow> Some (rearm (sgame S) g' (S\<lparr>loopTimer := Some (p, 0)\<rparr>))
              | _ \<Rightarrow> None)
           else None)
      | None \<Rightarrow> None)"
| "sstep rnd S FireCount =
     (if countTimer S = Some 1000 then
        Some (rearm (sgame S) (countdownTick (sgame S)) (S\<lparr>countTimer := Some 0\<rparr>))
      else None)"
| "sstep rnd S FireBonus =
     (if bonusTimer S = Some 5000 then
        Some (rearm (sgame S) (bonusTimeout (sgame S)) (S\<lparr>bonusTimer := None\<rparr>))
      else None)"
| "sstep rnd S (Input e) =
     (if uiEvent e \<and> enabled (sgame S) e then
        (case step rnd (sgame S) e of
           Some (Inr g') \<Rightarrow> Some (rearm (sgame S) g' S)
         | _ \<Rightarrow> None)
      else None)"

fun srun :: "rng \<Rightarrow> Sched \<Rightarrow> SEvent list \<Rightarrow> Sched option" where
  "srun rnd S [] = Some S"
| "srun rnd S (ev # evs) = (case sstep rnd S ev of None \<Rightarrow> None | Some S' \<Rightarrow> srun rnd S' evs)"

inductive sreach :: "rng \<Rightarrow> Sched \<Rightarrow> bool" for rnd where
  init: "sreach rnd initSched"
| run: "sreach rnd S \<Longrightarrow> sstep rnd S ev = Some S' \<Longrightarrow> sreach rnd S'"

text \<open>Each timer is armed exactly when its effect's guard holds, the game loop
  with the current interval, and no timer is past its period.\<close>

definition schedOk :: "Sched \<Rightarrow> bool" where
  "schedOk S \<longleftrightarrow>
     (case loopTimer S of
        None \<Rightarrow> \<not> gameLoopActive (sgame S)
      | Some (p, e) \<Rightarrow> gameLoopActive (sgame S) \<and> p = speedRef (sgame S) \<and> 0 \<le> e \<and> e \<le> p) \<and>
     (case countTimer S of
        None \<Rightarrow> \<not> timerActive (sgame S)
      | Some e \<Rightarrow> timerActive (sgame S) \<and> 0 \<le> e \<and> e \<le> 1000) \<and>
     (case bonusTimer S of
        None \<Rightarrow> \<not> bonusTimerActive (sgame S)
      | Some e \<Rightarrow> bonusTimerActive (sgame S) \<and> 0 \<le> e \<and> e \<le> 5000)"

section \<open>Lemmas\<close>

lemma srun_append: "srun rnd S (xs @ ys) = (case srun rnd S xs of None \<Rightarrow> None | Some S' \<Rightarrow> srun rnd S' ys)"
  by (induction xs arbitrary: S) (auto split: option.splits)

lemma srun_sreach: "sreach rnd S \<Longrightarrow> srun rnd S evs = Some S' \<Longrightarrow> sreach rnd S'"
  by (induction evs arbitrary: S) (auto intro: sreach.run split: option.splits)

lemma sgame_rearm [simp]: "sgame (rearm g g' S) = g'"
  by (simp add: rearm_def)

text \<open>The guards read only fields in the dependency lists.\<close>

lemma loopDeps_active: "loopDeps g' = loopDeps g \<Longrightarrow> gameLoopActive g' = gameLoopActive g"
  by (simp add: loopDeps_def gameLoopActive_def)

lemma timerDeps_active: "timerDeps g' = timerDeps g \<Longrightarrow> timerActive g' = timerActive g"
  by (simp add: timerDeps_def timerActive_def)

text \<open>Re-running the effects keeps the timers in step with the state, provided
  the interval does not change while the game loop's dependencies stay.\<close>

lemma schedOk_rearm:
  assumes "schedOk S" and "sgame S = g" and "0 \<le> speedRef g'"
    and "loopDeps g' = loopDeps g \<Longrightarrow> speedRef g' = speedRef g"
  shows "schedOk (rearm g g' S)"
  using assms loopDeps_active [of g' g] timerDeps_active [of g' g]
  by (auto simp: schedOk_def rearm_def bonusTimerActive_def split: option.splits)

text \<open>An enabled handler changes the interval only together with a dependency
  of the game loop: eating changes the score, a new game changes the state.\<close>

lemma step_speed_deps:
  assumes "enabled g e" and "step rnd g e = Some (Inr g')" and "loopDeps g' = loopDeps g"
  shows "speedRef g' = speedRef g"
proof (cases e)
  case Tick
  with assms moveSnake_Inr_cases [of rnd g g'] show ?thesis
    by (auto simp: handleGameOver_def loopDeps_def)
next
  case (ChooseMode m)
  with assms show ?thesis by (auto simp: resetGame_def loopDeps_def split: option.splits)
next
  case TryAgain
  with assms show ?thesis by (auto simp: resetGame_def loopDeps_def split: option.splits)
qed (use assms in \<open>auto simp: countdownTick_def handleGameOver_def bonusTimeout_def
       changeDirection_def togglePause_def split: option.splits if_splits\<close>)

lemma rearm_bonus_overwritten:
  "bonusFood g' \<noteq> bonusFood g \<Longrightarrow> rearm g g' (S\<lparr>bonusTimer := x\<rparr>) = rearm g g' S"
  by (simp add: rearm_def)

lemma step_speed_nonneg:
  assumes "validRng rnd" "wfGame g" "enabled g e" "step rnd g e = Some (Inr g')"
  shows "0 \<le> speedRef g'"
  using wfGame_step [OF assms] by (simp add: wfGame_def)

text \<open>Every scheduler step keeps the timers in step with the state, and is either
  the passage of time or an enabled event of the untimed model.\<close>

lemma sstep_schedOk:
  assumes "schedOk S" and "sstep rnd S ev = Some S'" and "validRng rnd" and "wfGame (sgame S)"
  shows "schedOk S' \<and>
         (sgame S' = sgame S \<or> (\<exists>e. enabled (sgame S) e \<and> step rnd (sgame S) e = Some (Inr (sgame S'))))"
proof (cases ev)
  case (Elapse n)
  with assms show ?thesis
    by (auto simp: schedOk_def canElapse_def split: option.splits if_splits)
next
  case FireLoop
  with assms obtain p g' where lt: "loopTimer S = Some (p, p)"
    and mv: "moveSnake rnd (sgame S) = Some (Inr g')"
    and S': "S' = rearm (sgame S) g' (S\<lparr>loopTimer := Some (p, 0)\<rparr>)"
    by (auto split: option.splits if_splits sum.splits)
  have ok: "schedOk (S\<lparr>loopTimer := Some (p, 0)\<rparr>)"
    using assms(1) lt by (auto simp: schedOk_def split: option.splits)
  have en: "enabled (sgame S) Tick" using assms(1) lt by (simp add: schedOk_def)
  have st: "step rnd (sgame S) Tick = Some (Inr g')" using mv by simp
  note sp = step_speed_nonneg [OF assms(3,4) en st]
  have "schedOk S'"
    unfolding S' by (rule schedOk_rearm [OF ok _ sp]) (auto intro: step_speed_deps [OF en st])
  moreover have "sgame S' = g'" using S' by simp
  ultimately show ?thesis using en st by blast
next
  case FireCount
  with assms have ct: "countTimer S = Some 1000"
    and S': "S' = rearm (sgame S) (countdownTick (sgame S)) (S\<lparr>countTimer := Some 0\<rparr>)"
    by (auto split: if_splits)
  have ok: "schedOk (S\<lparr>countTimer := Some 0\<rparr>)"
    using assms(1) ct by (auto simp: schedOk_def split: option.splits)
  have en: "enabled (sgame S) Second" using assms(1) ct by (simp add: schedOk_def)
  have st: "step rnd (sgame S) Second = Some (Inr (countdownTick (sgame S)))" by simp
  note sp = step_speed_nonneg [OF assms(3,4) en st]
  have "schedOk S'"
    unfolding S' by (rule schedOk_rearm [OF ok _ sp]) (simp_all add: countdownTick_def handleGameOver_def)
  moreover have "sgame S' = countdownTick (sgame S)" using S' by simp
  ultimately show ?thesis using en st by metis
next
  case FireBonus
  with assms have bt: "bonusTimer S = Some 5000"
    and S': "S' = rearm (sgame S) (bonusTimeout (sgame S)) (S\<lparr>bonusTimer := None\<rparr>)"
    by (auto split: if_splits)
  have on: "bonusFood (sgame S) \<noteq> None" using assms(1) bt by (simp add: schedOk_def bonusTimerActive_def)
  then have S'': "S' = rearm (sgame S) (bonusTimeout (sgame S)) S"
    using S' rearm_bonus_overwritten [of "bonusTimeout (sgame S)" "sgame S" None S]
    by (auto simp: bonusTimeout_def)
  have en: "enabled (sgame S) BonusTimeout" using on by (simp add: bonusTimerActive_def)
  have st: "step rnd (sgame S) BonusTimeout = Some (Inr (bonusTimeout (sgame S)))" by simp
  note sp = step_speed_nonneg [OF assms(3,4) en st]
  have "schedOk S'"
    unfolding S'' by (rule schedOk_rearm [OF assms(1) _ sp]) (simp_all add: bonusTimeout_def)
  moreover have "sgame S' = bonusTimeout (sgame S)" using S'' by simp
  ultimately show ?thesis using en st by metis
next
  case (Input e)
  with assms obtain g' where en: "enabled (sgame S) e" and st: "step rnd (sgame S) e = Some (Inr g')"
    and S': "S' = rearm (sgame S) g' S"
    by (auto split: if_splits option.splits sum.splits)
  note sp = step_speed_nonneg [OF assms(3,4) en st]
  have "schedOk S'"
    unfolding S' by (rule schedOk_rearm [OF assms(1) _ sp]) (auto intro: step_speed_deps [OF en st])
  moreover have "sgame S' = g'" using S' by simp
  ultimately show ?thesis using en st by blast
qed

lemma sreach_inv:
  assumes "validRng rnd" and "sreach rnd S"
  shows "schedOk S \<and> reachable rnd (sgame S)"
  using assms(2)
proof (induction rule: sreach.induct)
  case init
  have "schedOk initSched"
    by (simp add: initSched_def schedOk_def initialGame_def gameLoopActive_def timerActive_def
        bonusTimerActive_def)
  then show ?case by (simp add: initSched_def reachable.init)
next
  case (run S ev S')
  then have ok: "schedOk S" and re: "reachable rnd (sgame S)" by auto
  have wf: "wfGame (sgame S)" using wfGame_reachable [OF assms(1) re] .
  from sstep_schedOk [OF ok run.hyps(2) assms(1) wf] re show ?case
    by (auto intro: reachable.run)
qed

lemmas run_simps = initialGame_def initSched_def resetGame_def generateFood_unfold drawPoint_def
  randomCoord_def moveSnake_def eatFood_def spawnBonus_def rearm_def loopDeps_def timerDeps_def
  canElapse_def gameLoopActive_def timerActive_def bonusTimerActive_def advance_def
  wallCollision_def GRID_SIZE_def TIMED_DURATION_def rampSpeed_def growTo_def moveTo_def

text \<open>C27: every state the timed scheduler reaches keeps each timer armed
  exactly while its effect's guard holds, with the game loop at the current
  interval and no timer past its period, and its game state is reachable in
  the untimed event model; every property proved of \<open>reachable\<close> therefore
  holds of the timed game.\<close>

theorem sreach_refines_reachable:
  assumes "validRng rnd" and "sreach rnd S"
  shows "schedOk S \<and> reachable rnd (sgame S)"
  using assms by (rule sreach_inv)

theorem sreach_refines_reachable_witness:
  "validRng (\<lambda>_. 1 / 4) \<and>
   sreach (\<lambda>_. 1 / 4)
     \<lparr>sgame = initialGame\<lparr>gameState := PLAYING, gameMode := TIMED, food := \<lparr>px = 5, py = 5\<rparr>,
        randCalls := 2\<rparr>,
      loopTimer = Some (140, 0), countTimer = Some 0, bonusTimer = None, now = 0\<rparr> \<and>
   schedOk
     \<lparr>sgame = initialGame\<lparr>gameState := PLAYING, gameMode := TIMED, food := \<lparr>px = 5, py = 5\<rparr>,
        randCalls := 2\<rparr>,
      loopTimer = Some (140, 0), countTimer = Some 0, bonusTimer = None, now = 0\<rparr> \<and>
   reachable (\<lambda>_. 1 / 4)
     (initialGame\<lparr>gameState := PLAYING, gameMode := TIMED, food := \<lparr>px = 5, py = 5\<rparr>,
        randCalls := 2\<rparr>)"
proof -
  have v: "validRng (\<lambda>_. 1 / 4)" by (simp add: validRng_def)
  have "srun (\<lambda>_. 1 / 4) initSched [Input (ChooseMode TIMED)] =
     Some \<lparr>sgame = initialGame\<lparr>gameState := PLAYING, gameMode := TIMED, food := \<lparr>px = 5, py = 5\<rparr>,
        randCalls := 2\<rparr>,
      loopTimer = Some (140, 0), countTimer = Some 0, bonusTimer = None, now = 0\<rparr>"
    by (simp add: run_simps)
  then have r: "sreach (\<lambda>_. 1 / 4)
     \<lparr>sgame = initialGame\<lparr>gameState := PLAYING, gameMode := TIMED, food := \<lparr>px = 5, py = 5\<rparr>,
        randCalls := 2\<rparr>,
      loopTimer = Some (140, 0), countTimer = Some 0, bonusTimer = None, now = 0\<rparr>"
    by (rule srun_sreach [OF sreach.init])
  show ?thesis using sreach_refines_reachable [OF v r] v r by simp
qed

text \<open>C29: the pause button cancels the game loop and the countdown, and
  resuming re-arms them from a full interval: the game loop at the current
  speed, the countdown (in timed mode) from the start of a second.\<close>

theorem pause_resume_timers:
  assumes "sstep rnd S (Input PauseButton) = Some S'"
  shows "(isPaused (sgame S') \<longrightarrow> loopTimer S' = None \<and> countTimer S' = None) \<and>
         (\<not> isPaused (sgame S') \<longrightarrow>
            loopTimer S' = Some (speedRef (sgame S'), 0) \<and>
            countTimer S' = (if gameMode (sgame S') = TIMED then Some 0 else None))"
  using assms
  by (auto simp: rearm_def loopDeps_def timerDeps_def togglePause_def gameLoopActive_def
      timerActive_def split: if_splits)

theorem pause_resume_timers_witness:
  "sstep (\<lambda>_. 1 / 4)
     \<lparr>sgame = initialGame\<lparr>gameState := PLAYING, gameMode := TIMED, isPaused := True\<rparr>,
      loopTimer = None, countTimer = None, bonusTimer = None, now = 500\<rparr> (Input PauseButton) =
     Some \<lparr>sgame = initialGame\<lparr>gameState := PLAYING, gameMode := TIMED\<rparr>,
      loopTimer = Some (140, 0), countTimer = Some 0, bonusTimer = None, now = 500\<rparr> \<and>
   loopTimer \<lparr>sgame = initialGame\<lparr>gameState := PLAYING, gameMode := TIMED\<rparr>,
      loopTimer = Some (140, 0), countTimer = Some 0, bonusTimer = None, now = 500\<rparr> =
     Some (speedRef (initialGame\<lparr>gameState := PLAYING, gameMode := TIMED\<rparr>), 0)"
proof -
  have s: "sstep (\<lambda>_. 1 / 4)
     \<lparr>sgame = initialGame\<lparr>gameState := PLAYING, gameMode := TIMED, isPaused := True\<rparr>,
      loopTimer = None, countTimer = None, bonusTimer = None, now = 500\<rparr> (Input PauseButton) =
     Some \<lparr>sgame = initialGame\<lparr>gameState := PLAYING, gameMode := TIMED\<rparr>,
      loopTimer = Some (140, 0), countTimer = Some 0, bonusTimer = None, now = 500\<rparr>"
    by (simp add: run_simps togglePause_def)
  show ?thesis using pause_resume_timers [OF s] s by (simp add: initialGame_def)
qed

text \<open>C30: apart from its own firing, an event that leaves the game loop armed
  keeps its period and its elapsed time (so the next tick comes on time) unless
  it is the expiry of the bonus.\<close>

theorem tick_phase_kept:
  assumes "schedOk S" and "sstep rnd S ev = Some S'"
    and "loopTimer S = Some (p, e)" and "loopTimer S' = Some (p', e')"
    and "ev \<noteq> FireLoop" and "\<forall>n. ev \<noteq> Elapse n" and "ev \<noteq> FireBonus"
  shows "p' = p \<and> e' = e"
proof -
  have act: "gameLoopActive (sgame S)" using assms(1,3) by (simp add: schedOk_def)
  show ?thesis
  proof (cases ev)
    case (Input u)
    with assms act show ?thesis
      by (cases u) (auto simp: rearm_def loopDeps_def gameLoopActive_def changeDirection_def
          togglePause_def split: if_splits option.splits sum.splits)
  qed (use assms act in \<open>auto simp: rearm_def loopDeps_def countdownTick_def handleGameOver_def
        gameLoopActive_def split: if_splits\<close>)
qed

theorem tick_phase_kept_witness:
  "schedOk \<lparr>sgame = initialGame\<lparr>gameState := PLAYING\<rparr>,
      loopTimer = Some (140, 100), countTimer = None, bonusTimer = None, now = 100\<rparr> \<and>
   sstep (\<lambda>_. 1 / 4) \<lparr>sgame = initialGame\<lparr>gameState := PLAYING\<rparr>,
      loopTimer = Some (140, 100), countTimer = None, bonusTimer = None, now = 100\<rparr> (Input (KeyDown ''ArrowUp'')) =
     Some \<lparr>sgame = initialGame\<lparr>gameState := PLAYING, direction := \<lparr>px = 0, py = -1\<rparr>,
                directionRef := \<lparr>px = 0, py = -1\<rparr>\<rparr>,
      loopTimer = Some (140, 100), countTimer = None, bonusTimer = None, now = 100\<rparr>"
proof -
  have ok: "schedOk \<lparr>sgame = initialGame\<lparr>gameState := PLAYING\<rparr>,
      loopTimer = Some (140, 100), countTimer = None, bonusTimer = None, now = 100\<rparr>"
    by (simp add: schedOk_def run_simps)
  have s: "sstep (\<lambda>_. 1 / 4) \<lparr>sgame = initialGame\<lparr>gameState := PLAYING\<rparr>,
      loopTimer = Some (140, 100), countTimer = None, bonusTimer = None, now = 100\<rparr> (Input (KeyDown ''ArrowUp'')) =
     Some \<lparr>sgame = initialGame\<lparr>gameState := PLAYING, direction := \<lparr>px = 0, py = -1\<rparr>,
                directionRef := \<lparr>px = 0, py = -1\<rparr>\<rparr>,
      loopTimer = Some (140, 100), countTimer = None, bonusTimer = None, now = 100\<rparr>"
    by (simp add: run_simps keyToDir_def changeDirection_def)
  have "140 = (140::int) \<and> 100 = (100::int)"
    by (rule tick_phase_kept [OF ok s]) simp_all
  with ok s show ?thesis by simp
qed

text \<open>C31: the expiry of the bonus re-runs the game-loop effect (its callback
  closes over \<open>bonusFood\<close>), which restarts the interval: the next tick comes a
  full period after the expiry, however much of the current period had
  passed.\<close>

theorem bonus_expiry_restarts_tick:
  assumes "schedOk S" and "sstep rnd S FireBonus = Some S'" and "gameLoopActive (sgame S)"
  shows "loopTimer S' = Some (speedRef (sgame S), 0)"
proof -
  have "bonusFood (sgame S) \<noteq> None"
    using assms(1,2) by (auto simp: schedOk_def bonusTimerActive_def split: if_splits option.splits)
  then show ?thesis
    using assms(2,3)
    by (auto simp: rearm_def loopDeps_def bonusTimeout_def gameLoopActive_def split: if_splits)
qed

theorem bonus_expiry_restarts_tick_witness:
  "schedOk \<lparr>sgame = initialGame\<lparr>gameState := PLAYING, bonusFood := Some \<lparr>px = 3, py = 3\<rparr>\<rparr>,
      loopTimer = Some (140, 100), countTimer = None, bonusTimer = Some 5000, now = 5000\<rparr> \<and>
   sstep (\<lambda>_. 1 / 4) \<lparr>sgame = initialGame\<lparr>gameState := PLAYING, bonusFood := Some \<lparr>px = 3, py = 3\<rparr>\<rparr>,
      loopTimer = Some (140, 100), countTimer = None, bonusTimer = Some 5000, now = 5000\<rparr> FireBonus =
     Some \<lparr>sgame = initialGame\<lparr>gameState := PLAYING\<rparr>,
      loopTimer = Some (140, 0), countTimer = None, bonusTimer = None, now = 5000\<rparr> \<and>
   gameLoopActive (initialGame\<lparr>gameState := PLAYING, bonusFood := Some \<lparr>px = 3, py = 3\<rparr>\<rparr>) \<and>
   loopTimer \<lparr>sgame = initialGame\<lparr>gameState := PLAYING\<rparr>,
      loopTimer = Some (140, 0), countTimer = None, bonusTimer = None, now = 5000\<rparr> = Some (140, 0)"
proof -
  have ok: "schedOk \<lparr>sgame = initialGame\<lparr>gameState := PLAYING, bonusFood := Some \<lparr>px = 3, py = 3\<rparr>\<rparr>,
      loopTimer = Some (140, 100), countTimer = None, bonusTimer = Some 5000, now = 5000\<rparr>"
    by (simp add: schedOk_def run_simps)
  have s: "sstep (\<lambda>_. 1 / 4) \<lparr>sgame = initialGame\<lparr>gameState := PLAYING, bonusFood := Some \<lparr>px = 3, py = 3\<rparr>\<rparr>,
      loopTimer = Some (140, 100), countTimer = None, bonusTimer = Some 5000, now = 5000\<rparr> FireBonus =
     Some \<lparr>sgame = initialGame\<lparr>gameState := PLAYING\<rparr>,
      loopTimer = Some (140, 0), countTimer = None, bonusTimer = None, now = 5000\<rparr>"
    by (simp add: run_simps bonusTimeout_def)
  have a: "gameLoopActive (initialGame\<lparr>gameState := PLAYING, bonusFood := Some \<lparr>px = 3, py = 3\<rparr>\<rparr>)"
    by (simp add: run_simps)
  show ?thesis using bonus_expiry_restarts_tick [OF ok s] ok s a by (simp add: initialGame_def)
qed

text \<open>C32: outside a running game no tick and no countdown second can fire:
  the transition to game over (by collision or by the countdown) cancels both
  timers in the same step, so the countdown ends a game exactly once.\<close>

theorem no_timers_outside_game:
  assumes "validRng rnd" and "sreach rnd S" and "gameState (sgame S) \<noteq> PLAYING"
  shows "sstep rnd S FireLoop = None \<and> sstep rnd S FireCount = None"
proof -
  have "schedOk S" using sreach_inv [OF assms(1,2)] ..
  then have "loopTimer S = None \<and> countTimer S = None"
    using assms(3) by (auto simp: schedOk_def gameLoopActive_def timerActive_def split: option.splits)
  then show ?thesis by simp
qed

theorem no_timers_outside_game_witness:
  "validRng (\<lambda>_. 1 / 4) \<and> sreach (\<lambda>_. 1 / 4) initSched \<and> gameState (sgame initSched) \<noteq> PLAYING \<and>
   sstep (\<lambda>_. 1 / 4) initSched FireLoop = None \<and> sstep (\<lambda>_. 1 / 4) initSched FireCount = None"
proof -
  have v: "validRng (\<lambda>_. 1 / 4)" by (simp add: validRng_def)
  have g: "gameState (sgame initSched) \<noteq> PLAYING" by (simp add: run_simps)
  show ?thesis using no_timers_outside_game [OF v sreach.init g] v sreach.init g by blast
qed

end
