(* ===== verification/Countdown.thy ===== *)
theory Countdown
  imports Scheduler
begin

text \<open>
  The countdown of timed mode over runs of the scheduler.  The countdown
  effect depends on \<open>handleGameOver\<close>, and through it on \<open>score\<close>, so every
  score change clears the running one-second interval and starts a new one.
  The lemmas follow the countdown's elapsed time along a run: it grows only
  with the clock and a re-run of the effect resets it.  The theorems show both
  sides: a score change holds the countdown back by a full second, a concrete
  game eats twice in 1.26 s without the countdown ever firing, and while the
  countdown's dependencies stay unchanged a timed game cannot outlast its
  remaining seconds.
\<close>

section \<open>Lemmas\<close>
text \<open>The countdown's elapsed time grows only with the clock, and a re-run of
  its effect starts it again from zero.\<close>

lemma sstep_count_timer:
  assumes "sstep rnd S ev = Some S1"
  shows "now S \<le> now S1 \<and>
         (case countTimer S1 of
            None \<Rightarrow> True
          | Some e1 \<Rightarrow> e1 = 0 \<or> (\<exists>e. countTimer S = Some e \<and> e1 = e + (now S1 - now S)))"
  using assms
  by (cases ev) (auto simp: rearm_def canElapse_def split: option.splits if_splits sum.splits)

lemma srun_count_timer:
  "srun rnd S evs = Some S' \<Longrightarrow> countTimer S' = Some e' \<Longrightarrow>
   e' \<le> now S' - now S + (case countTimer S of None \<Rightarrow> 0 | Some e \<Rightarrow> max 0 e)"
proof (induction evs arbitrary: S)
  case Nil
  then show ?case by auto
next
  case (Cons ev evs)
  then obtain S1 where st: "sstep rnd S ev = Some S1" and rn: "srun rnd S1 evs = Some S'"
    by (auto split: option.splits)
  have "e' \<le> now S' - now S1 + (case countTimer S1 of None \<Rightarrow> 0 | Some e \<Rightarrow> max 0 e)"
    using Cons.IH [OF rn Cons.prems(2)] .
  moreover have "(case countTimer S1 of None \<Rightarrow> 0 | Some e \<Rightarrow> max 0 e) \<le>
                 now S1 - now S + (case countTimer S of None \<Rightarrow> 0 | Some e \<Rightarrow> max 0 e)"
    using sstep_count_timer [OF st] by (auto split: option.splits)
  ultimately show ?case by linarith
qed

text \<open>Through \<open>handleGameOver\<close> the countdown effect depends on \<open>score\<close>: a
  step that changes the score while the countdown runs re-arms it.\<close>

lemma sstep_score_rearms_count:
  "sstep rnd S ev = Some S' \<Longrightarrow> timerActive (sgame S') \<Longrightarrow> score (sgame S') \<noteq> score (sgame S) \<Longrightarrow>
   countTimer S' = Some 0"
  by (cases ev) (auto simp: rearm_def timerDeps_def split: option.splits if_splits sum.splits)

lemma sstep_FireCount_due: "sstep rnd S FireCount \<noteq> None \<Longrightarrow> countTimer S = Some 1000"
  by (simp split: if_splits)

text \<open>C28: in timed mode, after a step that changes the score the countdown
  cannot fire before a full second has passed, whatever happens in between;
  eating at least once a second therefore keeps \<open>timeLeft\<close> from ever
  decreasing.\<close>

theorem score_change_delays_countdown:
  assumes "sstep rnd S0 ev = Some S" and "timerActive (sgame S)"
    and "score (sgame S) \<noteq> score (sgame S0)"
    and "srun rnd S evs = Some S'" and "sstep rnd S' FireCount \<noteq> None"
  shows "1000 \<le> now S' - now S"
proof -
  have "countTimer S = Some 0" using assms(1-3) by (rule sstep_score_rearms_count)
  moreover have "countTimer S' = Some 1000" using assms(5) by (rule sstep_FireCount_due)
  ultimately show ?thesis using srun_count_timer [OF assms(4)] by fastforce
qed

theorem score_change_delays_countdown_witness:
  "sstep (\<lambda>_. 1 / 4)
     \<lparr>sgame = initialGame\<lparr>gameState := PLAYING, gameMode := TIMED, food := \<lparr>px = 11, py = 10\<rparr>\<rparr>,
      loopTimer = Some (140, 140), countTimer = Some 140, bonusTimer = None, now = 140\<rparr> FireLoop =
     Some \<lparr>sgame = initialGame\<lparr>gameState := PLAYING, gameMode := TIMED, food := \<lparr>px = 5, py = 5\<rparr>,
             score := 1, randCalls := 3, snake := [\<lparr>px = 11, py = 10\<rparr>, \<lparr>px = 10, py = 10\<rparr>]\<rparr>,
           loopTimer = Some (140, 0), countTimer = Some 0, bonusTimer = None, now = 140\<rparr> \<and>
   srun (\<lambda>_. 1 / 4)
     \<lparr>sgame = initialGame\<lparr>gameState := PLAYING, gameMode := TIMED, food := \<lparr>px = 5, py = 5\<rparr>,
        score := 1, randCalls := 3, snake := [\<lparr>px = 11, py = 10\<rparr>, \<lparr>px = 10, py = 10\<rparr>]\<rparr>,
      loopTimer = Some (140, 0), countTimer = Some 0, bonusTimer = None, now = 140\<rparr>
     [Elapse 140, FireLoop, Elapse 140, FireLoop, Elapse 140, FireLoop, Elapse 140, FireLoop,
      Elapse 140, FireLoop, Elapse 140, FireLoop, Elapse 140, FireLoop, Elapse 20] =
     Some \<lparr>sgame = initialGame\<lparr>gameState := PLAYING, gameMode := TIMED, food := \<lparr>px = 5, py = 5\<rparr>,
             score := 1, randCalls := 3, snake := [\<lparr>px = 18, py = 10\<rparr>, \<lparr>px = 17, py = 10\<rparr>]\<rparr>,
           loopTimer = Some (140, 20), countTimer = Some 1000, bonusTimer = None, now = 1140\<rparr> \<and>
   1000 \<le> (1140 - 140 :: int)"
proof -
  have s1: "sstep (\<lambda>_. 1 / 4)
     \<lparr>sgame = initialGame\<lparr>gameState := PLAYING, gameMode := TIMED, food := \<lparr>px = 11, py = 10\<rparr>\<rparr>,
      loopTimer = Some (140, 140), countTimer = Some 140, bonusTimer = None, now = 140\<rparr> FireLoop =
     Some \<lparr>sgame = initialGame\<lparr>gameState := PLAYING, gameMode := TIMED, food := \<lparr>px = 5, py = 5\<rparr>,
             score := 1, randCalls := 3, snake := [\<lparr>px = 11, py = 10\<rparr>, \<lparr>px = 10, py = 10\<rparr>]\<rparr>,
           loopTimer = Some (140, 0), countTimer = Some 0, bonusTimer = None, now = 140\<rparr>"
    by (simp add: run_simps)
  have s2: "srun (\<lambda>_. 1 / 4)
     \<lparr>sgame = initialGame\<lparr>gameState := PLAYING, gameMode := TIMED, food := \<lparr>px = 5, py = 5\<rparr>,
        score := 1, randCalls := 3, snake := [\<lparr>px = 11, py = 10\<rparr>, \<lparr>px = 10, py = 10\<rparr>]\<rparr>,
      loopTimer = Some (140, 0), countTimer = Some 0, bonusTimer = None, now = 140\<rparr>
     [Elapse 140, FireLoop, Elapse 140, FireLoop, Elapse 140, FireLoop, Elapse 140, FireLoop,
      Elapse 140, FireLoop, Elapse 140, FireLoop, Elapse 140, FireLoop, Elapse 20] =
     Some \<lparr>sgame = initialGame\<lparr>gameState := PLAYING, gameMode := TIMED, food := \<lparr>px = 5, py = 5\<rparr>,
             score := 1, randCalls := 3, snake := [\<lparr>px = 18, py = 10\<rparr>, \<lparr>px = 17, py = 10\<rparr>]\<rparr>,
           loopTimer = Some (140, 20), countTimer = Some 1000, bonusTimer = None, now = 1140\<rparr>"
    by (simp add: run_simps)
  have "1000 \<le> (1140 - 140 :: int)"
    using score_change_delays_countdown [OF s1 _ _ s2] by (simp add: timerActive_def initialGame_def)
  with s1 s2 show ?thesis by simp
qed

text \<open>A concrete timed game in which the countdown never fires.  With
  \<open>Math.random()\<close> returning 3/4, 1/2, 19/20, 1/2 and then 1/4, the food lies
  on the snake's row both times; eating it at 700 ms and at 1260 ms re-arms the
  one-second countdown each time, so after 1.26 s of play \<open>timeLeft\<close> is
  still 60.\<close>

lemma countdown_starved_run:
  "srun (\<lambda>i. if i = 0 then 3 / 4 else if i = 1 \<or> i = 3 then 1 / 2 else if i = 2 then 19 / 20 else 1 / 4)
     initSched
     [Input (ChooseMode TIMED), Elapse 140, FireLoop, Elapse 140, FireLoop, Elapse 140, FireLoop,
      Elapse 140, FireLoop, Elapse 140, FireLoop, Elapse 140, FireLoop, Elapse 140, FireLoop,
      Elapse 140, FireLoop, Elapse 140, FireLoop] =
   Some \<lparr>sgame = initialGame\<lparr>gameState := PLAYING, gameMode := TIMED,
           snake := [\<lparr>px = 19, py = 10\<rparr>, \<lparr>px = 18, py = 10\<rparr>, \<lparr>px = 17, py = 10\<rparr>],
           food := \<lparr>px = 5, py = 5\<rparr>, score := 2, randCalls := 8\<rparr>,
         loopTimer = Some (140, 0), countTimer = Some 0, bonusTimer = None, now = 1260\<rparr> \<and>
   timeLeft initialGame = TIMED_DURATION"
  by (simp add: run_simps)

text \<open>A running timed game has at least one second left: the countdown ends
  the game when it would reach zero.\<close>

lemma step_timeLeft_pos:
  assumes "enabled g e" and "step rnd g e = Some (Inr g')"
    and "gameState g = PLAYING \<and> gameMode g = TIMED \<longrightarrow> 1 \<le> timeLeft g"
  shows "gameState g' = PLAYING \<and> gameMode g' = TIMED \<longrightarrow> 1 \<le> timeLeft g'"
proof (cases e)
  case Tick
  with assms moveSnake_Inr_cases [of rnd g g'] show ?thesis by (auto simp: handleGameOver_def)
qed (use assms in \<open>auto simp: countdownTick_def handleGameOver_def bonusTimeout_def changeDirection_def
      resetGame_def togglePause_def TIMED_DURATION_def timerActive_def split: option.splits if_splits\<close>)

lemma reachable_timeLeft_pos:
  "reachable rnd g \<Longrightarrow> gameState g = PLAYING \<Longrightarrow> gameMode g = TIMED \<Longrightarrow> 1 \<le> timeLeft g"
proof (induction rule: reachable.induct)
  case init
  then show ?case by (simp add: initialGame_def)
next
  case (run g e g')
  then show ?case using step_timeLeft_pos [of g e rnd g'] by blast
qed

lemma now_rearm [simp]: "now (rearm g g' X) = now X"
  by (simp add: rearm_def)

lemma countTimer_rearm_same:
  "timerDeps g' = timerDeps g \<Longrightarrow> countTimer (rearm g g' X) = countTimer X"
  by (simp add: rearm_def)

text \<open>One step that keeps the countdown's dependencies: the clock advances by
  the countdown's elapsed time plus a second per countdown firing.\<close>

lemma sstep_steady_count:
  assumes act: "timerActive (sgame S)" and ct: "countTimer S = Some e"
    and st: "sstep rnd S ev = Some S1" and dp: "timerDeps (sgame S1) = timerDeps (sgame S)"
  shows "\<exists>e1. countTimer S1 = Some e1 \<and>
           now S1 - now S + e = e1 + 1000 * (timeLeft (sgame S) - timeLeft (sgame S1))"
proof (cases ev)
  case (Elapse n)
  with st ct show ?thesis by (auto simp: canElapse_def split: if_splits)
next
  case FireLoop
  with st obtain p g' where mv: "moveSnake rnd (sgame S) = Some (Inr g')"
    and S1: "S1 = rearm (sgame S) g' (S\<lparr>loopTimer := Some (p, 0)\<rparr>)"
    by (auto split: option.splits if_splits sum.splits)
  have "g' \<noteq> handleGameOver (sgame S)"
    using dp act S1 by (auto simp: timerDeps_def timerActive_def handleGameOver_def)
  then have "timeLeft g' = timeLeft (sgame S)" using moveSnake_Inr_cases [OF mv] by blast
  with S1 dp ct show ?thesis by (simp add: countTimer_rearm_same)
next
  case FireCount
  with st have c: "e = 1000"
    and S1: "S1 = rearm (sgame S) (countdownTick (sgame S)) (S\<lparr>countTimer := Some 0\<rparr>)"
    using ct by (auto split: if_splits)
  have "1 < timeLeft (sgame S)"
    using dp act S1 by (auto simp: timerDeps_def timerActive_def countdownTick_def handleGameOver_def
        split: if_splits)
  then have "timeLeft (sgame S1) = timeLeft (sgame S) - 1" using S1 by (simp add: countdownTick_def)
  with S1 dp c show ?thesis by (simp add: countTimer_rearm_same)
next
  case FireBonus
  with st have S1: "S1 = rearm (sgame S) (bonusTimeout (sgame S)) (S\<lparr>bonusTimer := None\<rparr>)"
    by (auto split: if_splits)
  with dp ct show ?thesis by (simp add: countTimer_rearm_same bonusTimeout_def)
next
  case (Input u)
  with st obtain g' where ui: "uiEvent u" and en: "enabled (sgame S) u"
    and sg: "step rnd (sgame S) u = Some (Inr g')" and S1: "S1 = rearm (sgame S) g' S"
    by (auto split: if_splits option.splits sum.splits)
  have "timeLeft g' = timeLeft (sgame S)"
    using ui en sg act S1 dp
    by (cases u) (auto simp: timerActive_def timerDeps_def changeDirection_def togglePause_def
        split: option.splits)
  with S1 dp ct show ?thesis by (simp add: countTimer_rearm_same)
qed

text \<open>The same along a run whose every prefix keeps the countdown's
  dependencies.\<close>

lemma srun_steady_count:
  "timerActive (sgame S) \<Longrightarrow> countTimer S = Some e \<Longrightarrow> srun rnd S evs = Some S' \<Longrightarrow>
   (\<forall>k \<le> length evs. \<exists>T. srun rnd S (take k evs) = Some T \<and> timerDeps (sgame T) = timerDeps (sgame S)) \<Longrightarrow>
   \<exists>e'. countTimer S' = Some e' \<and> now S' - now S + e = e' + 1000 * (timeLeft (sgame S) - timeLeft (sgame S'))"
proof (induction evs arbitrary: S e)
  case Nil
  then show ?case by simp
next
  case (Cons ev evs)
  from Cons.prems(3) obtain S1 where st: "sstep rnd S ev = Some S1" and rn: "srun rnd S1 evs = Some S'"
    by (auto split: option.splits)
  have dp: "timerDeps (sgame S1) = timerDeps (sgame S)"
    using Cons.prems(4) [rule_format, of 1] st by simp
  obtain e1 where c1: "countTimer S1 = Some e1"
    and eq1: "now S1 - now S + e = e1 + 1000 * (timeLeft (sgame S) - timeLeft (sgame S1))"
    using sstep_steady_count [OF Cons.prems(1,2) st dp] by blast
  have act1: "timerActive (sgame S1)" using Cons.prems(1) timerDeps_active [OF dp] by simp
  have "\<forall>k \<le> length evs. \<exists>T. srun rnd S1 (take k evs) = Some T \<and> timerDeps (sgame T) = timerDeps (sgame S1)"
  proof (intro allI impI)
    fix k assume "k \<le> length evs"
    then obtain T where "srun rnd S (take (Suc k) (ev # evs)) = Some T" "timerDeps (sgame T) = timerDeps (sgame S)"
      using Cons.prems(4) by fastforce
    with st dp show "\<exists>T. srun rnd S1 (take k evs) = Some T \<and> timerDeps (sgame T) = timerDeps (sgame S1)"
      by auto
  qed
  from Cons.IH [OF act1 c1 rn this] obtain e' where "countTimer S' = Some e'"
    and "now S' - now S1 + e1 = e' + 1000 * (timeLeft (sgame S1) - timeLeft (sgame S'))"
    by blast
  with eq1 show ?case by (intro exI [of _ e']) simp
qed

text \<open>C36: a running timed game cannot outlast its countdown.  Along any run
  that keeps the countdown's dependencies (the state, the mode, the score and
  the pause flag) as they are at the start, the clock advances by at most the
  seconds left less the countdown's elapsed part; a longer stretch of play needs
  a score change or a pause, each of which restarts the countdown's second.\<close>

theorem timed_game_bounded:
  assumes "validRng rnd" and "sreach rnd S" and "timerActive (sgame S)" and "countTimer S = Some e"
    and "srun rnd S evs = Some S'"
    and "\<forall>k \<le> length evs. \<exists>T. srun rnd S (take k evs) = Some T \<and> timerDeps (sgame T) = timerDeps (sgame S)"
  shows "now S' - now S + e \<le> 1000 * timeLeft (sgame S)"
proof -
  obtain e' where c: "countTimer S' = Some e'"
    and eq: "now S' - now S + e = e' + 1000 * (timeLeft (sgame S) - timeLeft (sgame S'))"
    using srun_steady_count [OF assms(3,4,5,6)] by blast
  have inv: "schedOk S' \<and> reachable rnd (sgame S')"
    using sreach_inv [OF assms(1) srun_sreach [OF assms(2,5)]] .
  have "e' \<le> 1000" using inv c by (simp add: schedOk_def)
  moreover have "timerDeps (sgame S') = timerDeps (sgame S)"
    using assms(6) [rule_format, of "length evs"] assms(5) by simp
  then have "timerActive (sgame S')" using assms(3) timerDeps_active by blast
  then have "1 \<le> timeLeft (sgame S')"
    using inv reachable_timeLeft_pos by (auto simp: timerActive_def)
  ultimately show ?thesis using eq unfolding right_diff_distrib by linarith
qed

theorem timed_game_bounded_witness:
  "validRng (\<lambda>_. 1 / 4) \<and>
   sreach (\<lambda>_. 1 / 4)
     \<lparr>sgame = initialGame\<lparr>gameState := PLAYING, gameMode := TIMED, food := \<lparr>px = 5, py = 5\<rparr>,
        randCalls := 2\<rparr>,
      loopTimer = Some (140, 0), countTimer = Some 0, bonusTimer = None, now = 0\<rparr> \<and>
   srun (\<lambda>_. 1 / 4)
     \<lparr>sgame = initialGame\<lparr>gameState := PLAYING, gameMode := TIMED, food := \<lparr>px = 5, py = 5\<rparr>,
        randCalls := 2\<rparr>,
      loopTimer = Some (140, 0), countTimer = Some 0, bonusTimer = None, now = 0\<rparr> [Elapse 140] =
   Some \<lparr>sgame = initialGame\<lparr>gameState := PLAYING, gameMode := TIMED, food := \<lparr>px = 5, py = 5\<rparr>,
        randCalls := 2\<rparr>,
      loopTimer = Some (140, 140), countTimer = Some 140, bonusTimer = None, now = 140\<rparr> \<and>
   (140 :: int) - 0 + 0 \<le> 1000 * 60"
proof -
  have v: "validRng (\<lambda>_. 1 / 4)" by (simp add: validRng_def)
  have "srun (\<lambda>_. 1 / 4) initSched [Input (ChooseMode TIMED)] =
     Some \<lparr>sgame = initialGame\<lparr>gameState := PLAYING, gameMode := TIMED, food := \<lparr>px = 5, py = 5\<rparr>,
        randCalls := 2\<rparr>,
      loopTimer = Some (140, 0), countTimer = Some 0, bonusTimer = None, now = 0\<rparr>"
    by (simp add: run_simps)
  then have r: "sreach (\<lambda>_. 1 / 4)
     \<lparr>sgame = initialGame\<lparr>gameState := PLAYING, gameMode := TIMED, food := \<lparr>px = 5, py = 5\<rparr>,
        randCalls := 2\<rparr>,
      loopTimer = Some (140, 0), countTimer = Some 0, bonusTimer = None, now = 0\<rparr>"
    by (rule srun_sreach [OF sreach.init])
  have a: "timerActive (initialGame\<lparr>gameState := PLAYING, gameMode := TIMED, food := \<lparr>px = 5, py = 5\<rparr>,
        randCalls := 2\<rparr>)" by (simp add: run_simps)
  have s: "srun (\<lambda>_. 1 / 4)
     \<lparr>sgame = initialGame\<lparr>gameState := PLAYING, gameMode := TIMED, food := \<lparr>px = 5, py = 5\<rparr>,
        randCalls := 2\<rparr>,
      loopTimer = Some (140, 0), countTimer = Some 0, bonusTimer = None, now = 0\<rparr> [Elapse 140] =
   Some \<lparr>sgame = initialGame\<lparr>gameState := PLAYING, gameMode := TIMED, food := \<lparr>px = 5, py = 5\<rparr>,
        randCalls := 2\<rparr>,
      loopTimer = Some (140, 140), countTimer = Some 140, bonusTimer = None, now = 140\<rparr>"
    by (simp add: run_simps)
  have k: "\<forall>k \<le> length [Elapse 140]. \<exists>T. srun (\<lambda>_. 1 / 4)
     \<lparr>sgame = initialGame\<lparr>gameState := PLAYING, gameMode := TIMED, food := \<lparr>px = 5, py = 5\<rparr>,
        randCalls := 2\<rparr>,
      loopTimer = Some (140, 0), countTimer = Some 0, bonusTimer = None, now = 0\<rparr> (take k [Elapse 140]) = Some T \<and>
     timerDeps (sgame T) = timerDeps (initialGame\<lparr>gameState := PLAYING, gameMode := TIMED,
        food := \<lparr>px = 5, py = 5\<rparr>, randCalls := 2\<rparr>)"
  proof (intro allI impI)
    fix k :: nat assume "k \<le> length [Elapse 140]"
    then have "k = 0 \<or> k = 1" by auto
    then show "\<exists>T. srun (\<lambda>_. 1 / 4)
     \<lparr>sgame = initialGame\<lparr>gameState := PLAYING, gameMode := TIMED, food := \<lparr>px = 5, py = 5\<rparr>,
        randCalls := 2\<rparr>,
      loopTimer = Some (140, 0), countTimer = Some 0, bonusTimer = None, now = 0\<rparr> (take k [Elapse 140]) = Some T \<and>
     timerDeps (sgame T) = timerDeps (initialGame\<lparr>gameState := PLAYING, gameMode := TIMED,
        food := \<lparr>px = 5, py = 5\<rparr>, randCalls := 2\<rparr>)"
      using s by auto
  qed
  have "140 - 0 + 0 \<le> 1000 * timeLeft (initialGame\<lparr>gameState := PLAYING, gameMode := TIMED,
        food := \<lparr>px = 5, py = 5\<rparr>, randCalls := 2\<rparr>)"
    using timed_game_bounded [OF v r _ _ s] a k by simp
  with v r s show ?thesis by (simp add: initialGame_def TIMED_DURATION_def)
qed

end
