(* ===== verification/Render.thy ===== *)
theory Render
  imports Ui
begin

text \<open>
  What \<open>SnakeGame.tsx\<close> draws on the board while a game is running.  Each
  sprite is an absolutely positioned box whose \<open>left\<close> and \<open>top\<close> are
  \<open>(x / GRID_SIZE) * 100\<close> percent and whose width and height are
  \<open>100 / GRID_SIZE\<close> percent (\<open>cellPercent\<close>, \<open>cellSize\<close>, \<open>cellBox\<close>).  The
  head is rotated by \<open>headRotation\<close>, computed from the head and the second
  segment; the segments are keyed by \<open>segmentKey\<close>.  \<open>boardSprites\<close> lists the
  sprites in document order.  The lemmas show that every sprite of a reachable
  state lies inside the board, that the food and the segments never overlap,
  that the head drawn after a tick faces the way the snake moved, and that the
  segment keys are distinct.  Percentages are exact rationals, the values the
  browser's floating-point division approximates.
\<close>

section \<open>Definitions\<close>

definition cellPercent :: "int \<Rightarrow> rat" where
  "cellPercent c = of_int c / of_int GRID_SIZE * 100"

definition cellSize :: rat where
  "cellSize = 100 / of_int GRID_SIZE"

definition cellBox :: "Point \<Rightarrow> rat \<times> rat" where
  "cellBox p = (cellPercent (px p), cellPercent (py p))"

text \<open>The rotation of the head in degrees (\<open>snake.map\<close>, index 0).\<close>

definition headRotation :: "Point list \<Rightarrow> int" where
  "headRotation s =
     (case s of
        segment # next # _ \<Rightarrow>
          (if px segment > px next then 90
           else if px segment < px next then 270
           else if py segment > py next then 180
           else 0)
      | _ \<Rightarrow> 0)"

datatype Sprite = FoodSprite | BonusSprite | HeadSprite int | BodySprite

definition boardSprites :: "Game \<Rightarrow> (Sprite \<times> rat \<times> rat) list" where
  "boardSprites g =
     (if gameState g = PLAYING then
        [(FoodSprite, cellBox (food g))] @
        (case bonusFood g of None \<Rightarrow> [] | Some b \<Rightarrow> [(BonusSprite, cellBox b)]) @
        map (\<lambda>(segment, index).
               (if index = 0 then HeadSprite (headRotation (snake g)) else BodySprite, cellBox segment))
            (zip (snake g) [0..<length (snake g)])
      else [])"

text \<open>The angle at which a head moving in direction \<open>d\<close> is drawn (the head
  image points up).\<close>

fun faceAngle :: "Dir \<Rightarrow> int" where
  "faceAngle UP = 0"
| "faceAngle RIGHT = 90"
| "faceAngle DOWN = 180"
| "faceAngle LEFT = 270"

definition insideBoard :: "rat \<times> rat \<Rightarrow> bool" where
  "insideBoard b \<longleftrightarrow> 0 \<le> fst b \<and> fst b + cellSize \<le> 100 \<and> 0 \<le> snd b \<and> snd b + cellSize \<le> 100"

definition boxesOverlap :: "rat \<times> rat \<Rightarrow> rat \<times> rat \<Rightarrow> bool" where
  "boxesOverlap a b \<longleftrightarrow> \<bar>fst a - fst b\<bar> < cellSize \<and> \<bar>snd a - snd b\<bar> < cellSize"

text \<open>The template literal \<open>`${segment.x}-${segment.y}-${index}`\<close> of a
  segment's React key: integers are written in decimal, negative ones with a
  leading minus sign.\<close>

definition digitChar :: "nat \<Rightarrow> char" where
  "digitChar n = char_of (48 + n)"

fun natStr :: "nat \<Rightarrow> string" where
  "natStr n = (if n < 10 then [digitChar n] else natStr (n div 10) @ [digitChar (n mod 10)])"

declare natStr.simps [simp del]

definition intStr :: "int \<Rightarrow> string" where
  "intStr i = (if i < 0 then CHR ''-'' # natStr (nat (- i)) else natStr (nat i))"

definition segmentKey :: "Point \<Rightarrow> nat \<Rightarrow> string" where
  "segmentKey segment index = intStr (px segment) @ ''-'' @ intStr (py segment) @ ''-'' @ natStr index"

text \<open>Reading a key back: the inverse of \<open>segmentKey\<close>, which the proofs use to
  show that distinct segments or indices give distinct keys.\<close>

definition isDigit :: "char \<Rightarrow> bool" where
  "isDigit c \<longleftrightarrow> (48 :: nat) \<le> of_char c \<and> of_char c \<le> (57 :: nat)"

definition natOf :: "string \<Rightarrow> nat" where
  "natOf s = foldl (\<lambda>n c. 10 * n + (of_char c - 48)) 0 s"

definition parseNum :: "string \<Rightarrow> (nat \<times> string) option" where
  "parseNum s =
     (let ds = takeWhile isDigit s in if ds = [] then None else Some (natOf ds, dropWhile isDigit s))"

fun parseInt :: "string \<Rightarrow> (int \<times> string) option" where
  "parseInt [] = None"
| "parseInt (c # s) =
     (if c = CHR ''-'' then map_option (\<lambda>(n, r). (- int n, r)) (parseNum s)
      else map_option (\<lambda>(n, r). (int n, r)) (parseNum (c # s)))"

definition parseKey :: "string \<Rightarrow> (Point \<times> nat) option" where
  "parseKey s =
     (case parseInt s of
        Some (x, r1) \<Rightarrow>
          (if r1 \<noteq> [] \<and> hd r1 = CHR ''-'' then
             (case parseInt (tl r1) of
                Some (y, r2) \<Rightarrow>
                  (if r2 \<noteq> [] \<and> hd r2 = CHR ''-'' then
                     (case parseNum (tl r2) of
                        Some (i, []) \<Rightarrow> Some (\<lparr>px = x, py = y\<rparr>, i)
                      | _ \<Rightarrow> None)
                   else None)
              | None \<Rightarrow> None)
           else None)
      | None \<Rightarrow> None)"

text \<open>The controls the component renders, as the events they raise, in
  document order: the pause button of the score board, the resume button of the
  pause overlay, the difficulty and mode buttons of the menu, the buttons of the
  game-over screen and the four arrows of the touch pad.\<close>

definition visibleControls :: "Game \<Rightarrow> Event list" where
  "visibleControls g =
     (if gameState g = PLAYING then [PauseButton] else []) @
     (if isPaused g \<and> gameState g = PLAYING then [PauseButton] else []) @
     (if gameState g = MENU
      then map PickDifficulty [EASY, MEDIUM, HARD] @ [ChooseMode UNLIMITED, ChooseMode TIMED] else []) @
     (if gameState g = GAME_OVER then [ChangeMode, TryAgain] else []) @
     (if gameState g = PLAYING then map TouchDir [UP, LEFT, DOWN, RIGHT] else [])"

section \<open>Lemmas\<close>

lemma cellPercent_eq: "cellPercent c = 5 * of_int c"
  by (simp add: cellPercent_def GRID_SIZE_def)

lemma cellSize_eq: "cellSize = 5"
  by (simp add: cellSize_def GRID_SIZE_def)

lemma inBounds_insideBoard: "inBounds p \<Longrightarrow> insideBoard (cellBox p)"
  by (simp add: inBounds_def insideBoard_def cellBox_def cellPercent_eq cellSize_eq GRID_SIZE_def)

text \<open>Two cells' boxes overlap exactly when the cells are equal.\<close>

lemma of_int_abs_less_one: "\<bar>5 * (of_int a :: rat) - 5 * of_int b\<bar> < 5 \<longleftrightarrow> a = b"
proof (cases "a = b")
  case False
  then have "a + 1 \<le> b \<or> b + 1 \<le> a" by linarith
  then have "of_int (a + 1) \<le> (of_int b :: rat) \<or> of_int (b + 1) \<le> (of_int a :: rat)"
    by (simp only: of_int_le_iff)
  with False show ?thesis by auto
qed simp

lemma boxesOverlap_cellBox [simp]: "boxesOverlap (cellBox p) (cellBox q) \<longleftrightarrow> p = q"
  by (simp add: boxesOverlap_def cellBox_def cellPercent_eq cellSize_eq of_int_abs_less_one)

lemma headRotation_advance: "headRotation (advance h (dirVec d) # h # rest) = faceAngle d"
  by (cases d) (simp_all add: headRotation_def advance_def)

lemma growTo_moveTo_second:
  "Suc 0 < length ys \<Longrightarrow> ys = growTo nh (h # t) \<or> ys = moveTo nh (h # t) \<Longrightarrow>
   \<exists>rest. ys = nh # h # rest"
  by (cases t) (auto simp: growTo_def moveTo_def)

lemma map_fst_zip_upt: "map (\<lambda>p. f (fst p)) (zip xs [0..<length xs]) = map f xs"
proof -
  have "map (\<lambda>p. f (fst p)) (zip xs [0..<length xs]) = map f (map fst (zip xs [0..<length xs]))"
    by (simp only: map_map comp_def)
  also have "\<dots> = map f xs" by simp
  finally show ?thesis .
qed

lemma boardSprites_boxes:
  "gameState g = PLAYING \<Longrightarrow>
   map snd (boardSprites g) =
     cellBox (food g) # (case bonusFood g of None \<Rightarrow> [] | Some b \<Rightarrow> [cellBox b]) @ map cellBox (snake g)"
  by (simp add: boardSprites_def comp_def case_prod_beta map_fst_zip_upt split: option.splits)

subsection \<open>Segment keys\<close>

lemma of_char_digitChar: "n < 10 \<Longrightarrow> of_char (digitChar n) = 48 + n"
  by (simp add: digitChar_def)

lemma isDigit_digitChar: "n < 10 \<Longrightarrow> isDigit (digitChar n)"
  by (simp add: isDigit_def of_char_digitChar)

lemma minus_not_digit [simp]: "\<not> isDigit CHR ''-''"
  by (simp add: isDigit_def)

lemma natStr_digits: "c \<in> set (natStr n) \<Longrightarrow> isDigit c"
proof (induction n rule: natStr.induct)
  case (1 n)
  then show ?case
    by (subst (asm) natStr.simps) (auto simp: isDigit_digitChar split: if_splits)
qed

lemma natStr_Cons: "\<exists>c cs. natStr n = c # cs"
  by (subst natStr.simps) (cases "natStr (n div 10)", auto)

lemma natOf_natStr: "natOf (natStr n) = n"
proof (induction n rule: natStr.induct)
  case (1 n)
  show ?case
  proof (cases "n < 10")
    case True
    then show ?thesis by (subst natStr.simps) (simp add: natOf_def of_char_digitChar)
  next
    case False
    then have "natOf (natStr n) = 10 * natOf (natStr (n div 10)) + n mod 10"
      by (subst natStr.simps) (simp add: natOf_def of_char_digitChar)
    with 1 False show ?thesis by simp
  qed
qed

lemma takeWhile_digits_stop: "r = [] \<or> \<not> isDigit (hd r) \<Longrightarrow> takeWhile isDigit r = [] \<and> dropWhile isDigit r = r"
  by (cases r) auto

lemma parseNum_natStr:
  assumes "r = [] \<or> \<not> isDigit (hd r)"
  shows "parseNum (natStr n @ r) = Some (n, r)"
proof -
  have "takeWhile isDigit (natStr n @ r) = natStr n" and "dropWhile isDigit (natStr n @ r) = r"
    using takeWhile_digits_stop [OF assms] natStr_digits
    by (simp_all add: takeWhile_append2 dropWhile_append2)
  moreover have "natStr n \<noteq> []" using natStr_Cons [of n] by auto
  ultimately show ?thesis by (simp add: parseNum_def natOf_natStr)
qed

lemma parseInt_intStr:
  assumes "r = [] \<or> \<not> isDigit (hd r)"
  shows "parseInt (intStr i @ r) = Some (i, r)"
proof (cases "i < 0")
  case True
  then show ?thesis by (simp add: intStr_def parseNum_natStr [OF assms])
next
  case False
  obtain c cs where ncs: "natStr (nat i) = c # cs" using natStr_Cons by blast
  then have "c \<noteq> CHR ''-''" using natStr_digits [of c "nat i"] by auto
  with False ncs show ?thesis
    using parseNum_natStr [OF assms, of "nat i"] by (simp add: intStr_def)
qed

lemma parseKey_segmentKey: "parseKey (segmentKey p i) = Some (p, i)"
proof -
  have "parseInt (segmentKey p i) = Some (px p, CHR ''-'' # intStr (py p) @ ''-'' @ natStr i)"
    unfolding segmentKey_def using parseInt_intStr [of "''-'' @ intStr (py p) @ ''-'' @ natStr i"]
    by simp
  moreover have "parseInt (intStr (py p) @ ''-'' @ natStr i) = Some (py p, CHR ''-'' # natStr i)"
    using parseInt_intStr [of "''-'' @ natStr i"] by simp
  moreover have "parseNum (natStr i) = Some (i, [])" using parseNum_natStr [of "[]" i] by simp
  ultimately show ?thesis by (simp add: parseKey_def)
qed

subsection \<open>The board\<close>

lemma boardSprites_nonbonus:
  "map snd [s \<leftarrow> boardSprites g. fst s \<noteq> BonusSprite] =
     (if gameState g = PLAYING then map cellBox (food g # snake g) else [])"
proof -
  have "[s \<leftarrow> map (\<lambda>(segment, index).
               (if index = 0 then HeadSprite (headRotation (snake g)) else BodySprite, cellBox segment))
             (zip (snake g) [0..<length (snake g)]). fst s \<noteq> BonusSprite] =
        map (\<lambda>(segment, index).
               (if index = 0 then HeadSprite (headRotation (snake g)) else BodySprite, cellBox segment))
             (zip (snake g) [0..<length (snake g)])"
    by (rule filter_True) (auto split: if_splits)
  then show ?thesis
    by (simp add: boardSprites_def comp_def case_prod_beta map_fst_zip_upt split: option.splits)
qed

lemma distinct_cells_no_overlap:
  "distinct cs \<Longrightarrow> i < j \<Longrightarrow> j < length cs \<Longrightarrow> \<not> boxesOverlap (map cellBox cs ! i) (map cellBox cs ! j)"
  by (simp add: nth_eq_iff_index_eq)

lemma wfGame_sprites_inside:
  assumes "wfGame g" and "b \<in> snd ` set (boardSprites g)"
  shows "insideBoard b"
proof -
  have pl: "gameState g = PLAYING"
  proof (rule ccontr)
    assume "gameState g \<noteq> PLAYING"
    then have "boardSprites g = []" by (simp add: boardSprites_def)
    with assms(2) show False by simp
  qed
  have "b \<in> set (map snd (boardSprites g))" using assms(2) by simp
  then obtain c where b: "b = cellBox c"
    and c: "c = food g \<or> bonusFood g = Some c \<or> c \<in> set (snake g)"
    unfolding boardSprites_boxes [OF pl] by (auto split: option.splits)
  have "inBounds c"
    using assms(1) c by (auto simp: wfGame_def snakeOk_def bonusOk_def list_all_iff)
  then show ?thesis unfolding b by (rule inBounds_insideBoard)
qed

lemma segmentKey_inj: "inj (\<lambda>(segment, index). segmentKey segment index)"
proof (rule injI)
  fix a b :: "Point \<times> nat"
  assume "(\<lambda>(segment, index). segmentKey segment index) a = (\<lambda>(segment, index). segmentKey segment index) b"
  then have "parseKey (segmentKey (fst a) (snd a)) = parseKey (segmentKey (fst b) (snd b))"
    by (simp add: case_prod_beta)
  then show "a = b" by (simp add: parseKey_segmentKey prod_eq_iff)
qed

text \<open>C33: after a tick that does not end the game, the head of a snake of two
  or more segments is drawn facing the direction the tick moved it in.\<close>

theorem tick_head_faces_move:
  assumes "moveSnake rnd g = Some (Inr g')" and "gameState g' \<noteq> GAME_OVER"
    and "directionRef g = dirVec d" and "Suc 0 < length (snake g')"
  shows "headRotation (snake g') = faceAngle d"
proof -
  have "g' \<noteq> handleGameOver g" using assms(2) by (auto simp: handleGameOver_def)
  with moveSnake_Inr_cases [OF assms(1)] obtain h t where
    sh: "snake g' = growTo (advance h (dirVec d)) (h # t) \<or> snake g' = moveTo (advance h (dirVec d)) (h # t)"
    using assms(3) by (cases "snake g") auto
  obtain rest where "snake g' = advance h (dirVec d) # h # rest"
    using growTo_moveTo_second [OF assms(4) sh] by blast
  then show ?thesis by (simp add: headRotation_advance)
qed

theorem tick_head_faces_move_witness:
  "moveSnake (\<lambda>_. 1 / 2) (initialGame\<lparr>gameState := PLAYING,
       snake := [\<lparr>px = 10, py = 10\<rparr>, \<lparr>px = 9, py = 10\<rparr>]\<rparr>) =
     Some (Inr (initialGame\<lparr>gameState := PLAYING,
       snake := [\<lparr>px = 11, py = 10\<rparr>, \<lparr>px = 10, py = 10\<rparr>]\<rparr>)) \<and>
   headRotation [\<lparr>px = 11, py = 10\<rparr>, \<lparr>px = 10, py = 10\<rparr>] = 90"
proof -
  have m: "moveSnake (\<lambda>_. 1 / 2) (initialGame\<lparr>gameState := PLAYING,
       snake := [\<lparr>px = 10, py = 10\<rparr>, \<lparr>px = 9, py = 10\<rparr>]\<rparr>) =
     Some (Inr (initialGame\<lparr>gameState := PLAYING,
       snake := [\<lparr>px = 11, py = 10\<rparr>, \<lparr>px = 10, py = 10\<rparr>]\<rparr>))"
    by (simp add: moveSnake_def initialGame_def advance_def wallCollision_def GRID_SIZE_def
        moveTo_def growTo_def)
  have "headRotation (snake (initialGame\<lparr>gameState := PLAYING,
       snake := [\<lparr>px = 11, py = 10\<rparr>, \<lparr>px = 10, py = 10\<rparr>]\<rparr>)) = faceAngle RIGHT"
    by (rule tick_head_faces_move [OF m]) (simp_all add: initialGame_def)
  with m show ?thesis by simp
qed

text \<open>C34: in every reachable state each sprite on the board lies inside the
  board, and no two of the food and snake sprites overlap (the bonus may
  overlap the food, see C17).\<close>

theorem board_sprites_ok:
  assumes "validRng rnd" and "reachable rnd g"
  shows "(\<forall>b \<in> snd ` set (boardSprites g). insideBoard b) \<and>
         (\<forall>i j. i < j \<longrightarrow> j < length [s \<leftarrow> boardSprites g. fst s \<noteq> BonusSprite] \<longrightarrow>
            \<not> boxesOverlap (snd ([s \<leftarrow> boardSprites g. fst s \<noteq> BonusSprite] ! i))
                           (snd ([s \<leftarrow> boardSprites g. fst s \<noteq> BonusSprite] ! j)))"
proof -
  have wf: "wfGame g" using assms by (rule wfGame_reachable)
  have d: "distinct (food g # snake g)" using wf by (simp add: wfGame_def snakeOk_def)
  have "\<not> boxesOverlap (snd ([s \<leftarrow> boardSprites g. fst s \<noteq> BonusSprite] ! i))
                        (snd ([s \<leftarrow> boardSprites g. fst s \<noteq> BonusSprite] ! j))"
    if "i < j" "j < length [s \<leftarrow> boardSprites g. fst s \<noteq> BonusSprite]" for i j
  proof -
    let ?L = "[s \<leftarrow> boardSprites g. fst s \<noteq> BonusSprite]"
    have "j < length (map snd ?L)" using that(2) by simp
    then have pl: "gameState g = PLAYING" and len: "j < length (map cellBox (food g # snake g))"
      unfolding boardSprites_nonbonus by (simp_all split: if_splits)
    have "snd (?L ! i) = map snd ?L ! i" "snd (?L ! j) = map snd ?L ! j" using that by simp_all
    with distinct_cells_no_overlap [OF d that(1)] len pl show ?thesis
      by (simp add: boardSprites_nonbonus)
  qed
  with wfGame_sprites_inside [OF wf] show ?thesis by blast
qed

theorem board_sprites_ok_witness:
  "validRng (\<lambda>_. 1 / 4) \<and>
   reachable (\<lambda>_. 1 / 4) (initialGame\<lparr>gameState := PLAYING, food := \<lparr>px = 5, py = 5\<rparr>, randCalls := 2,
                                        snake := [\<lparr>px = 11, py = 10\<rparr>]\<rparr>) \<and>
   insideBoard (cellBox \<lparr>px = 5, py = 5\<rparr>) \<and>
   \<not> boxesOverlap (cellBox \<lparr>px = 5, py = 5\<rparr>) (cellBox \<lparr>px = 11, py = 10\<rparr>)"
proof -
  let ?g = "initialGame\<lparr>gameState := PLAYING, food := \<lparr>px = 5, py = 5\<rparr>, randCalls := 2,
                        snake := [\<lparr>px = 11, py = 10\<rparr>]\<rparr>"
  have v: "validRng (\<lambda>_. 1 / 4)" by (simp add: validRng_def)
  have sp: "boardSprites ?g = [(FoodSprite, cellBox \<lparr>px = 5, py = 5\<rparr>),
                               (HeadSprite 0, cellBox \<lparr>px = 11, py = 10\<rparr>)]"
    by (simp add: boardSprites_def initialGame_def headRotation_def)
  from board_sprites_ok [OF v session_reachable] have
    "insideBoard (cellBox \<lparr>px = 5, py = 5\<rparr>) \<and>
     \<not> boxesOverlap (cellBox \<lparr>px = 5, py = 5\<rparr>) (cellBox \<lparr>px = 11, py = 10\<rparr>)"
    unfolding sp by (auto dest: spec [of _ 0] spec [of _ 1])
  with v session_reachable show ?thesis by blast
qed

text \<open>C35: the React key of a segment reads back as the segment and its
  index, so the keys of the rendered snake are pairwise distinct whatever its
  cells.\<close>

theorem segmentKey_roundtrip:
  "parseKey (segmentKey p i) = Some (p, i) \<and>
   distinct (map (\<lambda>(segment, index). segmentKey segment index) (zip segs [0..<length segs]))"
  using parseKey_segmentKey [of p i]
  by (simp add: distinct_map inj_on_subset [OF segmentKey_inj] distinct_zipI2)

text \<open>Consistency of the two readings of the same JSX conditions: once mounted,
  the controls the component renders are the user events \<open>enabled\<close> admits.
  Before mount the component renders a placeholder with no control at all.\<close>

lemma controls_match_enabled:
  assumes "e \<notin> {Tick, Second, BonusTimeout}" and "\<forall>k. e \<noteq> KeyDown k"
  shows "e \<in> set (visibleControls g) \<longleftrightarrow> enabled g e"
  using assms
  by (cases e) (auto simp: visibleControls_def, (metis Dir.exhaust Difficulty.exhaust GameMode.exhaust)+)

lemma controls_match_enabled_witness:
  "ChooseMode TIMED \<notin> {Tick, Second, BonusTimeout} \<and> (\<forall>k. ChooseMode TIMED \<noteq> KeyDown k) \<and>
   ChooseMode TIMED \<in> set (visibleControls initialGame) \<and> enabled initialGame (ChooseMode TIMED) \<and>
   PauseButton \<notin> set (visibleControls initialGame)"
proof -
  have a: "ChooseMode TIMED \<notin> {Tick, Second, BonusTimeout}" "\<forall>k. ChooseMode TIMED \<noteq> KeyDown k" by simp_all
  have p: "PauseButton \<notin> {Tick, Second, BonusTimeout}" "\<forall>k. PauseButton \<noteq> KeyDown k" by simp_all
  have en: "enabled initialGame (ChooseMode TIMED)" "\<not> enabled initialGame PauseButton"
    by (simp_all add: initialGame_def)
  show ?thesis
    using controls_match_enabled [OF a, of initialGame] controls_match_enabled [OF p, of initialGame] a en
    by blast
qed

end
