(* ===== verification/Spec2Isabelle.thy ===== *)
theory Spec2Isabelle
  imports Ui AbstractGame Scheduler Countdown Render
begin

text \<open>
  \<^bold>\<open>A verification library for the snake game of Kashcom/SNAKE_GAME_MNSUAM.\<close>

  \<^bold>\<open>The program.\<close>  All game logic lives in the React hook \<open>useSnakeGame\<close>
  (\<open>src/hooks/useSnakeGame.ts\<close>): a set of \<open>useState\<close>/\<open>useRef\<close> cells, the
  handlers \<open>generateFood\<close>, \<open>handleGameOver\<close>, \<open>togglePause\<close>, \<open>resetGame\<close>,
  \<open>moveSnake\<close> and \<open>handleDirection\<close>, and four effects that arm a keyboard
  listener, the game-loop interval, the one-second countdown of timed mode and
  the five-second bonus timer.  The component \<open>SnakeGame\<close>
  (\<open>src/components/SnakeGame.tsx\<close>) renders the state and offers, depending on
  the game state, buttons that call the hook's handlers.  The parts interact
  through the hook's state only: every handler reads the state it closes over
  and queues updates.

  \<^bold>\<open>The model\<close>, one theory per part, each importing the parts it calls:
  \<^item> \<open>Prelude\<close>: the random source \<open>rng = nat \<Rightarrow> rat\<close> (the \<open>i\<close>-th call of
    \<open>Math.random()\<close> returns \<open>rnd i\<close>), the rule collections and generic lemmas.
  \<^item> \<open>Grid\<close>: \<open>Point\<close> (fields \<open>px\<close>, \<open>py\<close> for \<open>x\<close>, \<open>y\<close>), \<open>GRID_SIZE\<close>, the wall
    test \<open>wallCollision\<close> and the occupancy scan \<open>onSnake\<close> (the \<open>.some\<close> calls).
  \<^item> \<open>Food\<close>: \<open>generateFood\<close> as a \<^theory_text>\<open>partial_function (option)\<close> over the
    random source; \<open>None\<close> is the \<open>while (true)\<close> loop that never exits.
    \<open>generateFoodWhile\<close> is the same loop through the library's
    \<open>while_option\<close>.
  \<^item> \<open>Snake\<close>: \<open>advance\<close> (the new head), \<open>growTo\<close> (\<open>[newHead, ...prevSnake]\<close>),
    \<open>moveTo\<close> (the same followed by \<open>pop()\<close>) and the body invariant \<open>snakeOk\<close>.
  \<^item> \<open>Direction\<close>: \<open>handleDirection\<close> (\<open>None\<close> when the guard refuses) and
    the key mapping \<open>keyToDir\<close> of the keydown listener, with the arrow-key
    list \<open>arrowKeys\<close> whose keys \<open>preventDefault\<close> is called on.
  \<^item> \<open>Engine\<close>: the record \<open>Game\<close> with one field per state cell and ref
    (\<open>randCalls\<close> counts the random values used so far), \<open>initialGame\<close>, and the
    handlers.  \<open>moveSnake\<close> is split as the source is: \<open>hitsBonus\<close> (the bonus
    test), \<open>eatFood\<close> (the food branch), \<open>spawnBonus\<close> (the 20\% spawn) and
    \<open>rampSpeed\<close> (the speed ramp).  A handler returns the state after React
    applies the updates it queued, in queue order; \<open>moveSnake\<close> returns
    \<open>(js_error + Game) option\<close>: \<open>Inl TypeError\<close> for reading the head of an
    empty snake, \<open>None\<close> when \<open>generateFood\<close> does not return.  The invariant
    \<open>wfGame\<close> collects what the state keeps true.
  \<^item> \<open>Clock\<close>: the countdown callback \<open>countdownTick\<close>, the bonus-timer callback
    \<open>bonusTimeout\<close>, and the guards under which each effect arms its timer.
  \<^item> \<open>Ui\<close>: the events of a session (timer firings, key presses, the buttons of
    \<open>SnakeGame.tsx\<close>), the guard \<open>enabled\<close> under which each can occur, the
    handler dispatch \<open>step\<close>, and the inductive set \<open>reachable rnd\<close> of states
    reachable from \<open>initialGame\<close>.
  \<^item> \<open>AbstractGame\<close>: the per-tick algorithm of the specification as an
    inductive relation \<open>specTick\<close> on an abstract state (snake, food, bonus,
    score, high score, game over), the abstraction \<open>absGame\<close> from \<open>Game\<close>, and
    the refinement lemma \<open>moveSnake_refines\<close>.
  \<^item> \<open>Scheduler\<close>: the three timer effects of the hook in time.  The record
    \<open>Sched\<close> adds to \<open>Game\<close> the armed timers (the game loop's period and
    elapsed milliseconds, the countdown's and the bonus timer's elapsed
    milliseconds) and the clock \<open>now\<close>; \<open>loopDeps\<close> and \<open>timerDeps\<close> are the
    effects' dependency lists with the callbacks unfolded to the state they
    close over; \<open>rearm\<close> re-runs the effects whose dependencies changed;
    \<open>sstep\<close> lets time pass, fires a due timer or applies a user event of
    \<open>Ui\<close>, \<open>srun\<close> runs a list of them and \<open>sreach\<close> is the set of reachable
    scheduler states.
  \<^item> \<open>Countdown\<close>: the countdown of timed mode along runs of \<open>Scheduler\<close>:
    how the clock, the countdown's elapsed time and \<open>timeLeft\<close> move
    together while the countdown's dependencies stay, and what a score change
    does to them.
  \<^item> \<open>Render\<close>: what \<open>SnakeGame.tsx\<close> draws while a game runs and which
    controls it shows.  \<open>cellPercent\<close>, \<open>cellSize\<close> and \<open>cellBox\<close> are the
    \<open>left\<close>/\<open>top\<close>/\<open>width\<close>/\<open>height\<close> percentages of a sprite,
    \<open>headRotation\<close> the rotation of the head, \<open>segmentKey\<close> (with
    \<open>natStr\<close>, \<open>intStr\<close>) the React key of a segment, \<open>boardSprites\<close> the
    sprites in document order, \<open>visibleControls\<close> the buttons on the screen
    as the events they raise.  \<open>parseKey\<close> and \<open>faceAngle\<close> are
    specification helpers: the inverse of the key and the angle of a
    direction.
  \<^item> this theory: the properties that span components (a tick, the direction
    input between ticks, starting a game, placement of food and bonus, the tick
    against the specification).

  \<^bold>\<open>What is proved.\<close>  Every reachable state satisfies \<open>wfGame\<close> (C1): the snake
  is non-empty, has no repeated cell, stays in the grid and is a chain of
  adjacent cells; food and bonus are in the grid and off the snake; the
  direction is a unit vector equal in \<open>directionRef\<close> and the \<open>direction\<close>
  state; the tick interval stays in \<open>[50, 200]\<close> and the countdown in
  \<open>[0, 60]\<close>; the score is at least the snake's length minus one; a finished
  game's score is in the high score.  The proof is one lemma per handler
  (\<open>wfGame_moveSnake\<close>, \<open>wfGame_resetGame\<close>, ...) and rule induction.  Each
  branch of a tick is stated exactly (C2--C5, C16, C18); \<open>generateFood\<close>
  returns a free in-grid cell (C6), returns exactly when some attempt is free
  and then the first free attempt (C7), and never returns on a full grid (C8);
  the direction guard refuses exactly the reverse of the last accepted request
  (C9) yet two requests between ticks reverse the snake into itself (C10); the
  countdown, speed ramp and pause behave as C11--C13 state; no event lowers
  the high score (C14) or throws (C15); a reachable state can hold the bonus
  on the food cell (C17); \<open>resetGame\<close> starts a game (C20).  A tick refines
  the specification's step exactly when food and bonus do not share the new
  head's cell (C22), and it returns whenever the random sequence keeps
  offering a cell off the grown snake (C23).  In timed mode the tick interval
  stays one of the difficulty speeds (C24).  The key table maps the four arrow keys to the
  four directions and back, and \<open>preventDefault\<close> is called exactly on the
  keys that steer (C25); every event keeps the direction a unit vector, the
  same in the ref and the state (C26).  Every state of the timed scheduler
  keeps its timers in step with the effects' guards and refines a state of
  the event model (C27), so C1--C26 hold of the timed game; a score change
  holds the countdown back by a full second (C28); \<open>countdown_starved_run\<close>
  shows a game that eats twice in 1.26 s without the countdown ever firing.  Pausing cancels
  the game loop and the countdown and resuming re-arms both from a full
  interval (C29); events other than ticks keep the tick phase, except the bonus
  expiry, which restarts it (C30, C31); no tick or countdown second fires
  outside a running game (C32).  After a tick the head is drawn facing the way
  the snake moved (C33); every sprite lies inside the board and the food and
  segments never overlap (C34); segment keys read back as their segment and
  index and are distinct (C35).  While the countdown's dependencies stay as they
  are, a timed game cannot outlast its remaining seconds (C36): the countdown
  works when nothing disturbs it, and C28 shows what disturbs it.
  Supporting lemmas that are not properties of their own: the two encodings
  of the food loop agree (\<open>generateFood_eq_while\<close>), and the mounted
  component's controls are the events \<open>enabled\<close> admits
  (\<open>controls_match_enabled\<close>, a consistency check of the model's two
  readings of the same JSX guards).

  \<^bold>\<open>Bounds and fuel.\<close>  No fuel is used: the only unbounded loop,
  \<open>generateFood\<close>, is a \<^theory_text>\<open>partial_function (option)\<close>, and C7 states when
  it returns.  Random values are rationals; the theorems that need their range
  assume \<open>validRng rnd\<close> (every value in \<open>[0, 1)\<close>), the contract of
  \<open>Math.random()\<close>.  JavaScript numbers are \<open>int\<close>: every value the program
  computes is a small integer.

  Time in \<open>Scheduler\<close> is an integer number of milliseconds; an \<open>Elapse\<close>
  step never passes a due timer, so every firing happens exactly at its
  period, and timers due together fire in any order.

  \<^bold>\<open>Not modelled.\<close>  Of the rendering, the styles and class names, the
  background and header, the placeholder shown before mount (the hydration
  guard, which renders no control), the score board's text and the timer's
  colour: they change no state and \<open>Render\<close> keeps to what a user can see
  or press on the board.  Nor are React's batching beyond the in-order application of queued updates (a timer firing
  between a state update and the re-render that re-arms the effects is not a
  step of \<open>Scheduler\<close>), timer drift of the browser, the StrictMode double
  call of updaters, and persistence of the high score (the code keeps it in
  memory only) modelled.  Every model of a handler assumes it runs on the state of the
  latest render, which holds because \<open>Scheduler\<close> re-arms the effects after
  each state change as React does after each render.

  \<^bold>\<open>Plan for later work.\<close>  Lift the refinement from one tick to runs of
  \<open>reachable\<close> (an abstract session relation for all events, with the pause,
  countdown and direction handlers); liveness of a whole session (a reachable
  playing state always has an enabled event that returns); the strictness of
  the self-collision test as a comparison with the classic rule that frees the
  tail cell first.
\<close>

section \<open>One tick of the game loop\<close>

text \<open>C2: when the new head leaves the grid or lands on any segment of the snake
  before it moves (its tail included), the tick ends the game and changes
  nothing else: the snake, the score and the food stay, and the high score
  becomes the larger of itself and the score.\<close>

theorem tick_collision_ends_game:
  assumes "snake g = h # t"
    and "wallCollision (advance h (directionRef g)) \<or> advance h (directionRef g) \<in> set (snake g)"
  shows "moveSnake rnd g =
           Some (Inr (g\<lparr>gameState := GAME_OVER, highScore := max (highScore g) (score g)\<rparr>))"
proof -
  have "moveSnake rnd g = Some (Inr (handleGameOver g))"
    using assms moveSnake_wall [OF assms(1)] moveSnake_self [OF assms(1)] by blast
  then show ?thesis by (simp add: handleGameOver_def max_def)
qed

theorem tick_collision_ends_game_witness:
  "snake (initialGame\<lparr>gameState := PLAYING, snake := [\<lparr>px = 19, py = 10\<rparr>]\<rparr>) = [\<lparr>px = 19, py = 10\<rparr>] \<and>
   wallCollision (advance \<lparr>px = 19, py = 10\<rparr>
     (directionRef (initialGame\<lparr>gameState := PLAYING, snake := [\<lparr>px = 19, py = 10\<rparr>]\<rparr>))) \<and>
   moveSnake (\<lambda>_. 1 / 2) (initialGame\<lparr>gameState := PLAYING, snake := [\<lparr>px = 19, py = 10\<rparr>]\<rparr>) =
     Some (Inr (initialGame\<lparr>gameState := GAME_OVER, snake := [\<lparr>px = 19, py = 10\<rparr>]\<rparr>))"
proof -
  let ?g = "initialGame\<lparr>gameState := PLAYING, snake := [\<lparr>px = 19, py = 10\<rparr>]\<rparr>"
  have s: "snake ?g = [\<lparr>px = 19, py = 10\<rparr>]" by simp
  have w: "wallCollision (advance \<lparr>px = 19, py = 10\<rparr> (directionRef ?g))"
    by (simp add: initialGame_def advance_def wallCollision_def GRID_SIZE_def)
  show ?thesis
    using s w tick_collision_ends_game [OF s, of "\<lambda>_. 1 / 2"]
    by (simp add: initialGame_def)
qed

text \<open>C3: eating the food (with no bonus on that cell) grows the snake by its
  new head, adds one to the score, draws new food off the grown snake and
  inside the grid, and applies the speed ramp of the current mode; the game
  state, the high score and the direction are unchanged.\<close>

theorem tick_eats_food:
  assumes "validRng rnd" and "snake g = h # t" and "nh = advance h (directionRef g)"
    and "\<not> wallCollision nh" and "nh \<notin> set (snake g)" and "nh = food g"
    and "bonusFood g \<noteq> Some nh" and "moveSnake rnd g = Some (Inr g')"
  shows "snake g' = nh # snake g \<and> score g' = score g + 1 \<and>
         food g' \<notin> set (snake g') \<and> inBounds (food g') \<and>
         speedRef g' = rampSpeed (gameMode g) (speedRef g) \<and>
         gameState g' = gameState g \<and> highScore g' = highScore g \<and>
         directionRef g' = directionRef g"
proof -
  from assms(8) moveSnake_food [OF assms(2,3,4,5,6)] assms(7) obtain g2 where
    g2: "eatFood rnd (growTo nh (snake g)) g g = Some g2" and g': "g' = g2\<lparr>snake := growTo nh (snake g)\<rparr>"
    by auto
  from eatFood_Some [OF g2] assms(1) obtain f b c where
    "g2 = g\<lparr>score := score g + 1, food := f, randCalls := c, bonusFood := b,
            speedRef := rampSpeed (gameMode g) (speedRef g)\<rparr>"
    "f \<notin> set (growTo nh (snake g))" "inBounds f"
    by blast
  with g' show ?thesis by (simp add: growTo_def)
qed

theorem tick_eats_food_witness:
  "validRng (\<lambda>_. 1 / 4) \<and>
   moveSnake (\<lambda>_. 1 / 4) (initialGame\<lparr>gameState := PLAYING, food := \<lparr>px = 11, py = 10\<rparr>\<rparr>) =
     Some (Inr (initialGame\<lparr>gameState := PLAYING, food := \<lparr>px = 5, py = 5\<rparr>, score := 1,
       randCalls := 3, speedRef := 138, snake := [\<lparr>px = 11, py = 10\<rparr>, \<lparr>px = 10, py = 10\<rparr>]\<rparr>)) \<and>
   score (initialGame\<lparr>gameState := PLAYING, food := \<lparr>px = 5, py = 5\<rparr>, score := 1,
       randCalls := 3, speedRef := 138, snake := [\<lparr>px = 11, py = 10\<rparr>, \<lparr>px = 10, py = 10\<rparr>]\<rparr>) = 1"
proof -
  let ?g = "initialGame\<lparr>gameState := PLAYING, food := \<lparr>px = 11, py = 10\<rparr>\<rparr>"
  let ?g' = "initialGame\<lparr>gameState := PLAYING, food := \<lparr>px = 5, py = 5\<rparr>, score := 1,
       randCalls := 3, speedRef := 138, snake := [\<lparr>px = 11, py = 10\<rparr>, \<lparr>px = 10, py = 10\<rparr>]\<rparr>"
  have v: "validRng (\<lambda>_. 1 / 4)" by (simp add: validRng_def)
  have s: "snake ?g = [\<lparr>px = 10, py = 10\<rparr>]" by (simp add: initialGame_def)
  have nh: "\<lparr>px = 11, py = 10\<rparr> = advance \<lparr>px = 10, py = 10\<rparr> (directionRef ?g)"
    by (simp add: initialGame_def advance_def)
  have w: "\<not> wallCollision \<lparr>px = 11, py = 10\<rparr>" by (simp add: wallCollision_def GRID_SIZE_def)
  have m: "moveSnake (\<lambda>_. 1 / 4) ?g = Some (Inr ?g')"
    by (simp add: moveSnake_def initialGame_def advance_def wallCollision_def GRID_SIZE_def
        growTo_def eatFood_def generateFood_unfold drawPoint_def randomCoord_def spawnBonus_def
        rampSpeed_def)
  show ?thesis
    using v m tick_eats_food [OF v s nh w _ _ _ m] by (simp add: initialGame_def)
qed

text \<open>C4: a tick that eats nothing moves the snake: the new head is prepended,
  the last segment dropped, the length kept, and nothing else changes.\<close>

theorem tick_moves:
  assumes "snake g = h # t" and "nh = advance h (directionRef g)" and "\<not> wallCollision nh"
    and "nh \<notin> set (snake g)" and "nh \<noteq> food g" and "bonusFood g \<noteq> Some nh"
  shows "moveSnake rnd g = Some (Inr (g\<lparr>snake := nh # butlast (snake g)\<rparr>)) \<and>
         length (nh # butlast (snake g)) = length (snake g)"
  using moveSnake_move [OF assms] assms(1) by simp

theorem tick_moves_witness:
  "moveSnake (\<lambda>_. 1 / 2) (initialGame\<lparr>gameState := PLAYING,
       snake := [\<lparr>px = 10, py = 10\<rparr>, \<lparr>px = 9, py = 10\<rparr>]\<rparr>) =
     Some (Inr (initialGame\<lparr>gameState := PLAYING,
       snake := [\<lparr>px = 11, py = 10\<rparr>, \<lparr>px = 10, py = 10\<rparr>]\<rparr>))"
proof -
  let ?g = "initialGame\<lparr>gameState := PLAYING, snake := [\<lparr>px = 10, py = 10\<rparr>, \<lparr>px = 9, py = 10\<rparr>]\<rparr>"
  have s: "snake ?g = \<lparr>px = 10, py = 10\<rparr> # [\<lparr>px = 9, py = 10\<rparr>]" by simp
  have nh: "\<lparr>px = 11, py = 10\<rparr> = advance \<lparr>px = 10, py = 10\<rparr> (directionRef ?g)"
    by (simp add: initialGame_def advance_def)
  have w: "\<not> wallCollision \<lparr>px = 11, py = 10\<rparr>" by (simp add: wallCollision_def GRID_SIZE_def)
  show ?thesis
    using tick_moves [OF s nh w, of "\<lambda>_. 1 / 2"] by (simp add: initialGame_def)
qed

text \<open>C5: eating the bonus (where there is no food) adds ten to the score,
  removes the bonus and grows the snake by its new head.\<close>

theorem tick_eats_bonus:
  assumes "snake g = h # t" and "nh = advance h (directionRef g)" and "\<not> wallCollision nh"
    and "nh \<notin> set (snake g)" and "nh \<noteq> food g" and "bonusFood g = Some nh"
  shows "moveSnake rnd g =
           Some (Inr (g\<lparr>score := score g + 10, bonusFood := None, snake := nh # snake g\<rparr>))"
  using moveSnake_bonus [OF assms] by (simp add: growTo_def)

theorem tick_eats_bonus_witness:
  "moveSnake (\<lambda>_. 1 / 2) (initialGame\<lparr>gameState := PLAYING, bonusFood := Some \<lparr>px = 11, py = 10\<rparr>\<rparr>) =
     Some (Inr (initialGame\<lparr>gameState := PLAYING, score := 10,
       snake := [\<lparr>px = 11, py = 10\<rparr>, \<lparr>px = 10, py = 10\<rparr>]\<rparr>))"
proof -
  let ?g = "initialGame\<lparr>gameState := PLAYING, bonusFood := Some \<lparr>px = 11, py = 10\<rparr>\<rparr>"
  have s: "snake ?g = \<lparr>px = 10, py = 10\<rparr> # []" by (simp add: initialGame_def)
  have nh: "\<lparr>px = 11, py = 10\<rparr> = advance \<lparr>px = 10, py = 10\<rparr> (directionRef ?g)"
    by (simp add: initialGame_def advance_def)
  have w: "\<not> wallCollision \<lparr>px = 11, py = 10\<rparr>" by (simp add: wallCollision_def GRID_SIZE_def)
  show ?thesis
    using tick_eats_bonus [OF s nh w, of "\<lambda>_. 1 / 2"] by (simp add: initialGame_def)
qed

text \<open>C16: when the food and the bonus share the new head's cell, the tick
  scores both (eleven points), grows the snake by one cell, removes the bonus
  and draws new food; it does not give the bonus branch precedence.\<close>

theorem tick_food_and_bonus_same_cell:
  assumes "snake g = h # t" and "nh = advance h (directionRef g)" and "\<not> wallCollision nh"
    and "nh \<notin> set (snake g)" and "nh = food g" and "bonusFood g = Some nh"
    and "moveSnake rnd g = Some (Inr g')"
  shows "score g' = score g + 11 \<and> snake g' = nh # snake g \<and> bonusFood g' = None \<and>
         food g' \<noteq> food g"
  using moveSnake_food_and_bonus [OF assms] assms(5) by auto

theorem tick_food_and_bonus_same_cell_witness:
  "moveSnake (\<lambda>_. 1 / 4) (initialGame\<lparr>gameState := PLAYING, food := \<lparr>px = 11, py = 10\<rparr>,
       bonusFood := Some \<lparr>px = 11, py = 10\<rparr>\<rparr>) =
     Some (Inr (initialGame\<lparr>gameState := PLAYING, food := \<lparr>px = 5, py = 5\<rparr>, score := 11,
       randCalls := 2, speedRef := 138, snake := [\<lparr>px = 11, py = 10\<rparr>, \<lparr>px = 10, py = 10\<rparr>]\<rparr>)) \<and>
   score (initialGame\<lparr>gameState := PLAYING, food := \<lparr>px = 5, py = 5\<rparr>, score := 11,
       randCalls := 2, speedRef := 138, snake := [\<lparr>px = 11, py = 10\<rparr>, \<lparr>px = 10, py = 10\<rparr>]\<rparr>) = 11"
proof -
  let ?g = "initialGame\<lparr>gameState := PLAYING, food := \<lparr>px = 11, py = 10\<rparr>,
       bonusFood := Some \<lparr>px = 11, py = 10\<rparr>\<rparr>"
  let ?g' = "initialGame\<lparr>gameState := PLAYING, food := \<lparr>px = 5, py = 5\<rparr>, score := 11,
       randCalls := 2, speedRef := 138, snake := [\<lparr>px = 11, py = 10\<rparr>, \<lparr>px = 10, py = 10\<rparr>]\<rparr>"
  have s: "snake ?g = [\<lparr>px = 10, py = 10\<rparr>]" by (simp add: initialGame_def)
  have nh: "\<lparr>px = 11, py = 10\<rparr> = advance \<lparr>px = 10, py = 10\<rparr> (directionRef ?g)"
    by (simp add: initialGame_def advance_def)
  have w: "\<not> wallCollision \<lparr>px = 11, py = 10\<rparr>" by (simp add: wallCollision_def GRID_SIZE_def)
  have m: "moveSnake (\<lambda>_. 1 / 4) ?g = Some (Inr ?g')"
    by (simp add: moveSnake_def initialGame_def advance_def wallCollision_def GRID_SIZE_def
        growTo_def eatFood_def generateFood_unfold drawPoint_def randomCoord_def spawnBonus_def
        rampSpeed_def)
  show ?thesis
    using m tick_food_and_bonus_same_cell [OF s nh w _ _ _ m] by (simp add: initialGame_def)
qed

text \<open>C18: the self-collision test reads the snake before its tail moves, so
  heading into the cell the tail is about to leave ends the game, although the
  snake after that move would have no repeated cell.\<close>

theorem tail_cell_is_collision:
  assumes "snake g = h # t" and "t \<noteq> []" and "advance h (directionRef g) = last t"
    and "distinct (snake g)"
  shows "moveSnake rnd g = Some (Inr (handleGameOver g)) \<and> distinct (moveTo (last t) (snake g))"
proof
  have "last t \<in> set (snake g)" using assms(1,2) by simp
  then show "moveSnake rnd g = Some (Inr (handleGameOver g))"
    using moveSnake_wall [OF assms(1)] moveSnake_self [OF assms(1)] assms(3) by metis
next
  have "butlast (h # t) @ [last t] = h # t" using assms(2) by (simp add: snoc_eq_iff_butlast)
  then have "last t \<notin> set (butlast (h # t))" "distinct (butlast (h # t))"
    using assms(1,4) distinct_append [of "butlast (h # t)" "[last t]"] by auto
  then show "distinct (moveTo (last t) (snake g))"
    using assms(1) by simp
qed

theorem tail_cell_is_collision_witness:
  "moveSnake (\<lambda>_. 1 / 2) (initialGame\<lparr>gameState := PLAYING,
       snake := [\<lparr>px = 5, py = 5\<rparr>, \<lparr>px = 5, py = 6\<rparr>, \<lparr>px = 6, py = 6\<rparr>, \<lparr>px = 6, py = 5\<rparr>]\<rparr>) =
     Some (Inr (initialGame\<lparr>gameState := GAME_OVER,
       snake := [\<lparr>px = 5, py = 5\<rparr>, \<lparr>px = 5, py = 6\<rparr>, \<lparr>px = 6, py = 6\<rparr>, \<lparr>px = 6, py = 5\<rparr>]\<rparr>)) \<and>
   distinct (moveTo \<lparr>px = 6, py = 5\<rparr>
       [\<lparr>px = 5, py = 5\<rparr>, \<lparr>px = 5, py = 6\<rparr>, \<lparr>px = 6, py = 6\<rparr>, \<lparr>px = 6, py = 5\<rparr>])"
proof -
  let ?t = "[\<lparr>px = 5, py = 6\<rparr>, \<lparr>px = 6, py = 6\<rparr>, \<lparr>px = 6, py = 5\<rparr>]"
  let ?g = "initialGame\<lparr>gameState := PLAYING, snake := \<lparr>px = 5, py = 5\<rparr> # ?t\<rparr>"
  have s: "snake ?g = \<lparr>px = 5, py = 5\<rparr> # ?t" by simp
  have n: "?t \<noteq> []" by simp
  have a: "advance \<lparr>px = 5, py = 5\<rparr> (directionRef ?g) = last ?t"
    by (simp add: initialGame_def advance_def)
  have d: "distinct (snake ?g)" by simp
  show ?thesis
    using tail_cell_is_collision [OF s n a d, of "\<lambda>_. 1 / 2"]
    by (simp add: initialGame_def handleGameOver_def)
qed

section \<open>Direction input between ticks\<close>

text \<open>C10: the reverse guard of \<open>handleDirection\<close> compares a request with the
  last accepted request, not with the direction of the last move.  From any
  snake of two or more segments, two key presses between ticks turn
  \<open>directionRef\<close> around, and the next tick drives the head into the segment
  behind it and ends the game.\<close>

theorem quick_turn_self_collision:
  assumes "snake g = h # h2 # t" and "isDirection (directionRef g)"
    and "h2 = advance h (opposite (directionRef g))"
  shows "\<exists>r1 r2. directionRef (changeDirection r2 (changeDirection r1 g)) = opposite (directionRef g) \<and>
           moveSnake rnd (changeDirection r2 (changeDirection r1 g)) =
             Some (Inr (handleGameOver (changeDirection r2 (changeDirection r1 g))))"
proof -
  obtain r1 r2 v where r1: "handleDirection (directionRef g) r1 = Some v"
    and r2: "handleDirection v r2 = Some (opposite (directionRef g))"
    using two_turns_reverse [OF assms(2)] by blast
  define g2 where "g2 = changeDirection r2 (changeDirection r1 g)"
  have d: "directionRef g2 = opposite (directionRef g)" and s: "snake g2 = h # h2 # t"
    using r1 r2 assms(1) by (simp_all add: g2_def changeDirection_def)
  have "advance h (directionRef g2) \<in> set (snake g2)"
    using d s assms(3) by simp
  then have "moveSnake rnd g2 = Some (Inr (handleGameOver g2))"
    using moveSnake_wall [OF s] moveSnake_self [OF s] by metis
  with d show ?thesis unfolding g2_def by blast
qed

theorem quick_turn_self_collision_witness:
  "changeDirection LEFT (changeDirection UP (initialGame\<lparr>gameState := PLAYING,
       snake := [\<lparr>px = 5, py = 5\<rparr>, \<lparr>px = 4, py = 5\<rparr>]\<rparr>)) =
     initialGame\<lparr>gameState := PLAYING, snake := [\<lparr>px = 5, py = 5\<rparr>, \<lparr>px = 4, py = 5\<rparr>],
       directionRef := \<lparr>px = -1, py = 0\<rparr>, direction := \<lparr>px = -1, py = 0\<rparr>\<rparr> \<and>
   (\<exists>r1 r2. directionRef (changeDirection r2 (changeDirection r1 (initialGame\<lparr>gameState := PLAYING,
       snake := [\<lparr>px = 5, py = 5\<rparr>, \<lparr>px = 4, py = 5\<rparr>]\<rparr>))) = \<lparr>px = -1, py = 0\<rparr>)"
proof -
  let ?g = "initialGame\<lparr>gameState := PLAYING, snake := [\<lparr>px = 5, py = 5\<rparr>, \<lparr>px = 4, py = 5\<rparr>]\<rparr>"
  have s: "snake ?g = \<lparr>px = 5, py = 5\<rparr> # \<lparr>px = 4, py = 5\<rparr> # []" by simp
  have d: "isDirection (directionRef ?g)" by (simp add: initialGame_def isDirection_def)
  have b: "\<lparr>px = 4, py = 5\<rparr> = advance \<lparr>px = 5, py = 5\<rparr> (opposite (directionRef ?g))"
    by (simp add: initialGame_def advance_def opposite_def)
  have e: "changeDirection LEFT (changeDirection UP ?g) =
     initialGame\<lparr>gameState := PLAYING, snake := [\<lparr>px = 5, py = 5\<rparr>, \<lparr>px = 4, py = 5\<rparr>],
       directionRef := \<lparr>px = -1, py = 0\<rparr>, direction := \<lparr>px = -1, py = 0\<rparr>\<rparr>"
    by (simp add: changeDirection_def initialGame_def)
  have o: "opposite (directionRef ?g) = \<lparr>px = -1, py = 0\<rparr>"
    by (simp add: opposite_def initialGame_def)
  from quick_turn_self_collision [OF s d b, of "\<lambda>_. 1 / 2"] obtain r1 r2 where
    "directionRef (changeDirection r2 (changeDirection r1 ?g)) = opposite (directionRef ?g)"
    by blast
  with o have "\<exists>r1 r2. directionRef (changeDirection r2 (changeDirection r1 ?g)) = \<lparr>px = -1, py = 0\<rparr>"
    by metis
  with e show ?thesis by blast
qed

section \<open>Starting a game\<close>

text \<open>C20: \<open>resetGame\<close> returns as soon as one food draw misses the centre cell,
  and starts a game: playing, not paused, the one-cell snake at \<open>(10, 10)\<close>
  heading right, food off that cell, no bonus, score 0, the full countdown,
  the tick interval of the selected difficulty, the high score kept.\<close>

theorem reset_starts_game:
  assumes "drawPoint rnd (randCalls g + 2 * k) \<noteq> \<lparr>px = 10, py = 10\<rparr>"
  shows "\<exists>g'. resetGame rnd m g = Some g' \<and> gameState g' = PLAYING \<and> gameMode g' = m \<and>
           snake g' = [\<lparr>px = 10, py = 10\<rparr>] \<and> food g' \<noteq> \<lparr>px = 10, py = 10\<rparr> \<and>
           bonusFood g' = None \<and> score g' = 0 \<and> timeLeft g' = TIMED_DURATION \<and>
           speedRef g' = SPEEDS (difficulty g) \<and> directionRef g' = \<lparr>px = 1, py = 0\<rparr> \<and>
           \<not> isPaused g' \<and> highScore g' = highScore g"
proof -
  have "drawPoint rnd (randCalls g + 2 * k) \<notin> set [\<lparr>px = 10, py = 10\<rparr>]"
    using assms by simp
  then obtain p j where gen: "generateFood rnd [\<lparr>px = 10, py = 10\<rparr>] (randCalls g) = Some (p, j)"
    using generateFood_Some_ex by blast
  then have "p \<noteq> \<lparr>px = 10, py = 10\<rparr>" using generateFood_sound [OF gen] by simp
  with gen show ?thesis by (simp add: resetGame_def)
qed

theorem reset_starts_game_witness:
  "drawPoint (\<lambda>_. 1 / 4) (randCalls initialGame + 2 * 0) \<noteq> \<lparr>px = 10, py = 10\<rparr> \<and>
   resetGame (\<lambda>_. 1 / 4) UNLIMITED initialGame =
     Some (initialGame\<lparr>gameState := PLAYING, food := \<lparr>px = 5, py = 5\<rparr>, randCalls := 2\<rparr>)"
proof -
  have d: "drawPoint (\<lambda>_. 1 / 4) (randCalls initialGame + 2 * 0) \<noteq> \<lparr>px = 10, py = 10\<rparr>"
    by (simp add: drawPoint_def randomCoord_def GRID_SIZE_def)
  have r: "resetGame (\<lambda>_. 1 / 4) UNLIMITED initialGame =
     Some (initialGame\<lparr>gameState := PLAYING, food := \<lparr>px = 5, py = 5\<rparr>, randCalls := 2\<rparr>)"
    by (simp add: resetGame_def generateFood_unfold drawPoint_def randomCoord_def GRID_SIZE_def
        initialGame_def TIMED_DURATION_def)
  show ?thesis using d r reset_starts_game [OF d, of UNLIMITED] by simp
qed

section \<open>Food and bonus placement\<close>

text \<open>C17: the bonus is drawn against the snake only, not against the food just
  placed, so a session can reach a state where the bonus and the food are the
  same cell: here the first random values start a game with the food in front
  of the snake, the first tick eats it, and both new items land on \<open>(5, 5)\<close>.\<close>

theorem bonus_spawned_on_food:
  "validRng (\<lambda>i. if i = 0 then 11 / 20 else if i = 1 then 1 / 2 else if i = 4 then 9 / 10 else 1 / 4) \<and>
   (\<exists>g. reachable
          (\<lambda>i. if i = 0 then 11 / 20 else if i = 1 then 1 / 2 else if i = 4 then 9 / 10 else 1 / 4) g \<and>
        gameState g = PLAYING \<and> bonusFood g = Some (food g))"
proof -
  let ?r = "\<lambda>i::nat. if i = 0 then 11 / 20 else if i = 1 then 1 / 2 else if i = 4 then 9 / 10
                     else (1 / 4 :: rat)"
  let ?g1 = "initialGame\<lparr>gameState := PLAYING, food := \<lparr>px = 11, py = 10\<rparr>, randCalls := 2\<rparr>"
  let ?g2 = "initialGame\<lparr>gameState := PLAYING, food := \<lparr>px = 5, py = 5\<rparr>, randCalls := 7,
               score := 1, speedRef := 138, bonusFood := Some \<lparr>px = 5, py = 5\<rparr>,
               snake := [\<lparr>px = 11, py = 10\<rparr>, \<lparr>px = 10, py = 10\<rparr>]\<rparr>"
  have v: "validRng ?r" by (simp add: validRng_def)
  have s1: "step ?r initialGame (ChooseMode UNLIMITED) = Some (Inr ?g1)"
    by (simp add: resetGame_def generateFood_unfold drawPoint_def randomCoord_def GRID_SIZE_def
        initialGame_def TIMED_DURATION_def)
  have s2: "step ?r ?g1 Tick = Some (Inr ?g2)"
    by (simp add: moveSnake_def initialGame_def advance_def wallCollision_def GRID_SIZE_def
        growTo_def eatFood_def generateFood_unfold drawPoint_def randomCoord_def spawnBonus_def
        rampSpeed_def)
  have r1: "reachable ?r ?g1"
    by (rule reachable.run [OF reachable.init _ s1]) (simp add: initialGame_def)
  have "reachable ?r ?g2"
    by (rule reachable.run [OF r1 _ s2]) (simp add: gameLoopActive_def initialGame_def)
  with v show ?thesis by (intro conjI exI [of _ ?g2]) simp_all
qed

section \<open>The tick against the specification\<close>

text \<open>C22: in a well-formed state, a tick that returns is a step of the
  specification's per-tick algorithm \<open>specTick\<close> (read through \<open>absGame\<close>)
  exactly when the food and the bonus are not both on the new head's cell.\<close>

theorem tick_refines_spec:
  assumes "validRng rnd" and "wfGame g" and "moveSnake rnd g = Some (Inr g')"
  shows "specTick (directionRef g) (absGame g) (absGame g') \<longleftrightarrow>
         \<not> (advance (hd (snake g)) (directionRef g) = food g \<and> bonusFood g = Some (food g))"
proof
  assume spec: "specTick (directionRef g) (absGame g) (absGame g')"
  show "\<not> (advance (hd (snake g)) (directionRef g) = food g \<and> bonusFood g = Some (food g))"
  proof
    assume both: "advance (hd (snake g)) (directionRef g) = food g \<and> bonusFood g = Some (food g)"
    obtain h t where sn: "snake g = h # t"
      using assms(2) by (cases "snake g") (auto simp: wfGame_def snakeOk_def)
    define nh where "nh = advance h (directionRef g)"
    have nh: "nh = food g" "bonusFood g = Some nh" using both sn by (simp_all add: nh_def)
    have "\<not> wallCollision nh" "nh \<notin> set (snake g)"
      using assms(2) nh by (simp_all add: wfGame_def wallCollision_iff)
    from moveSnake_food_and_bonus [OF sn nh_def this nh assms(3)]
    have "aScore (absGame g') = aScore (absGame g) + 11" by auto
    then show False
      using specTick_not_both [OF spec] sn nh by (simp add: nh_def)
  qed
next
  assume "\<not> (advance (hd (snake g)) (directionRef g) = food g \<and> bonusFood g = Some (food g))"
  then show "specTick (directionRef g) (absGame g) (absGame g')"
    by (rule moveSnake_refines [OF assms(1,3)])
qed

theorem tick_refines_spec_witness:
  "validRng (\<lambda>_. 1 / 4) \<and>
   wfGame (initialGame\<lparr>gameState := PLAYING, food := \<lparr>px = 11, py = 10\<rparr>\<rparr>) \<and>
   moveSnake (\<lambda>_. 1 / 4) (initialGame\<lparr>gameState := PLAYING, food := \<lparr>px = 11, py = 10\<rparr>\<rparr>) =
     Some (Inr (initialGame\<lparr>gameState := PLAYING, food := \<lparr>px = 5, py = 5\<rparr>, score := 1,
       randCalls := 3, speedRef := 138, snake := [\<lparr>px = 11, py = 10\<rparr>, \<lparr>px = 10, py = 10\<rparr>]\<rparr>)) \<and>
   specTick \<lparr>px = 1, py = 0\<rparr> (absGame (initialGame\<lparr>gameState := PLAYING, food := \<lparr>px = 11, py = 10\<rparr>\<rparr>))
     (absGame (initialGame\<lparr>gameState := PLAYING, food := \<lparr>px = 5, py = 5\<rparr>, score := 1,
       randCalls := 3, speedRef := 138, snake := [\<lparr>px = 11, py = 10\<rparr>, \<lparr>px = 10, py = 10\<rparr>]\<rparr>))"
proof -
  let ?g = "initialGame\<lparr>gameState := PLAYING, food := \<lparr>px = 11, py = 10\<rparr>\<rparr>"
  let ?g' = "initialGame\<lparr>gameState := PLAYING, food := \<lparr>px = 5, py = 5\<rparr>, score := 1,
       randCalls := 3, speedRef := 138, snake := [\<lparr>px = 11, py = 10\<rparr>, \<lparr>px = 10, py = 10\<rparr>]\<rparr>"
  have v: "validRng (\<lambda>_. 1 / 4)" by (simp add: validRng_def)
  have w: "wfGame ?g"
    by (simp add: wfGame_def initialGame_def snakeOk_def inBounds_def GRID_SIZE_def
        bonusOk_def isDirection_def TIMED_DURATION_def)
  have m: "moveSnake (\<lambda>_. 1 / 4) ?g = Some (Inr ?g')"
    by (simp add: moveSnake_def initialGame_def advance_def wallCollision_def GRID_SIZE_def
        growTo_def eatFood_def generateFood_unfold drawPoint_def randomCoord_def spawnBonus_def
        rampSpeed_def)
  have "specTick (directionRef ?g) (absGame ?g) (absGame ?g')"
    using tick_refines_spec [OF v w m] by (simp add: initialGame_def advance_def)
  with v w m show ?thesis by (simp add: initialGame_def)
qed

text \<open>C23: a tick returns (it neither throws nor loops in \<open>generateFood\<close>)
  whenever, from every point of the random sequence on, some attempt draws a
  cell off the grown snake.\<close>

theorem tick_returns:
  assumes "snake g = h # t"
    and "\<forall>i. \<exists>k. drawPoint rnd (i + 2 * k) \<notin> set (advance h (directionRef g) # snake g)"
  shows "\<exists>g'. moveSnake rnd g = Some (Inr g')"
proof -
  define nh where "nh = advance h (directionRef g)"
  consider (stop) "wallCollision nh \<or> nh \<in> set (snake g)"
    | (food) "\<not> wallCollision nh" "nh \<notin> set (snake g)" "nh = food g"
    | (other) "\<not> wallCollision nh" "nh \<notin> set (snake g)" "nh \<noteq> food g"
    by blast
  then show ?thesis
  proof cases
    case stop
    then show ?thesis
      using moveSnake_wall [OF assms(1)] moveSnake_self [OF assms(1)] by (auto simp: nh_def)
  next
    case food
    have "\<forall>i. \<exists>k. drawPoint rnd (i + 2 * k) \<notin> set (growTo nh (snake g))"
      using assms(2) by (simp add: growTo_def nh_def)
    then obtain g2 where "eatFood rnd (growTo nh (snake g)) g
        (if bonusFood g = Some nh then g\<lparr>score := score g + 10, bonusFood := None\<rparr> else g) = Some g2"
      using eatFood_returns by blast
    then show ?thesis using moveSnake_food [OF assms(1) nh_def food] by simp
  next
    case other
    then show ?thesis
      using moveSnake_move [OF assms(1) nh_def] moveSnake_bonus [OF assms(1) nh_def]
      by (cases "bonusFood g = Some nh") auto
  qed
qed

theorem tick_returns_witness:
  "snake (initialGame\<lparr>gameState := PLAYING, food := \<lparr>px = 11, py = 10\<rparr>\<rparr>) = \<lparr>px = 10, py = 10\<rparr> # [] \<and>
   (\<forall>i. \<exists>k. drawPoint (\<lambda>_. 1 / 4) (i + 2 * k) \<notin>
       set [\<lparr>px = 11, py = 10\<rparr>, \<lparr>px = 10, py = 10\<rparr>]) \<and>
   (\<exists>g'. moveSnake (\<lambda>_. 1 / 4) (initialGame\<lparr>gameState := PLAYING, food := \<lparr>px = 11, py = 10\<rparr>\<rparr>) =
      Some (Inr g'))"
proof -
  let ?g = "initialGame\<lparr>gameState := PLAYING, food := \<lparr>px = 11, py = 10\<rparr>\<rparr>"
  have s: "snake ?g = \<lparr>px = 10, py = 10\<rparr> # []" by (simp add: initialGame_def)
  have d: "\<forall>i. \<exists>k. drawPoint (\<lambda>_. 1 / 4) (i + 2 * k) \<notin> set [\<lparr>px = 11, py = 10\<rparr>, \<lparr>px = 10, py = 10\<rparr>]"
    by (simp add: drawPoint_def randomCoord_def GRID_SIZE_def)
  have a: "advance \<lparr>px = 10, py = 10\<rparr> (directionRef ?g) = \<lparr>px = 11, py = 10\<rparr>"
    by (simp add: initialGame_def advance_def)
  show ?thesis using s d tick_returns [OF s] a by simp
qed

end
